(* ===== verification/Prelude.thy ===== *)
theory Prelude
  imports Complex_Main
begin

text \<open>
  Shared vocabulary of the development: the types that name time and timer handles,
  the collections of rewrite rules the component theories register their handler
  equations in, and generic lemmas on lists, options and association lists that the
  timer store and the handlers are built from. Nothing here is specific to the
  installation program; the JavaScript value conversions the program relies on
  (number to string) are here as well, since they are language semantics, not code of
  the repository.
\<close>

type_synonym time = nat
type_synonym timer_id = nat

named_theorems handler_defs "definitions of the program's event handlers"
named_theorems frame_simps "facts that a handler leaves a part of the world unchanged"

subsection \<open>JavaScript number to string\<close>

text \<open>\<open>String(n)\<close> for an integral number: decimal digits, a minus sign when negative.\<close>

definition digit_chars :: string where
  "digit_chars = ''0123456789''"

fun digits_of_nat :: "nat \<Rightarrow> string" where
  "digits_of_nat n =
     (if n < 10 then [digit_chars ! n]
      else digits_of_nat (n div 10) @ [digit_chars ! (n mod 10)])"

declare digits_of_nat.simps [simp del]

definition js_string_of_int :: "int \<Rightarrow> string" where
  "js_string_of_int i =
     (if i < 0 then CHR ''-'' # digits_of_nat (nat (- i)) else digits_of_nat (nat i))"

lemma digits_of_nat_small [simp]: "n < 10 \<Longrightarrow> digits_of_nat n = [digit_chars ! n]"
  by (simp add: digits_of_nat.simps)

lemma digits_of_nat_nonempty [simp]: "digits_of_nat n \<noteq> []"
  by (subst digits_of_nat.simps) simp

lemma digits_of_nat_long: "10 \<le> n \<Longrightarrow> 2 \<le> length (digits_of_nat n)"
  by (subst digits_of_nat.simps) (simp add: Suc_le_eq)

text \<open>A one-character decimal string names exactly one number.\<close>

lemma js_string_single_digit:
  assumes "js_string_of_int i = [digit_chars ! k]" "k < 10"
  shows "i = int k"
proof (cases "i < 0")
  case True
  with assms have "CHR ''-'' = digit_chars ! k" by (simp add: js_string_of_int_def)
  moreover have "digit_chars ! k \<in> set digit_chars"
    by (rule nth_mem) (use assms(2) in \<open>simp add: digit_chars_def\<close>)
  ultimately have "CHR ''-'' \<in> set digit_chars" by simp
  then show ?thesis by (simp add: digit_chars_def)
next
  case False
  with assms have d: "digits_of_nat (nat i) = [digit_chars ! k]" by (simp add: js_string_of_int_def)
  have "nat i < 10"
  proof (rule ccontr)
    assume "\<not> nat i < 10"
    then have "2 \<le> length (digits_of_nat (nat i))" by (intro digits_of_nat_long) simp
    with d show False by simp
  qed
  with d have "digit_chars ! nat i = digit_chars ! k" by simp
  with \<open>nat i < 10\<close> assms(2) have "nat i = k"
    by (simp add: digit_chars_def nth_eq_iff_index_eq)
  with False show ?thesis by simp
qed

subsection \<open>Association lists keyed by handles\<close>

text \<open>Removing every entry with a key keeps the others in order.\<close>

lemma filter_key_set:
  "set (filter (\<lambda>(j, _). j \<noteq> i) xs) = {x \<in> set xs. fst x \<noteq> i}"
  by auto

lemma distinct_map_fst_filter [intro]:
  "distinct (map fst xs) \<Longrightarrow> distinct (map fst (filter P xs))"
  by (induction xs) auto

lemma map_fst_filter_subset:
  "set (map fst (filter P xs)) \<subseteq> set (map fst xs)"
  by auto

text \<open>A duplicate-free list of handles all equal to one optional handle has at most one
  element.\<close>

lemma distinct_sub_option:
  assumes "distinct xs" "set xs \<subseteq> set_option h"
  shows "length xs \<le> 1"
proof -
  have "card (set xs) \<le> card (set_option h)" using assms(2) by (intro card_mono) simp_all
  also have "\<dots> \<le> 1" by (cases h) simp_all
  finally show ?thesis using distinct_card [OF assms(1)] by simp
qed

text \<open>Unfolds a replicated event list one element at a time during evaluation.\<close>

lemma replicate_numeral_unfold: "replicate (numeral n) x = x # replicate (pred_numeral n) x"
  by (simp add: numeral_eq_Suc)

subsection \<open>Rational duties\<close>

lemma floor_scaled_range:
  fixes v :: rat
  assumes "0 \<le> v" "v \<le> 1" "0 < k"
  shows "0 \<le> \<lfloor>v * of_int k\<rfloor> \<and> \<lfloor>v * of_int k\<rfloor> \<le> k"
proof -
  have "v * of_int k \<le> 1 * of_int k" using assms by (intro mult_right_mono) simp_all
  moreover have "0 \<le> v * of_int k" using assms by simp
  ultimately show ?thesis by (simp add: floor_le_iff)
qed

end
