(* ===== verification/Runtime.thy ===== *)
theory Runtime
  imports Prelude
begin

text \<open>
  The world the program runs in: the configuration constants and the \<open>Ports\<close> table of
  \<^verbatim>\<open>src/halloween.js\<close>, the global \<open>State\<close> and \<open>IOEnabled\<close> objects, the output
  pins, the commands in flight to the pigpio daemon, and the Node.js timer queue that
  every component arms and cancels. A handler of the program is a function from a
  world to a world; the closures handed to \<open>setTimeout\<close> and \<open>setInterval\<close> are the
  constructors of \<open>cb\<close>, which the controller dispatches when a timer fires.
\<close>

section \<open>Configuration (halloween.js, lines 13--51)\<close>

definition SENSOR_SETUP_TIME :: nat where "SENSOR_SETUP_TIME = 30000"
definition SENSOR_TIMEOUT :: nat where "SENSOR_TIMEOUT = 5000"
definition START_DELAY :: nat where "START_DELAY = 4000"
definition FLASH_INTERVAL :: nat where "FLASH_INTERVAL = 2000"
definition FLASH_DURATION :: nat where "FLASH_DURATION = 500"
definition COOL_DOWN_DURATION :: nat where "COOL_DOWN_DURATION = 90000"
definition DOG_ON_DURATION :: nat where "DOG_ON_DURATION = 16000"
definition DOG_OFF_DURATION :: nat where "DOG_OFF_DURATION = 15000"
definition DOG_TRANSITION :: nat where "DOG_TRANSITION = 2000"
definition SKULL1_ON_DURATION :: nat where "SKULL1_ON_DURATION = 2000"
definition SKULL1_OFF_DURATION :: nat where "SKULL1_OFF_DURATION = 1500"
definition SKULL1_TRANSITION :: nat where "SKULL1_TRANSITION = 1500"
definition SKULL2_ON_DURATION :: nat where "SKULL2_ON_DURATION = 3000"
definition SKULL2_OFF_DURATION :: nat where "SKULL2_OFF_DURATION = 2000"
definition SKULL2_TRANSITION :: nat where "SKULL2_TRANSITION = 1500"
definition PWM_PRECISION :: nat where "PWM_PRECISION = 10"
definition TRANSITION_INTERVAL :: nat where "TRANSITION_INTERVAL = 40"

lemmas config_defs = SENSOR_SETUP_TIME_def SENSOR_TIMEOUT_def START_DELAY_def
  FLASH_INTERVAL_def FLASH_DURATION_def COOL_DOWN_DURATION_def
  DOG_ON_DURATION_def DOG_OFF_DURATION_def DOG_TRANSITION_def
  SKULL1_ON_DURATION_def SKULL1_OFF_DURATION_def SKULL1_TRANSITION_def
  SKULL2_ON_DURATION_def SKULL2_OFF_DURATION_def SKULL2_TRANSITION_def
  PWM_PRECISION_def TRANSITION_INTERVAL_def

section \<open>Ports (lines 54--65)\<close>

datatype port = Sensor1 | Sensor2 | Sensor3 | LightNet | LightDog | SoundDog
  | LightSkull1 | LightSkull2 | FlashLight1 | FlashLight2

datatype direction = In | Out

fun port_pin :: "port \<Rightarrow> nat" where
  "port_pin Sensor1 = 22" | "port_pin Sensor2 = 23" | "port_pin Sensor3 = 27"
| "port_pin LightNet = 2" | "port_pin LightDog = 18" | "port_pin SoundDog = 17"
| "port_pin LightSkull1 = 14" | "port_pin LightSkull2 = 15"
| "port_pin FlashLight1 = 3" | "port_pin FlashLight2 = 4"

fun port_dir :: "port \<Rightarrow> direction" where
  "port_dir Sensor1 = In" | "port_dir Sensor2 = In" | "port_dir Sensor3 = In"
| "port_dir _ = Out"

fun port_invert :: "port \<Rightarrow> bool" where
  "port_invert LightNet = True"
| "port_invert _ = False"

text \<open>The table's keys, in the order the object literal lists them (the order of
  \<open>for (var port in Ports)\<close>).\<close>

definition Ports :: "(string \<times> port) list" where
  "Ports = [(''sensor1'', Sensor1), (''sensor2'', Sensor2), (''sensor3'', Sensor3),
            (''lightNet'', LightNet), (''lightDog'', LightDog), (''soundDog'', SoundDog),
            (''lightSkull1'', LightSkull1), (''lightSkull2'', LightSkull2),
            (''flashLight1'', FlashLight1), (''flashLight2'', FlashLight2)]"

definition all_ports :: "port list" where
  "all_ports = map snd Ports"

section \<open>Global objects: State and IOEnabled (lines 68--85)\<close>

datatype mode = Idle | Delay | Run | CoolDown

text \<open>\<open>State\<close> holds the mode string and, per port name, a truthy flag: the sensors'
  presence (booleans) and the outputs' 0/1 values. \<open>uptime\<close> is written by the
  status handler only and is not modelled.\<close>

record state_obj =
  mode :: mode
  flag :: "port \<Rightarrow> bool"

datatype io_key = IO_sensor1 | IO_sensor2 | IO_sensor3 | IO_music

definition io_keys :: "(string \<times> io_key) list" where
  "io_keys = [(''sensor1'', IO_sensor1), (''sensor2'', IO_sensor2),
              (''sensor3'', IO_sensor3), (''music'', IO_music)]"

section \<open>Timer callbacks and the world\<close>

text \<open>Every closure the program passes to \<open>setTimeout\<close>/\<open>setInterval\<close>.\<close>

datatype cb =
    SensorTimeout port       \<comment> \<open>\<open>SensorWatch\<close>: \<open>setTimeout(cb, SENSOR_TIMEOUT)\<close>\<close>
  | FlashOn | FlashOff       \<comment> \<open>\<open>Flasher\<close>\<close>
  | SFTransitionStep port | SFChannelOn port | SFChannelOff port | SFRunTransition port
                             \<comment> \<open>\<open>SlowFlasher\<close>\<close>
  | SPTransitionStep port | SPRunTransition port   \<comment> \<open>\<open>SlowFlasherPigpio\<close>\<close>
  | StartSkull1 | StartSkull2 | DelayEnd | CoolDownEnd | SensorSetup
                             \<comment> \<open>the controller's anonymous closures\<close>

datatype drive = Level nat | Duty int

text \<open>How the process ends abnormally: an exception thrown inside a callback (Node
  prints it and the process dies), or \<open>process.exit(1)\<close> after the pigpio pipe could not
  be opened (line 113).\<close>

datatype error = TypeError | PipeExit

record timer =
  due :: time
  period :: "time option"
  action :: cb

record world =
  clock :: time
  nextId :: timer_id
  timers :: "(timer_id \<times> timer) list"
  pins :: "port \<Rightarrow> drive"
  pending :: "(port \<times> bool) list"
  State :: state_obj
  IOEnabled :: "io_key \<Rightarrow> bool"

section \<open>Node.js timers\<close>

text \<open>Node coerces a delay outside \<open>[1, TIMEOUT_MAX]\<close> to 1 ms.\<close>

definition node_delay :: "nat \<Rightarrow> nat" where
  "node_delay d = (if 1 \<le> d \<and> d \<le> 2147483647 then d else 1)"

definition setTimeout :: "cb \<Rightarrow> nat \<Rightarrow> world \<Rightarrow> timer_id \<times> world" where
  "setTimeout f d w =
     (nextId w, w\<lparr>nextId := Suc (nextId w),
        timers := timers w @ [(nextId w, \<lparr>due = clock w + node_delay d, period = None, action = f\<rparr>)]\<rparr>)"

definition setInterval :: "cb \<Rightarrow> nat \<Rightarrow> world \<Rightarrow> timer_id \<times> world" where
  "setInterval f d w =
     (nextId w, w\<lparr>nextId := Suc (nextId w),
        timers := timers w @ [(nextId w, \<lparr>due = clock w + node_delay d,
                                          period = Some (node_delay d), action = f\<rparr>)]\<rparr>)"

text \<open>\<open>clearTimeout\<close> and \<open>clearInterval\<close> are the same in Node; a null or stale handle
  is ignored.\<close>

definition clearTimeout :: "timer_id option \<Rightarrow> world \<Rightarrow> world" where
  "clearTimeout h w =
     (case h of None \<Rightarrow> w | Some i \<Rightarrow> w\<lparr>timers := filter (\<lambda>(j, _). j \<noteq> i) (timers w)\<rparr>)"

text \<open>The next timer to fire: the earliest due time, ties broken by creation order.\<close>

fun pick_timer :: "(timer_id \<times> timer) option \<Rightarrow> (timer_id \<times> timer) list \<Rightarrow> (timer_id \<times> timer) option" where
  "pick_timer acc [] = acc"
| "pick_timer None (x # xs) = pick_timer (Some x) xs"
| "pick_timer (Some y) (x # xs) = pick_timer (if due (snd x) < due (snd y) then Some x else Some y) xs"

definition next_timer :: "(timer_id \<times> timer) list \<Rightarrow> (timer_id \<times> timer) option" where
  "next_timer ts = pick_timer None ts"

text \<open>Firing moves the clock to the due time (a late timer fires at once), reschedules an
  interval one period after the firing, removes a one-shot timer, and hands back the
  closure to run.\<close>

definition after_fire :: "timer_id \<Rightarrow> timer \<Rightarrow> world \<Rightarrow> world" where
  "after_fire i t w =
     (let n = max (clock w) (due t)
      in w\<lparr>clock := n,
           timers := (case period t of
               None \<Rightarrow> filter (\<lambda>(j, _). j \<noteq> i) (timers w)
             | Some p \<Rightarrow> map (\<lambda>(j, u). if j = i then (j, u\<lparr>due := n + p\<rparr>) else (j, u))
                            (timers w))\<rparr>)"

definition fire_next :: "world \<Rightarrow> (cb \<times> world) option" where
  "fire_next w =
     (case next_timer (timers w) of
        None \<Rightarrow> None
      | Some (i, t) \<Rightarrow> Some (action t, after_fire i t w))"

text \<open>Time passes without a timer firing only up to the next due time.\<close>

definition advance :: "nat \<Rightarrow> world \<Rightarrow> world option" where
  "advance d w =
     (if list_all (\<lambda>(_, t). clock w + d \<le> due t) (timers w)
      then Some (w\<lparr>clock := clock w + d\<rparr>) else None)"

definition live :: "timer_id option \<Rightarrow> world \<Rightarrow> bool" where
  "live h w = (case h of None \<Rightarrow> False | Some i \<Rightarrow> i \<in> fst ` set (timers w))"

text \<open>The live timers that run a given closure.\<close>

definition armed :: "cb \<Rightarrow> world \<Rightarrow> timer_id list" where
  "armed f w = map fst (filter (\<lambda>(_, t). action t = f) (timers w))"

text \<open>A handle a component keeps owns a closure when it was issued before the
  next handle and, if it names a live timer at all, names one running that closure.
  Clearing such a handle never cancels another component's timer.\<close>

definition owns :: "timer_id option \<Rightarrow> cb \<Rightarrow> world \<Rightarrow> bool" where
  "owns h f w \<longleftrightarrow> (\<forall>i. h = Some i \<longrightarrow> i < nextId w \<and> (\<forall>g. i \<in> set (armed g w) \<longrightarrow> g = f))"

text \<open>The due times of the live timers that run a given closure.\<close>

definition dues :: "cb \<Rightarrow> world \<Rightarrow> time list" where
  "dues f w = map (due \<circ> snd) (filter (\<lambda>(_, t). action t = f) (timers w))"

text \<open>A well-formed world: timer handles are distinct and all below the next handle, so a
  handle, once fired or cleared, never names a live timer again.\<close>

definition wf_world :: "world \<Rightarrow> bool" where
  "wf_world w \<longleftrightarrow> distinct (map fst (timers w)) \<and> (\<forall>i \<in> fst ` set (timers w). i < nextId w)"

text \<open>The periods of the live timers that run a given closure.\<close>

definition periods :: "cb \<Rightarrow> world \<Rightarrow> time option list" where
  "periods f w = map (period \<circ> snd) (filter (\<lambda>(_, t). action t = f) (timers w))"

section \<open>Output shortcuts (lines 89--130)\<close>

definition setFlag :: "port \<Rightarrow> bool \<Rightarrow> world \<Rightarrow> world" where
  "setFlag p b w = w\<lparr>State := (State w)\<lparr>flag := (flag (State w))(p := b)\<rparr>\<rparr>"

definition portOn :: "port \<Rightarrow> world \<Rightarrow> world" where
  "portOn p w =
     (if port_dir p = Out
      then w\<lparr>pins := (pins w)(p := Level (if port_invert p then 0 else 1))\<rparr> else w)"

definition portOff :: "port \<Rightarrow> world \<Rightarrow> world" where
  "portOff p w =
     (if port_dir p = Out
      then w\<lparr>pins := (pins w)(p := Level (if port_invert p then 1 else 0))\<rparr> else w)"

text \<open>\<open>sendPigpioCommand\<close> opens the daemon's pipe and writes \<open>p PIN DUTY\<close> to it,
  asynchronously. The duty is recorded on the pin when the command is issued; the command
  stays in \<open>pending\<close>, with whether it has a completion callback, until its open and
  write complete, or its open fails (both events of the system).\<close>

definition sendPigpioCommand :: "port \<Rightarrow> int \<Rightarrow> bool \<Rightarrow> world \<Rightarrow> world" where
  "sendPigpioCommand p d has_cb w =
     w\<lparr>pins := (pins w)(p := Duty d), pending := pending w @ [(p, has_cb)]\<rparr>"

text \<open>The open callback of the \<open>i\<close>-th command in flight receiving an error: the program
  logs it and calls \<open>process.exit(1)\<close>, without the \<open>exit\<close> handler's clean-up.\<close>

definition pigpio_open_failed :: "nat \<Rightarrow> world \<Rightarrow> error option" where
  "pigpio_open_failed i w = (if i < length (pending w) then Some PipeExit else None)"

definition portPWM :: "port \<Rightarrow> rat \<Rightarrow> bool \<Rightarrow> world \<Rightarrow> world" where
  "portPWM p v has_cb w =
     (if port_pin p \<noteq> 0 then sendPigpioCommand p (\<lfloor>v * 250\<rfloor>) has_cb w else w)"

section \<open>Start-up and shutdown (lines 372--393)\<close>

definition init :: "world \<Rightarrow> world" where
  "init w = fold portOff all_ports w"

definition off_level :: "port \<Rightarrow> drive" where
  "off_level p = Level (if port_invert p then 1 else 0)"

text \<open>\<open>exit\<close> drives every output to its off level synchronously before the process
  ends (\<open>writeSync\<close>, so nothing is left in flight).\<close>

definition exit_cleanup :: "world \<Rightarrow> world" where
  "exit_cleanup w =
     fold (\<lambda>p w. if port_dir p = Out then w\<lparr>pins := (pins w)(p := off_level p)\<rparr> else w)
       all_ports w"

section \<open>The world at start-up (lines 68--85, 372--379)\<close>

definition State0 :: state_obj where
  "State0 = \<lparr>mode = Idle, flag = (\<lambda>_. False)\<rparr>"

definition IOEnabled0 :: "io_key \<Rightarrow> bool" where
  "IOEnabled0 = (\<lambda>_. True)"

text \<open>Before \<open>init\<close> the pins' levels are not known; \<open>init\<close> drives every output off.\<close>

definition world0 :: world where
  "world0 = init \<lparr>clock = 0, nextId = 0, timers = [], pins = (\<lambda>_. Level 0), pending = [],
                  State = State0, IOEnabled = IOEnabled0\<rparr>"

lemmas world0_defs = world0_def init_def all_ports_def Ports_def State0_def IOEnabled0_def

section \<open>Lemmas on the timer store\<close>

lemma fold_update_pins:
  "timers (fold portOff ps w) = timers w \<and> clock (fold portOff ps w) = clock w \<and>
   nextId (fold portOff ps w) = nextId w \<and> pending (fold portOff ps w) = pending w \<and>
   State (fold portOff ps w) = State w \<and> IOEnabled (fold portOff ps w) = IOEnabled w"
  by (induction ps arbitrary: w) (simp_all add: portOff_def)

lemmas timer_defs = setTimeout_def setInterval_def clearTimeout_def
declare setFlag_def [handler_defs] portOn_def [handler_defs] portOff_def [handler_defs]
  sendPigpioCommand_def [handler_defs] portPWM_def [handler_defs]

lemma armed_setFlag [simp, frame_simps]: "armed f (setFlag p b w) = armed f w"
  and armed_portOn [simp, frame_simps]: "armed f (portOn p w) = armed f w"
  and armed_portOff [simp, frame_simps]: "armed f (portOff p w) = armed f w"
  and armed_portPWM [simp, frame_simps]: "armed f (portPWM p v c w) = armed f w"
  by (simp_all add: armed_def handler_defs)

lemma timers_frame [simp, frame_simps]:
  "timers (setFlag p b w) = timers w" "timers (portOn p w) = timers w"
  "timers (portOff p w) = timers w" "timers (portPWM p v c w) = timers w"
  "nextId (setFlag p b w) = nextId w" "nextId (portOn p w) = nextId w"
  "nextId (portOff p w) = nextId w" "nextId (portPWM p v c w) = nextId w"
  "clock (setFlag p b w) = clock w" "clock (portOn p w) = clock w"
  "clock (portOff p w) = clock w" "clock (portPWM p v c w) = clock w"
  by (simp_all add: handler_defs)

lemma state_frame [simp, frame_simps]:
  "State (portOn p w) = State w" "State (portOff p w) = State w"
  "State (portPWM p v c w) = State w" "IOEnabled (setFlag p b w) = IOEnabled w"
  "IOEnabled (portOn p w) = IOEnabled w" "IOEnabled (portOff p w) = IOEnabled w"
  "IOEnabled (portPWM p v c w) = IOEnabled w"
  "pins (setFlag p b w) = pins w" "pending (setFlag p b w) = pending w"
  "pending (portOn p w) = pending w" "pending (portOff p w) = pending w"
  by (simp_all add: handler_defs)

lemma pins_portOn [simp]:
  "pins (portOn p w) q = (if q = p \<and> port_dir p = Out then Level (if port_invert p then 0 else 1) else pins w q)"
  and pins_portOff [simp]:
  "pins (portOff p w) q = (if q = p \<and> port_dir p = Out then Level (if port_invert p then 1 else 0) else pins w q)"
  by (simp_all add: portOn_def portOff_def)

lemma pins_portPWM [simp]:
  "pins (portPWM p v h w) q = (if q = p \<and> port_pin p \<noteq> 0 then Duty \<lfloor>v * 250\<rfloor> else pins w q)"
  and pending_portPWM [simp]:
  "pending (portPWM p v h w) = pending w @ (if port_pin p \<noteq> 0 then [(p, h)] else [])"
  by (simp_all add: portPWM_def sendPigpioCommand_def)

lemma flag_setFlag [simp]: "flag (State (setFlag p b w)) q = (if q = p then b else flag (State w) q)"
  and mode_setFlag [simp]: "mode (State (setFlag p b w)) = mode (State w)"
  by (simp_all add: setFlag_def)

lemma filter_key_armed:
  "map fst (filter P (filter (\<lambda>(j, _). j \<noteq> i) xs)) = filter (\<lambda>j. j \<noteq> i) (map fst (filter P xs))"
  by (induction xs) auto

lemma armed_clearTimeout [simp]:
  "armed f (clearTimeout h w) = (case h of None \<Rightarrow> armed f w | Some i \<Rightarrow> filter (\<lambda>j. j \<noteq> i) (armed f w))"
  by (cases h) (simp_all add: armed_def clearTimeout_def filter_key_armed del: filter_filter)

lemma armed_setTimeout [simp]:
  "armed f (snd (setTimeout g d w)) = armed f w @ (if g = f then [nextId w] else [])"
  and armed_setInterval [simp]:
  "armed f (snd (setInterval g d w)) = armed f w @ (if g = f then [nextId w] else [])"
  by (simp_all add: armed_def timer_defs)

lemma setTimeout_fst [simp]: "fst (setTimeout f d w) = nextId w"
  and setInterval_fst [simp]: "fst (setInterval f d w) = nextId w"
  by (simp_all add: timer_defs)

lemma setTimeout_fields [simp]:
  "nextId (snd (setTimeout f d w)) = Suc (nextId w)" "clock (snd (setTimeout f d w)) = clock w"
  "State (snd (setTimeout f d w)) = State w" "pins (snd (setTimeout f d w)) = pins w"
  "pending (snd (setTimeout f d w)) = pending w" "IOEnabled (snd (setTimeout f d w)) = IOEnabled w"
  "nextId (snd (setInterval f d w)) = Suc (nextId w)" "clock (snd (setInterval f d w)) = clock w"
  "State (snd (setInterval f d w)) = State w" "pins (snd (setInterval f d w)) = pins w"
  "pending (snd (setInterval f d w)) = pending w" "IOEnabled (snd (setInterval f d w)) = IOEnabled w"
  by (simp_all add: timer_defs)

lemma clearTimeout_fields [simp]:
  "nextId (clearTimeout h w) = nextId w" "clock (clearTimeout h w) = clock w"
  "State (clearTimeout h w) = State w" "pins (clearTimeout h w) = pins w"
  "pending (clearTimeout h w) = pending w" "IOEnabled (clearTimeout h w) = IOEnabled w"
  by (cases h; simp add: clearTimeout_def)+

lemma map_of_setTimeout:
  "wf_world w \<Longrightarrow> map_of (timers (snd (setTimeout f d w))) (nextId w) =
     Some \<lparr>due = clock w + node_delay d, period = None, action = f\<rparr>"
  and map_of_setInterval:
  "wf_world w \<Longrightarrow> map_of (timers (snd (setInterval f d w))) (nextId w) =
     Some \<lparr>due = clock w + node_delay d, period = Some (node_delay d), action = f\<rparr>"
proof -
  assume "wf_world w"
  then have "map_of (timers w) (nextId w) = None"
    by (auto simp: wf_world_def map_of_eq_None_iff)
  then show "map_of (timers (snd (setTimeout f d w))) (nextId w) =
     Some \<lparr>due = clock w + node_delay d, period = None, action = f\<rparr>"
    and "map_of (timers (snd (setInterval f d w))) (nextId w) =
     Some \<lparr>due = clock w + node_delay d, period = Some (node_delay d), action = f\<rparr>"
    by (simp_all add: timer_defs map_add_def)
qed

lemma world0_fields [simp]:
  "clock world0 = 0" "nextId world0 = 0" "timers world0 = []" "pending world0 = []"
  "State world0 = State0" "IOEnabled world0 = IOEnabled0"
  by (simp_all add: world0_def init_def fold_update_pins)

lemma State0_fields [simp]: "flag State0 p = False" "mode State0 = Idle"
  by (simp_all add: State0_def)

lemma wf_world0 [simp]: "wf_world world0"
  by (simp add: wf_world_def)

lemma node_delay_id [simp]: "1 \<le> d \<Longrightarrow> d \<le> 2147483647 \<Longrightarrow> node_delay d = d"
  by (simp add: node_delay_def)

lemma pick_timer_min:
  "pick_timer a ts = Some (i, t) \<Longrightarrow>
   ((i, t) \<in> set ts \<or> a = Some (i, t)) \<and> (\<forall>x \<in> set ts. due t \<le> due (snd x)) \<and>
   (\<forall>y. a = Some y \<longrightarrow> due t \<le> due (snd y))"
proof (induction a ts rule: pick_timer.induct)
  case (1 acc)
  then show ?case by simp
next
  case (2 x xs)
  then show ?case by fastforce
next
  case (3 y x xs)
  then show ?case by (auto split: if_splits; fastforce)
qed

text \<open>The timer that fires is live and due no later than any other live timer.\<close>

lemma next_timer_min:
  "next_timer ts = Some (i, t) \<Longrightarrow> (i, t) \<in> set ts \<and> (\<forall>x \<in> set ts. due t \<le> due (snd x))"
  using pick_timer_min [of None ts i t] by (simp add: next_timer_def)

lemma fire_nextE:
  assumes "fire_next w = Some (f, w')"
  obtains i t where "(i, t) \<in> set (timers w)" "action t = f"
    "\<forall>x \<in> set (timers w). due t \<le> due (snd x)" "w' = after_fire i t w"
proof -
  obtain i t where nt: "next_timer (timers w) = Some (i, t)"
    using assms by (cases "next_timer (timers w)") (auto simp: fire_next_def)
  with assms have "action t = f" "w' = after_fire i t w"
    by (auto simp: fire_next_def)
  with next_timer_min [OF nt] show ?thesis using that by blast
qed

lemma after_fire_fields [simp]:
  "pins (after_fire i t w) = pins w" "State (after_fire i t w) = State w"
  "IOEnabled (after_fire i t w) = IOEnabled w" "pending (after_fire i t w) = pending w"
  "nextId (after_fire i t w) = nextId w" "clock (after_fire i t w) = max (clock w) (due t)"
  by (simp_all add: after_fire_def Let_def)

lemma map_fst_retime:
  "map fst (map (\<lambda>(j, u). if j = i then (j, u\<lparr>due := n\<rparr>) else (j, u)) xs) = map fst xs"
  by (induction xs) auto

lemma after_fire_ids:
  "map fst (timers (after_fire i t w)) = map fst (timers w) \<or>
   map fst (timers (after_fire i t w)) = map fst (filter (\<lambda>(j, _). j \<noteq> i) (timers w))"
  by (simp add: after_fire_def Let_def map_fst_retime del: map_map split: option.split)

lemma map_absent_key:
  "i \<notin> fst ` set xs \<Longrightarrow> map (\<lambda>(j, u). if j = i then (j, u\<lparr>due := n\<rparr>) else (j, u)) xs = xs"
  by (induction xs) (auto simp: rev_image_eqI)

lemma filter_other_retime:
  assumes "distinct (map fst xs)" "(i, t) \<in> set xs" "action t \<noteq> g"
  shows "filter (\<lambda>(_, u). action u = g) (map (\<lambda>(j, u). if j = i then (j, u\<lparr>due := n\<rparr>) else (j, u)) xs) =
         filter (\<lambda>(_, u). action u = g) xs"
  using assms
proof (induction xs)
  case Nil
  then show ?case by simp
next
  case (Cons x xs)
  then show ?case by (cases x) (auto simp: rev_image_eqI map_absent_key)
qed

lemma filter_absent_key:
  "i \<notin> fst ` set xs \<Longrightarrow> filter (\<lambda>(j, _). j \<noteq> i) xs = xs"
  by (induction xs) (auto simp: rev_image_eqI)

lemma filter_other_remove:
  assumes "distinct (map fst xs)" "(i, t) \<in> set xs" "action t \<noteq> g"
  shows "filter (\<lambda>(_, u). action u = g) (filter (\<lambda>(j, _). j \<noteq> i) xs) = filter (\<lambda>(_, u). action u = g) xs"
  using assms
proof (induction xs)
  case Nil
  then show ?case by simp
next
  case (Cons x xs)
  then show ?case by (cases x) (auto simp: rev_image_eqI filter_absent_key simp del: filter_filter)
qed

lemma fire_other:
  assumes "wf_world w" "fire_next w = Some (f, w')" "g \<noteq> f"
  shows "dues g w' = dues g w \<and> armed g w' = armed g w \<and> periods g w' = periods g w"
proof -
  obtain i t where it: "(i, t) \<in> set (timers w)" "action t = f" and w': "w' = after_fire i t w"
    using assms(2) by (auto elim: fire_nextE)
  have d: "distinct (map fst (timers w))" using assms(1) by (simp add: wf_world_def)
  have "filter (\<lambda>(_, u). action u = g) (timers w') = filter (\<lambda>(_, u). action u = g) (timers w)"
    using it assms(3) filter_other_remove [OF d it(1)] filter_other_retime [OF d it(1)]
    by (simp add: w' after_fire_def Let_def split: option.split del: filter_filter)
  then show ?thesis by (simp add: dues_def armed_def periods_def del: filter_filter)
qed

lemma fire_wf:
  assumes "wf_world w" "fire_next w = Some (f, w')"
  shows "wf_world w'"
proof -
  obtain i t where w': "w' = after_fire i t w"
    using assms(2) by (auto elim: fire_nextE)
  have d: "distinct (map fst (filter (\<lambda>(j, _). j \<noteq> i) (timers w)))"
    using assms(1) by (simp add: wf_world_def distinct_map_fst_filter del: filter_filter)
  have b: "set (map fst (filter (\<lambda>(j, _). j \<noteq> i) (timers w))) \<subseteq> set (map fst (timers w))"
    by (rule map_fst_filter_subset)
  from after_fire_ids [of i t w] show ?thesis
  proof
    assume e: "map fst (timers (after_fire i t w)) = map fst (timers w)"
    then have "distinct (map fst (timers w'))"
      using assms(1) by (simp add: w' wf_world_def)
    moreover have "fst ` set (timers w') = fst ` set (timers w)"
      using arg_cong [OF e, of set] by (simp add: w')
    ultimately show ?thesis using assms(1) by (simp add: w' wf_world_def)
  next
    assume e: "map fst (timers (after_fire i t w)) = map fst (filter (\<lambda>(j, _). j \<noteq> i) (timers w))"
    with d have "distinct (map fst (timers w'))" by (simp add: w')
    moreover have sub: "fst ` set (timers w') \<subseteq> fst ` set (timers w)"
      using arg_cong [OF e, of set] b by (simp add: w')
    moreover have "\<forall>k \<in> fst ` set (timers w'). k < nextId w'"
    proof
      fix k assume "k \<in> fst ` set (timers w')"
      with sub have "k \<in> fst ` set (timers w)" by (rule subsetD)
      with assms(1) show "k < nextId w'" by (auto simp: w' wf_world_def)
    qed
    ultimately show ?thesis by (simp add: wf_world_def)
  qed
qed

lemma fire_fields:
  assumes "fire_next w = Some (f, w')"
  shows "pins w' = pins w \<and> State w' = State w \<and> IOEnabled w' = IOEnabled w \<and>
         pending w' = pending w \<and> nextId w' = nextId w \<and> clock w \<le> clock w'"
  using assms by (auto elim!: fire_nextE)

lemma periods_frame [simp]:
  "periods f (setFlag p b w) = periods f w" "periods f (portOn p w) = periods f w"
  "periods f (portOff p w) = periods f w" "periods f (portPWM p v c w) = periods f w"
  by (simp_all add: periods_def handler_defs)

lemma periods_setTimeout [simp]:
  "periods f (snd (setTimeout g d w)) = periods f w @ (if g = f then [None] else [])"
  and periods_setInterval [simp]:
  "periods f (snd (setInterval g d w)) = periods f w @ (if g = f then [Some (node_delay d)] else [])"
  by (simp_all add: periods_def timer_defs)

lemma periods_clearTimeout_sub: "set (periods f (clearTimeout h w)) \<subseteq> set (periods f w)"
  by (cases h) (auto simp: periods_def clearTimeout_def)

lemma dues_clearTimeout_sub: "set (dues f (clearTimeout h w)) \<subseteq> set (dues f w)"
  by (cases h) (auto simp: dues_def clearTimeout_def)

lemma dues_empty_iff: "dues f w = [] \<longleftrightarrow> armed f w = []"
  by (simp add: dues_def armed_def)

lemma after_fire_armed_oneshot:
  "period t = None \<Longrightarrow> armed g (after_fire i t w) = filter (\<lambda>j. j \<noteq> i) (armed g w)"
  by (simp add: after_fire_def Let_def armed_def filter_key_armed del: filter_filter)

lemma map_fst_filter_retime:
  "map fst (filter (\<lambda>(_, u). action u = g) (map (\<lambda>(j, u). if j = i then (j, u\<lparr>due := n\<rparr>) else (j, u)) xs)) =
   map fst (filter (\<lambda>(_, u). action u = g) xs)"
proof (induction xs)
  case Nil
  then show ?case by simp
next
  case (Cons x xs)
  then show ?case by (cases x) simp
qed

lemma after_fire_armed_interval:
  "period t = Some p \<Longrightarrow> armed g (after_fire i t w) = armed g w"
  by (simp add: after_fire_def Let_def armed_def map_fst_filter_retime)

lemma after_fire_periods_sub: "set (periods g (after_fire i t w)) \<subseteq> set (periods g w)"
  by (auto simp: after_fire_def Let_def periods_def split: option.splits if_splits)
     (force intro: rev_image_eqI)+

lemma after_fire_dues_sub:
  "period t = None \<Longrightarrow> set (dues g (after_fire i t w)) \<subseteq> set (dues g w)"
  by (auto simp: after_fire_def Let_def dues_def)

text \<open>Firing the only live timer of an interval closure moves its due time one period
  past the firing.\<close>

lemma after_fire_dues_retimed:
  assumes "set (armed f w) \<subseteq> {i}" "action t = f" "period t = Some p"
  shows "set (dues f (after_fire i t w)) \<subseteq> {max (clock w) (due t) + p}"
proof -
  have "due u = max (clock w) (due t) + p"
    if "(j, u) \<in> set (timers (after_fire i t w))" "action u = f" for j u
  proof -
    from that(1) assms(3) obtain u0 where u0: "(j, u0) \<in> set (timers w)"
      and u: "u = (if j = i then u0\<lparr>due := max (clock w) (due t) + p\<rparr> else u0)"
      by (auto simp: after_fire_def Let_def split: if_splits)
    show ?thesis
    proof (cases "j = i")
      case True
      with u show ?thesis by simp
    next
      case False
      with u that(2) u0 have "j \<in> set (armed f w)" by (force simp: armed_def)
      with assms(1) False show ?thesis by auto
    qed
  qed
  then show ?thesis by (auto simp: dues_def)
qed

lemma dues_frame [simp]:
  "dues f (setFlag p b w) = dues f w" "dues f (portOn p w) = dues f w"
  "dues f (portOff p w) = dues f w" "dues f (portPWM p v c w) = dues f w"
  by (simp_all add: dues_def)

lemma dues_setTimeout [simp]:
  "dues f (snd (setTimeout g d w)) = dues f w @ (if g = f then [clock w + node_delay d] else [])"
  and dues_setInterval [simp]:
  "dues f (snd (setInterval g d w)) = dues f w @ (if g = f then [clock w + node_delay d] else [])"
  by (simp_all add: dues_def timer_defs)

lemma length_dues: "length (dues f w) = length (armed f w)"
  by (simp add: dues_def armed_def)

lemma armed_fresh:
  "wf_world w \<Longrightarrow> nextId w \<notin> set (armed f w)"
  by (auto simp: wf_world_def armed_def)

lemma armed_distinct:
  "wf_world w \<Longrightarrow> distinct (armed f w)"
  by (simp add: wf_world_def armed_def distinct_map_fst_filter)

lemma wf_setTimeout [intro]: "wf_world w \<Longrightarrow> wf_world (snd (setTimeout f d w))"
  and wf_setInterval [intro]: "wf_world w \<Longrightarrow> wf_world (snd (setInterval f d w))"
  by (auto simp: wf_world_def timer_defs)

lemma wf_clearTimeout [intro]: "wf_world w \<Longrightarrow> wf_world (clearTimeout h w)"
  by (cases h) (auto simp: wf_world_def clearTimeout_def distinct_map_fst_filter)

lemma wf_frame [intro]:
  "wf_world w \<Longrightarrow> wf_world (setFlag p b w)" "wf_world w \<Longrightarrow> wf_world (portOn p w)"
  "wf_world w \<Longrightarrow> wf_world (portOff p w)" "wf_world w \<Longrightarrow> wf_world (portPWM p v c w)"
  by (simp_all add: wf_world_def)


subsection \<open>Handles that own their closure\<close>

lemma owns_None [simp]: "owns None f w"
  by (simp add: owns_def)

lemma owns_frame [simp]:
  "owns h f (setFlag p b w) = owns h f w" "owns h f (portOn p w) = owns h f w"
  "owns h f (portOff p w) = owns h f w" "owns h f (portPWM p v c w) = owns h f w"
  by (simp_all add: owns_def)

lemma owns_setTimeout [intro]: "owns h f w \<Longrightarrow> owns h f (snd (setTimeout g d w))"
  and owns_setInterval [intro]: "owns h f w \<Longrightarrow> owns h f (snd (setInterval g d w))"
  by (auto simp: owns_def)

lemma owns_fresh:
  "wf_world w \<Longrightarrow> owns (Some (nextId w)) f (snd (setTimeout f d w))"
  "wf_world w \<Longrightarrow> owns (Some (nextId w)) f (snd (setInterval f d w))"
  by (auto simp: owns_def dest: armed_fresh)

lemma owns_clearTimeout [intro]: "owns h f w \<Longrightarrow> owns h f (clearTimeout h' w)"
  by (cases h') (auto simp: owns_def)

lemma armed_clear_owned:
  "owns h f w \<Longrightarrow> g \<noteq> f \<Longrightarrow> armed g (clearTimeout h w) = armed g w"
  by (cases h) (auto simp: owns_def filter_id_conv)

lemma armed_clear_own_handle:
  "set (armed f w) \<subseteq> set_option h \<Longrightarrow> armed f (clearTimeout h w) = []"
  by (cases h) (auto simp: filter_empty_conv)

lemma filter_action_absent:
  "i \<notin> set (map fst (filter (\<lambda>(_, u). action u = g) xs)) \<Longrightarrow>
   filter (\<lambda>(_, u). action u = g) (filter (\<lambda>(j, _). j \<noteq> i) xs) = filter (\<lambda>(_, u). action u = g) xs"
proof (induction xs)
  case Nil
  then show ?case by simp
next
  case (Cons x xs)
  then show ?case by (cases x) (auto simp del: filter_filter split: if_splits)
qed

lemma dues_clear_owned:
  "owns h f w \<Longrightarrow> g \<noteq> f \<Longrightarrow> dues g (clearTimeout h w) = dues g w \<and> periods g (clearTimeout h w) = periods g w"
proof (cases h)
  case (Some i)
  assume "owns h f w" "g \<noteq> f"
  with Some have "i \<notin> set (armed g w)" by (auto simp: owns_def)
  then show ?thesis
    using Some by (simp add: dues_def periods_def armed_def clearTimeout_def filter_action_absent del: filter_filter)
qed (simp add: clearTimeout_def)

lemma after_fire_armed_sub: "set (armed g (after_fire i t w)) \<subseteq> set (armed g w)"
  by (cases "period t") (auto simp: after_fire_armed_oneshot after_fire_armed_interval)

lemma owns_after_fire [intro]: "owns h f w \<Longrightarrow> owns h f (after_fire i t w)"
  using after_fire_armed_sub by (fastforce simp: owns_def)

lemma advance_fields:
  "advance d w = Some w' \<Longrightarrow> timers w' = timers w \<and> nextId w' = nextId w \<and> pins w' = pins w \<and>
     State w' = State w \<and> IOEnabled w' = IOEnabled w \<and> pending w' = pending w \<and> clock w' = clock w + d"
  by (auto simp: advance_def split: if_splits)

lemma owns_advance: "advance d w = Some w' \<Longrightarrow> owns h f w \<Longrightarrow> owns h f w'"
  by (drule advance_fields) (simp add: owns_def armed_def)

end
