(* ===== verification/Sensors.thy ===== *)
theory Sensors
  imports Runtime
begin

text \<open>
  The motion sensors: \<open>SensorWatch\<close> (halloween.js, lines 136--162) turns the edge
  notifications of one input pin into the presence flag \<open>State[sensorName]\<close> and arms a
  one-shot timeout on a rising edge; \<open>SensorArray\<close> (lines 164--183) combines the three
  watches under \<open>IOEnabled\<close> and, when a watch's timeout fires, calls its callback if
  the combined presence holds. The watches' \<open>_stateTimeout\<close> handles are a map from the
  sensor port; the presence flags live in the shared \<open>State\<close> object of the world.
\<close>

type_synonym watches = "port \<Rightarrow> timer_id option"

definition sensors :: "port list" where
  "sensors = [Sensor1, Sensor2, Sensor3]"

text \<open>The watch callback's \<open>data\<close> argument: the pin value, or \<open>undefined\<close> (\<open>None\<close>)
  when \<open>onoff\<close> reports an error; \<open>if(data)\<close> tests its truthiness.\<close>

definition edge_active :: "nat option \<Rightarrow> bool" where
  "edge_active d = (case d of None \<Rightarrow> False | Some v \<Rightarrow> v \<noteq> 0)"

definition SensorWatch_watch :: "port \<Rightarrow> nat option \<Rightarrow> watches \<Rightarrow> world \<Rightarrow> watches \<times> world" where
  "SensorWatch_watch s d h w =
     (if edge_active d then
        (if \<not> flag (State w) s then
           (let w1 = clearTimeout (h s) (setFlag s True w);
                (i, w2) = setTimeout (SensorTimeout s) SENSOR_TIMEOUT w1
            in (h(s := Some i), w2))
         else (h, w))
      else (h(s := None), clearTimeout (h s) (setFlag s False w)))"

definition SensorWatch_getState :: "port \<Rightarrow> world \<Rightarrow> bool" where
  "SensorWatch_getState s w = flag (State w) s"

definition SensorArray_new :: watches where
  "SensorArray_new = (\<lambda>_. None)"

definition SensorArray_getState :: "world \<Rightarrow> bool" where
  "SensorArray_getState w =
     ((IOEnabled w IO_sensor1 \<and> SensorWatch_getState Sensor1 w) \<or>
      (IOEnabled w IO_sensor2 \<and> SensorWatch_getState Sensor2 w) \<or>
      (IOEnabled w IO_sensor3 \<and> SensorWatch_getState Sensor3 w))"

text \<open>A run of edge notifications on one sensor, in order.\<close>

fun watch_edges :: "port \<Rightarrow> nat option list \<Rightarrow> watches \<Rightarrow> world \<Rightarrow> watches \<times> world" where
  "watch_edges s [] h w = (h, w)"
| "watch_edges s (d # ds) h w = (case SensorWatch_watch s d h w of (h', w') \<Rightarrow> watch_edges s ds h' w')"

text \<open>The watch's invariant: the only live timeout of a sensor is the one its handle
  names, and a live timeout means the sensor is present.\<close>

definition watch_inv :: "port \<Rightarrow> watches \<Rightarrow> world \<Rightarrow> bool" where
  "watch_inv s h w \<longleftrightarrow>
     set (armed (SensorTimeout s) w) \<subseteq> set_option (h s) \<and>
     (armed (SensorTimeout s) w \<noteq> [] \<longrightarrow> flag (State w) s)"

declare SensorWatch_watch_def [handler_defs]

subsection \<open>Lemmas\<close>

lemma watch_cases:
  "SensorWatch_watch s d h w =
     (if edge_active d \<and> \<not> flag (State w) s then
        (h(s := Some (nextId (clearTimeout (h s) (setFlag s True w)))),
         snd (setTimeout (SensorTimeout s) SENSOR_TIMEOUT (clearTimeout (h s) (setFlag s True w))))
      else if edge_active d then (h, w)
      else (h(s := None), clearTimeout (h s) (setFlag s False w)))"
  by (simp add: SensorWatch_watch_def Let_def prod.case_eq_if)

lemma watch_wf [intro]: "wf_world w \<Longrightarrow> wf_world (snd (SensorWatch_watch s d h w))"
  by (auto simp: watch_cases)

lemma watch_other_flag [frame_simps]:
  "q \<noteq> s \<Longrightarrow> flag (State (snd (SensorWatch_watch s d h w))) q = flag (State w) q"
  by (simp add: watch_cases)

lemma watch_other_handle [frame_simps]:
  "q \<noteq> s \<Longrightarrow> fst (SensorWatch_watch s d h w) q = h q"
  by (simp add: watch_cases)

lemma watch_other_armed [frame_simps]:
  "f \<noteq> SensorTimeout s \<Longrightarrow> set (armed f (snd (SensorWatch_watch s d h w))) \<subseteq> set (armed f w)"
  by (auto simp: watch_cases split: option.split)

lemma watch_IOEnabled [simp]: "IOEnabled (snd (SensorWatch_watch s d h w)) = IOEnabled w"
  and watch_mode [simp]: "mode (State (snd (SensorWatch_watch s d h w))) = mode (State w)"
  and watch_clock [simp]: "clock (snd (SensorWatch_watch s d h w)) = clock w"
  and watch_pins [simp]: "pins (snd (SensorWatch_watch s d h w)) = pins w"
  and watch_pending [simp]: "pending (snd (SensorWatch_watch s d h w)) = pending w"
  by (simp_all add: watch_cases)

lemma watch_inv_step:
  assumes "wf_world w" "watch_inv s h w"
  shows "watch_inv s (fst (SensorWatch_watch s d h w)) (snd (SensorWatch_watch s d h w))"
proof -
  have sub: "set (armed (SensorTimeout s) w) \<subseteq> set_option (h s)"
    using assms(2) by (simp add: watch_inv_def)
  then have gone: "armed (SensorTimeout s) (clearTimeout (h s) w') = []"
    if "armed (SensorTimeout s) w' = armed (SensorTimeout s) w" for w'
    using that by (cases "h s") (auto simp: filter_empty_conv)
  show ?thesis
    using assms gone [of "setFlag s True w"] gone [of "setFlag s False w"]
    by (auto simp: watch_cases watch_inv_def)
qed

subsection \<open>Properties of the sensor watch\<close>

text \<open>C6: After any non-empty run of edges, the sensor's presence flag is the
  truthiness of the last edge of the run.\<close>

theorem watch_edges_presence:
  "ds \<noteq> [] \<Longrightarrow> flag (State (snd (watch_edges s ds h w))) s = edge_active (last ds)"
proof (induction ds arbitrary: h w)
  case Nil
  then show ?case by simp
next
  case (Cons d ds)
  show ?case
  proof (cases "ds = []")
    case True
    then show ?thesis by (simp add: watch_cases prod.case_eq_if)
  next
    case False
    with Cons.IH show ?thesis by (simp split: prod.split)
  qed
qed

text \<open>C7: Every edge keeps the world well formed and the watch invariant: the only
  live timeout of the sensor is the one its handle names, and it is live only while the
  sensor is present.\<close>

theorem watch_keeps_inv:
  assumes "wf_world w" "watch_inv s h w"
  shows "wf_world (snd (SensorWatch_watch s d h w)) \<and>
         watch_inv s (fst (SensorWatch_watch s d h w)) (snd (SensorWatch_watch s d h w))"
  using assms by (simp add: watch_wf watch_inv_step)

lemma watch_edges_inv:
  "wf_world w \<Longrightarrow> watch_inv s h w \<Longrightarrow>
     wf_world (snd (watch_edges s ds h w)) \<and> watch_inv s (fst (watch_edges s ds h w)) (snd (watch_edges s ds h w))"
proof (induction ds arbitrary: h w)
  case Nil
  then show ?case by simp
next
  case (Cons d ds)
  then show ?case
    using watch_wf watch_inv_step by (simp split: prod.split) (metis fst_conv snd_conv)
qed

lemma watch_inv_at_most_one:
  "wf_world w \<Longrightarrow> watch_inv s h w \<Longrightarrow> length (armed (SensorTimeout s) w) \<le> 1"
proof -
  assume "wf_world w" "watch_inv s h w"
  then have "distinct (armed (SensorTimeout s) w)" "set (armed (SensorTimeout s) w) \<subseteq> set_option (h s)"
    by (auto simp: armed_distinct watch_inv_def)
  then have "card (set (armed (SensorTimeout s) w)) \<le> 1"
    by (cases "h s") (auto dest: card_mono [rotated])
  with \<open>distinct _\<close> show ?thesis by (simp add: distinct_card)
qed

text \<open>C8: A rising edge arms exactly one one-shot timeout, due \<open>SENSOR_TIMEOUT\<close>
  after the edge, and records it in the handle.\<close>

theorem watch_rising_edge_arms:
  assumes "wf_world w" "watch_inv s h w" "edge_active d" "\<not> flag (State w) s"
  shows "armed (SensorTimeout s) (snd (SensorWatch_watch s d h w)) = [nextId w] \<and>
         fst (SensorWatch_watch s d h w) s = Some (nextId w) \<and>
         map_of (timers (snd (SensorWatch_watch s d h w))) (nextId w) =
           Some \<lparr>due = clock w + SENSOR_TIMEOUT, period = None, action = SensorTimeout s\<rparr>"
proof -
  from assms(2,4) have "armed (SensorTimeout s) w = []"
    by (simp add: watch_inv_def)
  moreover have "wf_world (clearTimeout (h s) (setFlag s True w))"
    using assms(1) by blast
  ultimately show ?thesis
    using assms(3,4) map_of_setTimeout [of "clearTimeout (h s) (setFlag s True w)"]
    by (simp add: watch_cases SENSOR_TIMEOUT_def split: option.split)
qed

text \<open>C10: While a sensor stays present, further active edges change nothing: the timeout is
  not re-armed, so the array's callback runs once per rising edge, \<open>SENSOR_TIMEOUT\<close>
  after it, and not again at later hold-window boundaries.\<close>

theorem watch_active_no_rearm:
  "edge_active d \<Longrightarrow> flag (State w) s \<Longrightarrow> SensorWatch_watch s d h w = (h, w)"
  by (simp add: watch_cases)

text \<open>C11: An inactive edge clears presence and cancels the pending timeout at once.\<close>

theorem watch_inactive_cancels:
  assumes "watch_inv s h w" "\<not> edge_active d"
  shows "armed (SensorTimeout s) (snd (SensorWatch_watch s d h w)) = [] \<and>
         \<not> flag (State (snd (SensorWatch_watch s d h w))) s \<and> fst (SensorWatch_watch s d h w) s = None"
  using assms by (cases "h s") (auto simp: watch_cases watch_inv_def filter_empty_conv)

subsection \<open>Witnesses\<close>

lemma watch_inv_new [simp]: "watch_inv s SensorArray_new world0"
  by (simp add: watch_inv_def armed_def)

lemma watch_edges_presence_witness:
  "flag (State (snd (watch_edges Sensor1 [Some 1, Some 0, Some 1] SensorArray_new world0))) Sensor1"
proof -
  have "[Some 1, Some 0, Some (1::nat)] \<noteq> []" by simp
  then have "flag (State (snd (watch_edges Sensor1 [Some 1, Some 0, Some 1] SensorArray_new world0))) Sensor1
             = edge_active (last [Some 1, Some 0, Some (1::nat)])"
    by (rule watch_edges_presence)
  then show ?thesis by (simp add: edge_active_def)
qed

lemma watch_keeps_inv_witness:
  "wf_world (snd (SensorWatch_watch Sensor2 (Some 1) SensorArray_new world0)) \<and>
   watch_inv Sensor2 (fst (SensorWatch_watch Sensor2 (Some 1) SensorArray_new world0))
     (snd (SensorWatch_watch Sensor2 (Some 1) SensorArray_new world0))"
  by (rule watch_keeps_inv) simp_all

lemma watch_rising_edge_arms_witness:
  "armed (SensorTimeout Sensor1) (snd (SensorWatch_watch Sensor1 (Some 1) SensorArray_new world0)) = [0] \<and>
   fst (SensorWatch_watch Sensor1 (Some 1) SensorArray_new world0) Sensor1 = Some 0 \<and>
   map_of (timers (snd (SensorWatch_watch Sensor1 (Some 1) SensorArray_new world0))) 0 =
     Some \<lparr>due = 5000, period = None, action = SensorTimeout Sensor1\<rparr>"
proof -
  have a: "edge_active (Some (1::nat))" by (simp add: edge_active_def)
  have b: "\<not> flag (State world0) Sensor1" by simp
  from watch_rising_edge_arms [OF wf_world0 watch_inv_new a b]
  show ?thesis by (simp add: SENSOR_TIMEOUT_def)
qed

lemma watch_active_no_rearm_witness:
  "SensorWatch_watch Sensor3 (Some 1) SensorArray_new (setFlag Sensor3 True world0) =
     (SensorArray_new, setFlag Sensor3 True world0)"
  by (rule watch_active_no_rearm) (simp_all add: edge_active_def)

lemma watch_inactive_cancels_witness:
  "armed (SensorTimeout Sensor1) (snd (SensorWatch_watch Sensor1 None SensorArray_new world0)) = [] \<and>
   \<not> flag (State (snd (SensorWatch_watch Sensor1 None SensorArray_new world0))) Sensor1 \<and>
   fst (SensorWatch_watch Sensor1 None SensorArray_new world0) Sensor1 = None"
  by (rule watch_inactive_cancels) (simp_all add: edge_active_def)

end
