(* ===== verification/Flasher.thy ===== *)
theory Flasher
  imports Runtime
begin

text \<open>
  The ambient strobe \<open>Flasher\<close> (halloween.js, lines 185--213). An interval timer runs
  \<open>flashOn\<close> every \<open>FLASH_INTERVAL\<close>; it lights the current flash channel and arms a
  one-shot \<open>flashOff\<close> \<open>FLASH_DURATION\<close> later, which switches it off and flips the
  channel between 1 and 2. The channel's port is looked up by the string
  \<open>'flashLight' + _curChannel\<close>, so a channel outside \<open>{1, 2}\<close> would throw. The
  theory proves that it never does, that \<open>start\<close> and \<open>stop\<close> keep exactly one or no
  interval live, and that, with the Node scheduler, the two flash lights are never on
  together: \<open>flash_inv\<close> is kept by every step of the strobe and by every step of the
  rest of the program that leaves the strobe's timers and pins alone.
\<close>

record flasher =
  f_interval :: "timer_id option"
  curChannel :: int

definition Flasher_new :: flasher where
  "Flasher_new = \<lparr>f_interval = None, curChannel = 1\<rparr>"

definition flash_port :: "int \<Rightarrow> port option" where
  "flash_port c = map_of Ports (''flashLight'' @ js_string_of_int c)"

definition flashOff :: "flasher \<Rightarrow> world \<Rightarrow> error + flasher \<times> world" where
  "flashOff fl w =
     (case flash_port (curChannel fl) of
        None \<Rightarrow> Inl TypeError
      | Some p \<Rightarrow> Inr (fl\<lparr>curChannel := 3 - curChannel fl\<rparr>, portOff p w))"

definition flashOn :: "flasher \<Rightarrow> world \<Rightarrow> error + flasher \<times> world" where
  "flashOn fl w =
     (case flash_port (curChannel fl) of
        None \<Rightarrow> Inl TypeError
      | Some p \<Rightarrow> Inr (fl, snd (setTimeout FlashOff FLASH_DURATION (portOn p w))))"

definition Flasher_stop :: "flasher \<Rightarrow> world \<Rightarrow> flasher \<times> world" where
  "Flasher_stop fl w =
     (case f_interval fl of
        None \<Rightarrow> (fl, w)
      | Some i \<Rightarrow> (fl\<lparr>f_interval := None\<rparr>, clearTimeout (Some i) w))"

definition Flasher_start :: "flasher \<Rightarrow> world \<Rightarrow> flasher \<times> world" where
  "Flasher_start fl w =
     (let (fl1, w1) = Flasher_stop fl w;
          (i, w2) = setInterval FlashOn FLASH_INTERVAL w1
      in (fl1\<lparr>f_interval := Some i\<rparr>, w2))"

text \<open>The strobe with the Node scheduler and nothing else: the events are the
  controller's calls of \<open>start\<close> and \<open>stop\<close>, the firing of the next timer, and time
  passing. A firing dispatches the strobe's two closures; an exception is \<open>Inl\<close>.
  \<open>None\<close> is an event that cannot happen (no timer to fire, or time passing over a
  due timer).\<close>

datatype strobe_event = StrobeStart | StrobeStop | StrobeFire | StrobeWait nat

definition strobe_dispatch :: "cb \<Rightarrow> flasher \<Rightarrow> world \<Rightarrow> error + flasher \<times> world" where
  "strobe_dispatch f fl w =
     (case f of FlashOn \<Rightarrow> flashOn fl w | FlashOff \<Rightarrow> flashOff fl w | _ \<Rightarrow> Inr (fl, w))"

fun strobe_step :: "flasher \<times> world \<Rightarrow> strobe_event \<Rightarrow> (error + flasher \<times> world) option" where
  "strobe_step (fl, w) StrobeStart = Some (Inr (Flasher_start fl w))"
| "strobe_step (fl, w) StrobeStop = Some (Inr (Flasher_stop fl w))"
| "strobe_step (fl, w) StrobeFire =
     (case fire_next w of None \<Rightarrow> None | Some (f, w') \<Rightarrow> Some (strobe_dispatch f fl w'))"
| "strobe_step (fl, w) (StrobeWait d) = map_option (\<lambda>w'. Inr (fl, w')) (advance d w)"

inductive strobe_reach :: "flasher \<times> world \<Rightarrow> bool" where
  strobe_init: "strobe_reach (Flasher_new, world0)"
| strobe_next: "strobe_reach s \<Longrightarrow> strobe_step s e = Some (Inr s') \<Longrightarrow> strobe_reach s'"

text \<open>The lamp of a valid channel.\<close>

definition flash_lamp :: "int \<Rightarrow> port" where
  "flash_lamp c = (if c = 1 then FlashLight1 else FlashLight2)"

text \<open>The strobe's invariant. The channel is 1 or 2; the only live \<open>flashOn\<close> interval
  is the one the handle names, and the handle names no other closure's timer; at most one
  \<open>flashOff\<close> is pending: with none, both lamps are off; with one, due within
  \<open>FLASH_DURATION\<close>, the current lamp is on, the other off, and every \<open>flashOn\<close> is
  due at least \<open>FLASH_INTERVAL - FLASH_DURATION\<close> after it.\<close>

definition flash_inv :: "flasher \<Rightarrow> world \<Rightarrow> bool" where
  "flash_inv fl w \<longleftrightarrow>
     curChannel fl \<in> {1, 2} \<and>
     set (armed FlashOn w) \<subseteq> set_option (f_interval fl) \<and> owns (f_interval fl) FlashOn w \<and>
     set (periods FlashOn w) \<subseteq> {Some FLASH_INTERVAL} \<and> set (periods FlashOff w) \<subseteq> {None} \<and>
     (case dues FlashOff w of
        [] \<Rightarrow> pins w FlashLight1 = Level 0 \<and> pins w FlashLight2 = Level 0
      | [d] \<Rightarrow> d \<le> clock w + FLASH_DURATION \<and>
              (\<forall>e \<in> set (dues FlashOn w). d + (FLASH_INTERVAL - FLASH_DURATION) \<le> e) \<and>
              pins w (flash_lamp (curChannel fl)) = Level 1 \<and>
              pins w (flash_lamp (3 - curChannel fl)) = Level 0
      | _ \<Rightarrow> False)"

text \<open>The strobe as the specification describes it (spec, section 2: a two-channel
  alternating flash): a phase, the current channel and whether it is lit; each flash event
  lights the dark current channel, or puts out the lit one and moves to the other channel.
  \<open>strobe_abs\<close> reads the phase off the object and the scheduler: the channel is
  \<open>_curChannel\<close>, and the channel is lit while its \<open>flashOff\<close> timeout is pending.\<close>

definition strobe_spec_fire :: "int \<times> bool \<Rightarrow> int \<times> bool" where
  "strobe_spec_fire ph = (if snd ph then (3 - fst ph, False) else (fst ph, True))"

definition strobe_abs :: "flasher \<Rightarrow> world \<Rightarrow> int \<times> bool" where
  "strobe_abs fl w = (curChannel fl, dues FlashOff w \<noteq> [])"

subsection \<open>The channel lookup\<close>

lemma flash_port_12 [simp]: "flash_port 1 = Some FlashLight1" "flash_port 2 = Some FlashLight2"
  by (simp_all add: flash_port_def Ports_def js_string_of_int_def digit_chars_def)

lemma flash_port_Some: "flash_port c = Some p \<Longrightarrow> c \<in> {1, 2}"
proof -
  assume "flash_port c = Some p"
  then have "''flashLight'' @ js_string_of_int c \<in> set (map fst Ports)"
    unfolding flash_port_def by (metis map_of_eq_None_iff option.distinct(1) list.set_map)
  then have "js_string_of_int c = [digit_chars ! 1] \<or> js_string_of_int c = [digit_chars ! 2]"
    by (auto simp: Ports_def digit_chars_def)
  then show ?thesis by (auto dest!: js_string_single_digit)
qed

lemma flash_port_lamp: "c \<in> {1, 2} \<Longrightarrow> flash_port c = Some (flash_lamp c)"
  by (auto simp: flash_lamp_def)

lemma flash_lamp_other: "c \<in> {1, 2} \<Longrightarrow> flash_lamp (3 - c) \<noteq> flash_lamp c"
  by (auto simp: flash_lamp_def)

lemma flash_lamps: "c \<in> {1, 2} \<Longrightarrow> {flash_lamp c, flash_lamp (3 - c)} = {FlashLight1, FlashLight2}"
  by (auto simp: flash_lamp_def)

subsection \<open>Start and stop\<close>

lemma stop_eq: "Flasher_stop fl w = (fl\<lparr>f_interval := None\<rparr>, clearTimeout (f_interval fl) w)"
  by (cases "f_interval fl") (simp_all add: Flasher_stop_def clearTimeout_def)

lemma start_eq:
  "Flasher_start fl w =
     (fl\<lparr>f_interval := Some (nextId w)\<rparr>, snd (setInterval FlashOn FLASH_INTERVAL (clearTimeout (f_interval fl) w)))"
  by (simp add: Flasher_start_def stop_eq Let_def prod.case_eq_if)

subsection \<open>Every step keeps the invariant\<close>

lemma flash_inv_start:
  assumes "wf_world w" "flash_inv fl w"
  shows "flash_inv (fst (Flasher_start fl w)) (snd (Flasher_start fl w))"
proof -
  let ?w1 = "clearTimeout (f_interval fl) w"
  have c: "curChannel fl \<in> {1, 2}" and sub: "set (armed FlashOn w) \<subseteq> set_option (f_interval fl)"
    and own: "owns (f_interval fl) FlashOn w" and pon: "set (periods FlashOn w) \<subseteq> {Some FLASH_INTERVAL}"
    and poff: "set (periods FlashOff w) \<subseteq> {None}"
    and lamps: "case dues FlashOff w of
        [] \<Rightarrow> pins w FlashLight1 = Level 0 \<and> pins w FlashLight2 = Level 0
      | [d] \<Rightarrow> d \<le> clock w + FLASH_DURATION \<and>
              (\<forall>e \<in> set (dues FlashOn w). d + (FLASH_INTERVAL - FLASH_DURATION) \<le> e) \<and>
              pins w (flash_lamp (curChannel fl)) = Level 1 \<and>
              pins w (flash_lamp (3 - curChannel fl)) = Level 0
      | _ \<Rightarrow> False"
    using assms(2) by (simp_all add: flash_inv_def)
  have on1: "armed FlashOn ?w1 = []" using sub by (rule armed_clear_own_handle)
  have off1: "dues FlashOff ?w1 = dues FlashOff w" "periods FlashOff ?w1 = periods FlashOff w"
    using dues_clear_owned [OF own, of FlashOff] by simp_all
  have wf1: "wf_world ?w1" using assms(1) by blast
  have own2: "owns (Some (nextId w)) FlashOn (snd (setInterval FlashOn FLASH_INTERVAL ?w1))"
    using owns_fresh(2) [OF wf1] by simp
  have "dues FlashOn ?w1 = []" using on1 by (simp add: dues_empty_iff)
  moreover have "periods FlashOn ?w1 = []" using on1 by (simp add: periods_def armed_def)
  ultimately show ?thesis
    using c own2 on1 off1 poff lamps
    by (auto simp: flash_inv_def start_eq FLASH_INTERVAL_def FLASH_DURATION_def split: list.splits)
qed

lemma flash_inv_stop:
  assumes "flash_inv fl w"
  shows "flash_inv (fst (Flasher_stop fl w)) (snd (Flasher_stop fl w)) \<and>
         armed FlashOn (snd (Flasher_stop fl w)) = []"
proof -
  have sub: "set (armed FlashOn w) \<subseteq> set_option (f_interval fl)"
    and own: "owns (f_interval fl) FlashOn w"
    using assms by (simp_all add: flash_inv_def)
  let ?w1 = "clearTimeout (f_interval fl) w"
  have on1: "armed FlashOn ?w1 = []" using sub by (rule armed_clear_own_handle)
  have off1: "dues FlashOff ?w1 = dues FlashOff w" "periods FlashOff ?w1 = periods FlashOff w"
    using dues_clear_owned [OF own, of FlashOff] by simp_all
  have "dues FlashOn ?w1 = []" "periods FlashOn ?w1 = []"
    using on1 by (simp_all add: dues_empty_iff periods_def armed_def)
  then show ?thesis
    using assms on1 off1 by (auto simp: flash_inv_def stop_eq split: list.splits)
qed

lemma flash_inv_keep:
  assumes "flash_inv fl w"
    "dues FlashOn w' = dues FlashOn w" "armed FlashOn w' = armed FlashOn w" "periods FlashOn w' = periods FlashOn w"
    "dues FlashOff w' = dues FlashOff w" "periods FlashOff w' = periods FlashOff w"
    "pins w' = pins w" "clock w \<le> clock w'" "owns (f_interval fl) FlashOn w'"
  shows "flash_inv fl w'"
  using assms by (auto simp: flash_inv_def split: list.splits)

lemma flash_inv_fire_other:
  assumes "wf_world w" "flash_inv fl w" "fire_next w = Some (g, w')" "g \<noteq> FlashOn" "g \<noteq> FlashOff"
  shows "flash_inv fl w'"
proof -
  obtain i t where w': "w' = after_fire i t w"
    using assms(3) by (auto elim: fire_nextE)
  have own: "owns (f_interval fl) FlashOn w'"
    using assms(2) unfolding w' flash_inv_def by (intro owns_after_fire) simp
  have on: "dues FlashOn w' = dues FlashOn w \<and> armed FlashOn w' = armed FlashOn w \<and> periods FlashOn w' = periods FlashOn w"
    using fire_other [OF assms(1,3) not_sym [OF assms(4)]] .
  have off: "dues FlashOff w' = dues FlashOff w \<and> armed FlashOff w' = armed FlashOff w \<and> periods FlashOff w' = periods FlashOff w"
    using fire_other [OF assms(1,3) not_sym [OF assms(5)]] .
  have fr: "pins w' = pins w \<and> clock w \<le> clock w'"
    using fire_fields [OF assms(3)] by simp
  show ?thesis
    by (rule flash_inv_keep [OF assms(2)]) (use on off fr own in simp_all)
qed

lemma flash_inv_advance:
  assumes "advance d w = Some w'" "flash_inv fl w"
  shows "flash_inv fl w'"
proof -
  have t: "timers w' = timers w" "pins w' = pins w" "clock w' = clock w + d"
    using advance_fields [OF assms(1)] by simp_all
  have eqs: "dues f w' = dues f w" "armed f w' = armed f w" "periods f w' = periods f w" for f
    using t(1) by (simp_all add: dues_def armed_def periods_def)
  have own: "owns (f_interval fl) FlashOn w'"
    using assms(2) owns_advance [OF assms(1)] by (simp add: flash_inv_def)
  show ?thesis
    by (rule flash_inv_keep [OF assms(2)]) (use eqs own t in simp_all)
qed

lemma dues_mem_timer: "d \<in> set (dues f w) \<Longrightarrow> \<exists>x \<in> set (timers w). due (snd x) = d"
  by (auto simp: dues_def)

lemma flash_fire_on:
  assumes wf: "wf_world w" and inv: "flash_inv fl w" and fire: "fire_next w = Some (FlashOn, w')"
  shows "\<exists>w''. flashOn fl w' = Inr (fl, w'') \<and> flash_inv fl w'' \<and> dues FlashOff w = [] \<and> dues FlashOff w'' \<noteq> []"
proof -
  obtain i t where it: "(i, t) \<in> set (timers w)" "action t = FlashOn"
    and min: "\<forall>x \<in> set (timers w). due t \<le> due (snd x)" and w': "w' = after_fire i t w"
    using fire by (auto elim: fire_nextE)
  have c: "curChannel fl \<in> {1, 2}" and sub: "set (armed FlashOn w) \<subseteq> set_option (f_interval fl)"
    and own: "owns (f_interval fl) FlashOn w" and pon: "set (periods FlashOn w) \<subseteq> {Some FLASH_INTERVAL}"
    and poff: "set (periods FlashOff w) \<subseteq> {None}"
    using inv by (simp_all add: flash_inv_def)
  have "i \<in> set (armed FlashOn w)" using it by (force simp: armed_def)
  with sub have hi: "f_interval fl = Some i" by auto
  with sub have subi: "set (armed FlashOn w) \<subseteq> {i}" by simp
  have "period t \<in> set (periods FlashOn w)" using it by (force simp: periods_def)
  with pon have pt: "period t = Some FLASH_INTERVAL" by auto
  have et: "due t \<in> set (dues FlashOn w)" using it by (force simp: dues_def)
  have noff: "dues FlashOff w = []"
  proof (cases "dues FlashOff w")
    case (Cons d ds)
    with inv have ds: "ds = []" and gap: "d + (FLASH_INTERVAL - FLASH_DURATION) \<le> due t"
      using et by (auto simp: flash_inv_def split: list.splits)
    from Cons dues_mem_timer [of d FlashOff w] obtain x where "x \<in> set (timers w)" "due (snd x) = d"
      by auto
    with min have "due t \<le> d" by auto
    with gap show ?thesis by (simp add: FLASH_INTERVAL_def FLASH_DURATION_def)
  qed
  with inv have off: "pins w FlashLight1 = Level 0" "pins w FlashLight2 = Level 0"
    by (simp_all add: flash_inv_def)
  have f1: "dues FlashOff w' = []" "periods FlashOff w' = periods FlashOff w"
    using fire_other [OF wf fire, of FlashOff] noff by simp_all
  have f2: "set (dues FlashOn w') \<subseteq> {clock w' + FLASH_INTERVAL}"
    using after_fire_dues_retimed [OF subi it(2) pt] by (simp add: w')
  have f3: "armed FlashOn w' = armed FlashOn w" "set (periods FlashOn w') \<subseteq> set (periods FlashOn w)"
    using after_fire_armed_interval [OF pt] after_fire_periods_sub by (simp_all add: w')
  have f4: "owns (f_interval fl) FlashOn w'" "pins w' = pins w" "wf_world w'"
    using own fire_wf [OF wf fire] by (auto simp: w')
  let ?w'' = "snd (setTimeout FlashOff FLASH_DURATION (portOn (flash_lamp (curChannel fl)) w'))"
  have on: "flashOn fl w' = Inr (fl, ?w'')"
    using c by (simp add: flashOn_def flash_port_lamp)
  have g1: "dues FlashOff ?w'' = [clock w' + FLASH_DURATION]" "clock ?w'' = clock w'"
    "set (periods FlashOff ?w'') \<subseteq> {None}"
    using f1 poff by (simp_all add: FLASH_DURATION_def)
  have g2: "set (dues FlashOn ?w'') \<subseteq> {clock w' + FLASH_INTERVAL}" "armed FlashOn ?w'' = armed FlashOn w"
    "set (periods FlashOn ?w'') \<subseteq> {Some FLASH_INTERVAL}" "owns (f_interval fl) FlashOn ?w''"
    using f2 f3 f4 pon by auto
  have g3: "pins ?w'' (flash_lamp (curChannel fl)) = Level 1"
    "pins ?w'' (flash_lamp (3 - curChannel fl)) = Level 0"
  proof -
    from c have "curChannel fl = 1 \<or> curChannel fl = 2" by simp
    then show "pins ?w'' (flash_lamp (curChannel fl)) = Level 1"
      "pins ?w'' (flash_lamp (3 - curChannel fl)) = Level 0"
      using off f4 by (auto simp: flash_lamp_def)
  qed
  have inv'': "flash_inv fl ?w''"
    unfolding flash_inv_def
  proof (intro conjI)
    show "case dues FlashOff ?w'' of
        [] \<Rightarrow> pins ?w'' FlashLight1 = Level 0 \<and> pins ?w'' FlashLight2 = Level 0
      | [d] \<Rightarrow> d \<le> clock ?w'' + FLASH_DURATION \<and>
              (\<forall>e \<in> set (dues FlashOn ?w''). d + (FLASH_INTERVAL - FLASH_DURATION) \<le> e) \<and>
              pins ?w'' (flash_lamp (curChannel fl)) = Level 1 \<and>
              pins ?w'' (flash_lamp (3 - curChannel fl)) = Level 0
      | _ \<Rightarrow> False"
      using g1 g2(1) g3 by (auto simp: FLASH_INTERVAL_def FLASH_DURATION_def)
  qed (use c sub g1 g2 in auto)
  with on noff g1(1) show ?thesis by auto
qed

lemma flash_fire_off:
  assumes wf: "wf_world w" and inv: "flash_inv fl w" and fire: "fire_next w = Some (FlashOff, w')"
  shows "\<exists>w''. flashOff fl w' = Inr (fl\<lparr>curChannel := 3 - curChannel fl\<rparr>, w'') \<and>
               flash_inv (fl\<lparr>curChannel := 3 - curChannel fl\<rparr>) w'' \<and>
               dues FlashOff w \<noteq> [] \<and> dues FlashOff w'' = []"
proof -
  obtain i t where it: "(i, t) \<in> set (timers w)" "action t = FlashOff" and w': "w' = after_fire i t w"
    using fire by (auto elim: fire_nextE)
  have c: "curChannel fl \<in> {1, 2}" and sub: "set (armed FlashOn w) \<subseteq> set_option (f_interval fl)"
    and own: "owns (f_interval fl) FlashOn w" and pon: "set (periods FlashOn w) \<subseteq> {Some FLASH_INTERVAL}"
    and poff: "set (periods FlashOff w) \<subseteq> {None}"
    using inv by (simp_all add: flash_inv_def)
  have ia: "i \<in> set (armed FlashOff w)" using it by (force simp: armed_def)
  have "period t \<in> set (periods FlashOff w)" using it by (force simp: periods_def)
  with poff have pt: "period t = None" by auto
  obtain d where d: "dues FlashOff w = [d]"
    using inv ia by (cases "dues FlashOff w" rule: remdups_adj.cases)
      (auto simp: flash_inv_def dues_empty_iff)
  then have "length (armed FlashOff w) = 1" by (simp flip: length_dues)
  with ia have ai: "armed FlashOff w = [i]"
    by (cases "armed FlashOff w" rule: remdups_adj.cases) auto
  from d inv have lit: "pins w (flash_lamp (curChannel fl)) = Level 1"
    "pins w (flash_lamp (3 - curChannel fl)) = Level 0"
    by (simp_all add: flash_inv_def)
  have "armed FlashOff w' = []" using after_fire_armed_oneshot [OF pt] ai by (simp add: w')
  then have f1: "dues FlashOff w' = []" "periods FlashOff w' = []"
    by (simp_all add: dues_empty_iff periods_def armed_def)
  have f2: "dues FlashOn w' = dues FlashOn w" "armed FlashOn w' = armed FlashOn w"
    "periods FlashOn w' = periods FlashOn w"
    using fire_other [OF wf fire, of FlashOn] by simp_all
  have f4: "owns (f_interval fl) FlashOn w'" "pins w' = pins w"
    using own by (auto simp: w')
  let ?w'' = "portOff (flash_lamp (curChannel fl)) w'"
  have "flashOff fl w' = Inr (fl\<lparr>curChannel := 3 - curChannel fl\<rparr>, ?w'')"
    using c by (simp add: flashOff_def flash_port_lamp)
  moreover have "flash_inv (fl\<lparr>curChannel := 3 - curChannel fl\<rparr>) ?w''"
  proof -
    have g: "dues FlashOff ?w'' = []" "periods FlashOff ?w'' = []" "dues FlashOn ?w'' = dues FlashOn w"
      "armed FlashOn ?w'' = armed FlashOn w" "periods FlashOn ?w'' = periods FlashOn w"
      "owns (f_interval fl) FlashOn ?w''"
      using f1 f2 f4 by simp_all
    from c have "curChannel fl = 1 \<or> curChannel fl = 2" by simp
    then have "pins ?w'' FlashLight1 = Level 0 \<and> pins ?w'' FlashLight2 = Level 0"
      using lit f4 by (auto simp: flash_lamp_def)
    with g c sub pon show ?thesis by (auto simp: flash_inv_def)
  qed
  ultimately show ?thesis using d f1 by simp
qed


lemma flash_inv_new: "flash_inv Flasher_new world0"
  by (simp add: flash_inv_def Flasher_new_def armed_def periods_def dues_def world0_defs portOff_def)

lemma flash_handlers_wf:
  "wf_world w \<Longrightarrow> flashOn fl w = Inr (fl', w') \<Longrightarrow> wf_world w'"
  "wf_world w \<Longrightarrow> flashOff fl w = Inr (fl', w') \<Longrightarrow> wf_world w'"
  by (auto simp: flashOn_def flashOff_def split: option.splits)

text \<open>One step of the strobe keeps the invariant and never throws.\<close>

lemma strobe_step_inv:
  assumes "wf_world w" "flash_inv fl w" "strobe_step (fl, w) e = Some r"
  shows "\<exists>fl' w'. r = Inr (fl', w') \<and> wf_world w' \<and> flash_inv fl' w'"
proof (cases e)
  case StrobeStart
  then show ?thesis using assms flash_inv_start [OF assms(1,2)]
    by (auto simp: start_eq)
next
  case StrobeStop
  then show ?thesis using assms flash_inv_stop [OF assms(2)]
    by (auto simp: stop_eq)
next
  case (StrobeWait d)
  then obtain w' where a: "advance d w = Some w'" "r = Inr (fl, w')"
    using assms(3) by auto
  have "wf_world w'" using assms(1) advance_fields [OF a(1)] by (simp add: wf_world_def)
  with a flash_inv_advance [OF a(1) assms(2)] show ?thesis by simp
next
  case StrobeFire
  then obtain f w' where fw: "fire_next w = Some (f, w')" "r = strobe_dispatch f fl w'"
    using assms(3) by (auto split: option.splits)
  have wf': "wf_world w'" using fire_wf [OF assms(1) fw(1)] .
  show ?thesis
  proof (cases "f = FlashOn")
    case True
    with flash_fire_on [OF assms(1,2)] fw wf' flash_handlers_wf(1) [OF wf'] show ?thesis
      by (auto simp: strobe_dispatch_def)
  next
    case n1: False
    show ?thesis
    proof (cases "f = FlashOff")
      case True
      with flash_fire_off [OF assms(1,2)] fw wf' flash_handlers_wf(2) [OF wf'] show ?thesis
        by (auto simp: strobe_dispatch_def)
    next
      case False
      with n1 flash_inv_fire_other [OF assms(1,2) fw(1)] fw wf' show ?thesis
        by (cases f) (simp_all add: strobe_dispatch_def)
    qed
  qed
qed

lemma strobe_reach_inv_wf: "strobe_reach s \<Longrightarrow> wf_world (snd s) \<and> flash_inv (fst s) (snd s)"
proof (induction rule: strobe_reach.induct)
  case strobe_init
  show ?case by (simp add: flash_inv_new)
next
  case (strobe_next s e s')
  then show ?case
    using strobe_step_inv [of "snd s" "fst s" e "Inr s'"] by (cases s) auto
qed

subsection \<open>Properties of the strobe\<close>

text \<open>C15: The strobe's channel lookup throws exactly when the channel is not 1 or 2:
  \<open>'flashLight' + _curChannel\<close> names a port of the table for no other number.\<close>

theorem flashOn_error_iff:
  "(flashOn fl w = Inl TypeError) \<longleftrightarrow> curChannel fl \<notin> {1, 2}"
proof
  assume "flashOn fl w = Inl TypeError"
  then have "flash_port (curChannel fl) = None" by (auto simp: flashOn_def split: option.splits)
  then show "curChannel fl \<notin> {1, 2}" by auto
next
  assume "curChannel fl \<notin> {1, 2}"
  then have "flash_port (curChannel fl) = None" using flash_port_Some by (cases "flash_port (curChannel fl)") blast+
  then show "flashOn fl w = Inl TypeError" by (simp add: flashOn_def)
qed

text \<open>Every state the strobe reaches satisfies the invariant, and no event from it
  throws: the channel stays 1 or 2.\<close>

theorem strobe_reach_no_crash:
  assumes "strobe_reach (fl, w)"
  shows "flash_inv fl w \<and> strobe_step (fl, w) e \<noteq> Some (Inl TypeError)"
proof -
  from strobe_reach_inv_wf [OF assms] have "wf_world w" "flash_inv fl w" by simp_all
  with strobe_step_inv [of w fl e] show ?thesis by (cases "strobe_step (fl, w) e") auto
qed

text \<open>C12: The two flash lights are never on together: in every reachable state of the
  strobe at least one of them is at its off level.\<close>

theorem strobe_never_both_lit:
  assumes "strobe_reach (fl, w)"
  shows "pins w FlashLight1 = Level 0 \<or> pins w FlashLight2 = Level 0"
proof -
  from strobe_reach_inv_wf [OF assms] have inv: "flash_inv fl w" by simp
  then have c: "curChannel fl = 1 \<or> curChannel fl = 2" by (simp add: flash_inv_def)
  show ?thesis
  proof (cases "dues FlashOff w")
    case Nil
    with inv show ?thesis by (simp add: flash_inv_def)
  next
    case (Cons d ds)
    with inv have "pins w (flash_lamp (3 - curChannel fl)) = Level 0"
      by (auto simp: flash_inv_def split: list.splits)
    with c show ?thesis by (auto simp: flash_lamp_def)
  qed
qed

text \<open>C13: \<open>start\<close> leaves exactly one \<open>flashOn\<close> interval live, the one it records, due
  one \<open>FLASH_INTERVAL\<close> later, whatever was live before (a restart never doubles the
  strobe).\<close>

theorem start_single_interval:
  assumes "wf_world w" "flash_inv fl w"
  shows "armed FlashOn (snd (Flasher_start fl w)) = [nextId w] \<and>
         f_interval (fst (Flasher_start fl w)) = Some (nextId w) \<and>
         dues FlashOn (snd (Flasher_start fl w)) = [clock w + FLASH_INTERVAL]"
proof -
  have sub: "set (armed FlashOn w) \<subseteq> set_option (f_interval fl)" using assms(2) by (simp add: flash_inv_def)
  then have "armed FlashOn (clearTimeout (f_interval fl) w) = []" by (rule armed_clear_own_handle)
  then have "dues FlashOn (clearTimeout (f_interval fl) w) = []" by (simp add: dues_empty_iff)
  with \<open>armed FlashOn _ = []\<close> show ?thesis by (simp add: start_eq FLASH_INTERVAL_def)
qed

text \<open>C14: \<open>stop\<close> cancels the interval at once but leaves a pending \<open>flashOff\<close> alone,
  so a lamp lit when the strobe stops is still switched off \<open>FLASH_DURATION\<close> after it
  was lit.\<close>

theorem stop_keeps_pending_off:
  assumes "flash_inv fl w"
  shows "armed FlashOn (snd (Flasher_stop fl w)) = [] \<and>
         dues FlashOff (snd (Flasher_stop fl w)) = dues FlashOff w \<and>
         flash_inv (fst (Flasher_stop fl w)) (snd (Flasher_stop fl w))"
proof -
  have own: "owns (f_interval fl) FlashOn w" using assms by (simp add: flash_inv_def)
  show ?thesis
    using flash_inv_stop [OF assms] dues_clear_owned [OF own, of FlashOff] by (simp add: stop_eq)
qed

subsection \<open>Witnesses\<close>

text \<open>C5: Refinement of the specification's strobe: in every reachable state, when one of
  the strobe's closures fires, its handler does not throw and moves the abstract phase by
  exactly one step of the specified alternation; in particular \<open>flashOn\<close> never fires
  while a flash is lit, and the channel only changes when the lit one goes out.\<close>

theorem strobe_refines_spec:
  assumes "strobe_reach (fl, w)" "fire_next w = Some (f, w')" "f \<in> {FlashOn, FlashOff}"
  shows "\<exists>fl'' w''. strobe_dispatch f fl w' = Inr (fl'', w'') \<and>
           strobe_abs fl'' w'' = strobe_spec_fire (strobe_abs fl w)"
proof -
  from strobe_reach_inv_wf [OF assms(1)] have wf: "wf_world w" and inv: "flash_inv fl w" by simp_all
  show ?thesis
  proof (cases "f = FlashOn")
    case True
    with flash_fire_on [OF wf inv] assms(2) show ?thesis
      by (auto simp: strobe_dispatch_def strobe_abs_def strobe_spec_fire_def)
  next
    case False
    with assms(3) have "f = FlashOff" by simp
    with flash_fire_off [OF wf inv] assms(2) show ?thesis
      by (auto simp: strobe_dispatch_def strobe_abs_def strobe_spec_fire_def)
  qed
qed

lemma strobe_reach_started: "strobe_reach (Flasher_start Flasher_new world0)"
  by (rule strobe_next [OF strobe_init, of StrobeStart]) simp

lemma strobe_reach_lit:
  "\<exists>s. strobe_reach s \<and> pins (snd s) FlashLight1 = Level 1 \<and> dues FlashOff (snd s) = [2500]"
proof -
  obtain s where s: "strobe_step (Flasher_start Flasher_new world0) StrobeFire = Some (Inr s)"
    "pins (snd s) FlashLight1 = Level 1" "dues FlashOff (snd s) = [2500]"
    by (simp add: start_eq Flasher_new_def fire_next_def next_timer_def after_fire_def dues_def
        flashOn_def setInterval_def setTimeout_def clearTimeout_def node_delay_def
        FLASH_INTERVAL_def FLASH_DURATION_def strobe_dispatch_def)
  have "strobe_reach s"
    using strobe_reach_started s(1) by (rule strobe_next)
  with s show ?thesis by blast
qed

lemma strobe_reach_no_crash_witness:
  "flash_inv (fst (Flasher_start Flasher_new world0)) (snd (Flasher_start Flasher_new world0)) \<and>
   strobe_step (Flasher_start Flasher_new world0) StrobeFire \<noteq> Some (Inl TypeError)"
proof -
  have "strobe_reach (fst (Flasher_start Flasher_new world0), snd (Flasher_start Flasher_new world0))"
    using strobe_reach_started by simp
  from strobe_reach_no_crash [OF this, of StrobeFire] show ?thesis by simp
qed

lemma strobe_never_both_lit_witness:
  "\<exists>s. strobe_reach s \<and> pins (snd s) FlashLight1 = Level 1 \<and>
       (pins (snd s) FlashLight1 = Level 0 \<or> pins (snd s) FlashLight2 = Level 0)"
proof -
  obtain s where s: "strobe_reach s" "pins (snd s) FlashLight1 = Level 1"
    using strobe_reach_lit by blast
  then have "strobe_reach (fst s, snd s)" by simp
  from strobe_never_both_lit [OF this] s show ?thesis by blast
qed

lemma start_single_interval_witness:
  "armed FlashOn (snd (Flasher_start Flasher_new world0)) = [0] \<and>
   f_interval (fst (Flasher_start Flasher_new world0)) = Some 0 \<and>
   dues FlashOn (snd (Flasher_start Flasher_new world0)) = [2000]"
  using start_single_interval [OF wf_world0 flash_inv_new] by (simp add: FLASH_INTERVAL_def)

lemma stop_keeps_pending_off_witness:
  "\<exists>s. strobe_reach s \<and> dues FlashOff (snd s) = [2500] \<and>
       armed FlashOn (snd (Flasher_stop (fst s) (snd s))) = [] \<and>
       dues FlashOff (snd (Flasher_stop (fst s) (snd s))) = [2500] \<and>
       flash_inv (fst (Flasher_stop (fst s) (snd s))) (snd (Flasher_stop (fst s) (snd s)))"
proof -
  obtain s where s: "strobe_reach s" "dues FlashOff (snd s) = [2500]"
    using strobe_reach_lit by blast
  from strobe_reach_inv_wf [OF s(1)] have "flash_inv (fst s) (snd s)" by simp
  from stop_keeps_pending_off [OF this] s show ?thesis by (intro exI [of _ s]) simp
qed

lemma strobe_refines_spec_witness:
  "\<exists>w' fl'' w''. fire_next (snd (Flasher_start Flasher_new world0)) = Some (FlashOn, w') \<and>
     strobe_dispatch FlashOn (fst (Flasher_start Flasher_new world0)) w' = Inr (fl'', w'') \<and>
     strobe_abs fl'' w'' = (1, True)"
proof -
  obtain w' where w': "fire_next (snd (Flasher_start Flasher_new world0)) = Some (FlashOn, w')"
    by (simp add: start_eq Flasher_new_def fire_next_def next_timer_def setInterval_def clearTimeout_def)
  have a: "strobe_abs (fst (Flasher_start Flasher_new world0)) (snd (Flasher_start Flasher_new world0)) = (1, False)"
    by (simp add: start_eq Flasher_new_def strobe_abs_def dues_def setInterval_def clearTimeout_def)
  have "strobe_reach (fst (Flasher_start Flasher_new world0), snd (Flasher_start Flasher_new world0))"
    using strobe_reach_started by simp
  from strobe_refines_spec [OF this w'] a w' show ?thesis by (auto simp: strobe_spec_fire_def)
qed

end
