(* ===== verification/Animator.thy ===== *)
theory Animator
  imports Runtime
begin

text \<open>
  The continuous-ramp animator \<open>SlowFlasherPigpio\<close> (halloween.js, lines 302--370) that
  drives the dog light and the two skull lights. One cycle ramps the channel up
  (\<open>runTransition\<close> arms an interval of \<open>TRANSITION_INTERVAL\<close>; every tick
  \<open>transitionStep\<close> writes a PWM duty proportional to the elapsed time), then
  \<open>endTansition\<close>, called back when the pigpio daemon has received the final
  \<open>p PIN 0\<close> command, switches the GPIO fully on or off, flips \<open>State[channelName]\<close>,
  clears the interval and arms \<open>runTransition\<close> again after \<open>timeOn\<close> or \<open>timeOff\<close>;
  after \<open>stop\<close> the cycle ends at the next off state. The theory models the object,
  its three instances, and the animator alone on the Node scheduler with the daemon's
  completions as events (\<open>anim_step\<close>, \<open>anim_reach\<close>). It proves the duty bounds and
  the monotone ramp, that one transition interval at most is ever live, the contract of
  \<open>stop\<close>, and that a completion slower than one tick makes \<open>endTansition\<close> run twice.
\<close>

section \<open>The object and its operations\<close>

text \<open>The constructor's arguments. \<open>stateCallback\<close> is not passed by any of the three
  instances (the dog's \<open>controlDogSound\<close> is commented out), so
  \<open>stateCallback && stateCallback()\<close> does nothing and is not modelled.\<close>

record anim_cfg =
  channelName :: port
  timeOn :: nat
  timeOff :: nat
  timeTransition :: nat

record anim =
  transitionStartTime :: time
  transitionInterval :: "timer_id option"
  stateTimeout :: "timer_id option"
  stopFlag :: bool

definition SlowFlasherPigpio_new :: anim where
  "SlowFlasherPigpio_new =
     \<lparr>transitionStartTime = 0, transitionInterval = None, stateTimeout = None, stopFlag = True\<rparr>"

text \<open>\<open>curtime()\<close>: the clock of the model, in milliseconds.\<close>

definition curtime :: "world \<Rightarrow> int" where
  "curtime w = int (clock w)"

text \<open>The completion callback of the last PWM command of a ramp. \<open>err\<close> is the write
  error \<open>sendPigpioCommand\<close> passes on; on an error nothing happens.\<close>

definition endTansition :: "anim_cfg \<Rightarrow> bool \<Rightarrow> anim \<Rightarrow> world \<Rightarrow> anim \<times> world" where
  "endTansition c err a w =
     (if err then (a, w) else
      let p = channelName c;
          w1 = (if \<not> flag (State w) p then setFlag p True (portOn p w)
                else setFlag p False (portOff p w));
          w2 = clearTimeout (transitionInterval a) w1;
          a2 = a\<lparr>transitionInterval := None\<rparr>
      in if \<not> stopFlag a2 \<or> flag (State w2) p
         then (let (h, w3) = setTimeout (SPRunTransition p)
                               (if flag (State w2) p then timeOn c else timeOff c) w2
               in (a2\<lparr>stateTimeout := Some h\<rparr>, w3))
         else (a2, w2))"

definition transitionStep :: "anim_cfg \<Rightarrow> anim \<Rightarrow> world \<Rightarrow> anim \<times> world" where
  "transitionStep c a w =
     (let p = channelName c;
          elapsed = curtime w - int (transitionStartTime a)
      in (a, if elapsed < int (timeTransition c)
             then (if \<not> flag (State w) p
                   then portPWM p (of_int elapsed / of_nat (timeTransition c)) False w
                   else portPWM p (1 - of_int elapsed / of_nat (timeTransition c)) False w)
             else portPWM p 0 True w))"

definition runTransition :: "anim_cfg \<Rightarrow> anim \<Rightarrow> world \<Rightarrow> anim \<times> world" where
  "runTransition c a w =
     (let a1 = a\<lparr>transitionStartTime := nat (curtime w)\<rparr>;
          w1 = (if transitionInterval a1 \<noteq> None then clearTimeout (transitionInterval a1) w else w);
          (h, w2) = setInterval (SPTransitionStep (channelName c)) TRANSITION_INTERVAL w1
      in (a1\<lparr>transitionInterval := Some h\<rparr>, w2))"

definition SlowFlasherPigpio_start :: "anim_cfg \<Rightarrow> anim \<Rightarrow> world \<Rightarrow> anim \<times> world" where
  "SlowFlasherPigpio_start c a w =
     (let p = channelName c;
          w1 = setFlag p False (portOff p w);
          (a2, w2) = (if stateTimeout a \<noteq> None
                      then (a\<lparr>stateTimeout := None\<rparr>, clearTimeout (stateTimeout a) w1)
                      else (a, w1))
      in runTransition c (a2\<lparr>stopFlag := False\<rparr>) w2)"

definition SlowFlasherPigpio_stop :: "anim_cfg \<Rightarrow> anim \<Rightarrow> world \<Rightarrow> anim \<times> world" where
  "SlowFlasherPigpio_stop c a w =
     (let (a1, w1) = (if stateTimeout a \<noteq> None \<and> \<not> flag (State w) (channelName c)
                      then (a\<lparr>stateTimeout := None\<rparr>, clearTimeout (stateTimeout a) w)
                      else (a, w))
      in (a1\<lparr>stopFlag := True\<rparr>, w1))"

text \<open>The three instances (lines 527--542).\<close>

definition skull1_cfg :: anim_cfg where
  "skull1_cfg = \<lparr>channelName = LightSkull1, timeOn = SKULL1_ON_DURATION,
                 timeOff = SKULL1_OFF_DURATION, timeTransition = SKULL1_TRANSITION\<rparr>"

definition skull2_cfg :: anim_cfg where
  "skull2_cfg = \<lparr>channelName = LightSkull2, timeOn = SKULL2_ON_DURATION,
                 timeOff = SKULL2_OFF_DURATION, timeTransition = SKULL2_TRANSITION\<rparr>"

definition dog_cfg :: anim_cfg where
  "dog_cfg = \<lparr>channelName = LightDog, timeOn = DOG_ON_DURATION,
              timeOff = DOG_OFF_DURATION, timeTransition = DOG_TRANSITION\<rparr>"

section \<open>Completions of pigpio commands\<close>

text \<open>\<open>sendPigpioCommand\<close> opens the daemon's pipe, writes, and then calls its callback
  (lines 111--127): the \<open>i\<close>-th command still in flight completes, in any order. It
  reports the port the command was for and whether it has a callback; the caller runs
  that port's completion callback if it has one.\<close>

definition pigpio_done :: "nat \<Rightarrow> world \<Rightarrow> ((port \<times> bool) \<times> world) option" where
  "pigpio_done i w =
     (if i < length (pending w)
      then Some (pending w ! i, w\<lparr>pending := take i (pending w) @ drop (Suc i) (pending w)\<rparr>)
      else None)"

section \<open>The animator on the scheduler\<close>

definition anim_dispatch :: "anim_cfg \<Rightarrow> cb \<Rightarrow> anim \<Rightarrow> world \<Rightarrow> anim \<times> world" where
  "anim_dispatch c f a w =
     (if f = SPTransitionStep (channelName c) then transitionStep c a w
      else if f = SPRunTransition (channelName c) then runTransition c a w
      else (a, w))"

text \<open>The events: the controller's \<open>start\<close> and \<open>stop\<close>, the next timer firing, time
  passing, and the completion of the \<open>i\<close>-th in-flight command, with or without a write
  error.\<close>

datatype anim_event = AnimStart | AnimStop | AnimFire | AnimWait nat | AnimAck nat bool

fun anim_step :: "anim_cfg \<Rightarrow> anim \<times> world \<Rightarrow> anim_event \<Rightarrow> (anim \<times> world) option" where
  "anim_step c (a, w) AnimStart = Some (SlowFlasherPigpio_start c a w)"
| "anim_step c (a, w) AnimStop = Some (SlowFlasherPigpio_stop c a w)"
| "anim_step c (a, w) AnimFire =
     (case fire_next w of None \<Rightarrow> None | Some (f, w') \<Rightarrow> Some (anim_dispatch c f a w'))"
| "anim_step c (a, w) (AnimWait d) =
     (case advance d w of None \<Rightarrow> None | Some w' \<Rightarrow> Some (a, w'))"
| "anim_step c (a, w) (AnimAck i err) =
     (case pigpio_done i w of
        None \<Rightarrow> None
      | Some ((p, cb), w') \<Rightarrow> Some (if p = channelName c \<and> cb then endTansition c err a w' else (a, w')))"

inductive anim_reach :: "anim_cfg \<Rightarrow> anim \<times> world \<Rightarrow> bool" for c where
  anim_init: "anim_reach c (SlowFlasherPigpio_new, world0)"
| anim_next: "anim_reach c s \<Longrightarrow> anim_step c s e = Some s' \<Longrightarrow> anim_reach c s'"

text \<open>A run: a list of events applied in order; \<open>None\<close> when one of them cannot happen.\<close>

fun anim_run :: "anim_cfg \<Rightarrow> anim \<times> world \<Rightarrow> anim_event list \<Rightarrow> (anim \<times> world) option" where
  "anim_run c s [] = Some s"
| "anim_run c s (e # es) = (case anim_step c s e of None \<Rightarrow> None | Some s' \<Rightarrow> anim_run c s' es)"

text \<open>The animator's invariant: the interval handle owns the step closure and names the
  only live step interval; the state-timeout handle owns \<open>runTransition\<close>; a ramp
  started no later than now.\<close>

definition anim_inv :: "anim_cfg \<Rightarrow> anim \<Rightarrow> world \<Rightarrow> bool" where
  "anim_inv c a w \<longleftrightarrow>
     owns (transitionInterval a) (SPTransitionStep (channelName c)) w \<and>
     set (armed (SPTransitionStep (channelName c)) w) \<subseteq> set_option (transitionInterval a) \<and>
     owns (stateTimeout a) (SPRunTransition (channelName c)) w \<and>
     transitionStartTime a \<le> clock w"

section \<open>Lemmas\<close>

subsection \<open>The operations in closed form\<close>

lemma runTransition_eq:
  "runTransition c a w =
     (a\<lparr>transitionStartTime := clock w, transitionInterval := Some (nextId w)\<rparr>,
      snd (setInterval (SPTransitionStep (channelName c)) TRANSITION_INTERVAL
             (clearTimeout (transitionInterval a) w)))"
  by (cases "transitionInterval a")
     (simp_all add: runTransition_def curtime_def Let_def prod.case_eq_if clearTimeout_def)

lemma anim_start_eq:
  "SlowFlasherPigpio_start c a w =
     runTransition c (a\<lparr>stateTimeout := None, stopFlag := False\<rparr>)
       (clearTimeout (stateTimeout a)
          (setFlag (channelName c) False (portOff (channelName c) w)))"
proof (cases "stateTimeout a")
  case None
  then have "a\<lparr>stateTimeout := None\<rparr> = a" by (cases a) simp
  then have "runTransition c (a\<lparr>stateTimeout := None, stopFlag := False\<rparr>) = runTransition c (a\<lparr>stopFlag := False\<rparr>)"
    by (metis (no_types))
  with None show ?thesis by (simp add: SlowFlasherPigpio_start_def Let_def clearTimeout_def)
qed (simp add: SlowFlasherPigpio_start_def Let_def)

lemma anim_stop_eq:
  "SlowFlasherPigpio_stop c a w =
     (if \<not> flag (State w) (channelName c)
      then (a\<lparr>stateTimeout := None, stopFlag := True\<rparr>, clearTimeout (stateTimeout a) w)
      else (a\<lparr>stopFlag := True\<rparr>, w))"
proof (cases "stateTimeout a")
  case None
  then have "a\<lparr>stateTimeout := None\<rparr> = a" by (cases a) simp
  then have "a\<lparr>stateTimeout := None, stopFlag := True\<rparr> = a\<lparr>stopFlag := True\<rparr>" by (metis (no_types))
  with None show ?thesis by (simp add: SlowFlasherPigpio_stop_def clearTimeout_def)
qed (simp add: SlowFlasherPigpio_stop_def)

text \<open>A completed final command switches the lamp fully, clears the interval and, unless
  the animator is stopping in the off state, arms the next \<open>runTransition\<close>.\<close>

lemma endTansition_eq:
  "endTansition c False a w =
     (let p = channelName c; on = flag (State w) p;
          w2 = clearTimeout (transitionInterval a)
                 (if \<not> on then setFlag p True (portOn p w) else setFlag p False (portOff p w))
      in if \<not> stopFlag a \<or> \<not> on
         then (a\<lparr>transitionInterval := None, stateTimeout := Some (nextId w)\<rparr>,
               snd (setTimeout (SPRunTransition p) (if \<not> on then timeOn c else timeOff c) w2))
         else (a\<lparr>transitionInterval := None\<rparr>, w2))"
  by (simp add: endTansition_def Let_def prod.case_eq_if)

lemma pigpio_done_fields:
  assumes "pigpio_done i w = Some (p, w')"
  shows "timers w' = timers w \<and> nextId w' = nextId w \<and> clock w' = clock w \<and>
         pins w' = pins w \<and> State w' = State w \<and> IOEnabled w' = IOEnabled w \<and>
         p \<in> set (pending w)"
  using assms by (auto simp: pigpio_done_def split: if_splits)

lemma pigpio_done_keeps:
  assumes "pigpio_done i w = Some (p, w')"
  shows "armed f w' = armed f w" "owns h f w' = owns h f w" "wf_world w' = wf_world w"
  using pigpio_done_fields [OF assms] by (simp_all add: armed_def owns_def wf_world_def)

subsection \<open>Every operation keeps the invariant\<close>

lemma anim_inv_frame [simp]:
  "anim_inv c a (setFlag p b w) = anim_inv c a w" "anim_inv c a (portOn p w) = anim_inv c a w"
  "anim_inv c a (portOff p w) = anim_inv c a w" "anim_inv c a (portPWM p v h w) = anim_inv c a w"
  by (simp_all add: anim_inv_def)

lemma anim_inv_clear_state:
  assumes "anim_inv c a w"
  shows "anim_inv c (a\<lparr>stateTimeout := None, stopFlag := b\<rparr>) (clearTimeout (stateTimeout a) w)"
proof -
  have "owns (stateTimeout a) (SPRunTransition (channelName c)) w" using assms by (simp add: anim_inv_def)
  then have "armed (SPTransitionStep (channelName c)) (clearTimeout (stateTimeout a) w) =
             armed (SPTransitionStep (channelName c)) w" by (rule armed_clear_owned) simp
  with assms show ?thesis by (auto simp: anim_inv_def)
qed

lemma wf_runTransition [intro]: "wf_world w \<Longrightarrow> wf_world (snd (runTransition c a w))"
  by (auto simp: runTransition_eq)

lemma anim_inv_runTransition:
  assumes "wf_world w" "anim_inv c a w"
  shows "anim_inv c (fst (runTransition c a w)) (snd (runTransition c a w))"
proof -
  let ?s = "SPTransitionStep (channelName c)"
  let ?w1 = "clearTimeout (transitionInterval a) w"
  have "armed ?s ?w1 = []" using assms(2) by (intro armed_clear_own_handle) (simp add: anim_inv_def)
  moreover have "owns (Some (nextId ?w1)) ?s (snd (setInterval ?s TRANSITION_INTERVAL ?w1))"
    using assms(1) by (intro owns_fresh) auto
  moreover have "owns (stateTimeout a) (SPRunTransition (channelName c)) w"
    using assms(2) by (simp add: anim_inv_def)
  ultimately show ?thesis by (auto simp: runTransition_eq anim_inv_def)
qed

lemma anim_inv_start:
  assumes "wf_world w" "anim_inv c a w"
  shows "anim_inv c (fst (SlowFlasherPigpio_start c a w)) (snd (SlowFlasherPigpio_start c a w))"
  unfolding anim_start_eq using assms
  by (intro anim_inv_runTransition anim_inv_clear_state) auto

lemma wf_start [intro]: "wf_world w \<Longrightarrow> wf_world (snd (SlowFlasherPigpio_start c a w))"
  by (auto simp: anim_start_eq)

lemma anim_inv_stop:
  assumes "anim_inv c a w"
  shows "anim_inv c (fst (SlowFlasherPigpio_stop c a w)) (snd (SlowFlasherPigpio_stop c a w))"
  using anim_inv_clear_state [OF assms, of True] assms by (simp add: anim_stop_eq anim_inv_def)

lemma anim_inv_transitionStep:
  "anim_inv c a w \<Longrightarrow> anim_inv c (fst (transitionStep c a w)) (snd (transitionStep c a w))"
  by (simp add: transitionStep_def Let_def)

lemma wf_endTansition [intro]: "wf_world w \<Longrightarrow> wf_world (snd (endTansition c err a w))"
  by (cases err) (auto simp: endTansition_def Let_def prod.case_eq_if)

lemma anim_inv_end_clear:
  assumes "wf_world w" "anim_inv c a w"
  shows "anim_inv c (a\<lparr>transitionInterval := None\<rparr>) (clearTimeout (transitionInterval a) w) \<and>
         anim_inv c (a\<lparr>transitionInterval := None, stateTimeout := Some (nextId w)\<rparr>)
           (snd (setTimeout (SPRunTransition (channelName c)) d (clearTimeout (transitionInterval a) w)))"
proof -
  let ?w2 = "clearTimeout (transitionInterval a) w"
  have e: "armed (SPTransitionStep (channelName c)) ?w2 = []"
    using assms(2) by (intro armed_clear_own_handle) (simp add: anim_inv_def)
  have i2: "anim_inv c (a\<lparr>transitionInterval := None\<rparr>) ?w2"
    using assms(2) e by (auto simp: anim_inv_def)
  have "owns (Some (nextId w)) (SPRunTransition (channelName c)) (snd (setTimeout (SPRunTransition (channelName c)) d ?w2))"
    using owns_fresh(1) [of ?w2] assms(1) by auto
  with i2 show ?thesis by (auto simp: anim_inv_def)
qed

lemma anim_inv_endTansition:
  assumes "wf_world w" "anim_inv c a w"
  shows "anim_inv c (fst (endTansition c err a w)) (snd (endTansition c err a w))"
proof (cases err)
  case False
  let ?p = "channelName c"
  show ?thesis
  proof (cases "flag (State w) ?p")
    case True
    have "wf_world (setFlag ?p False (portOff ?p w))" "anim_inv c a (setFlag ?p False (portOff ?p w))"
      using assms by auto
    from anim_inv_end_clear [OF this] show ?thesis using False True by (simp add: endTansition_eq Let_def)
  next
    case off: False
    have "wf_world (setFlag ?p True (portOn ?p w))" "anim_inv c a (setFlag ?p True (portOn ?p w))"
      using assms by auto
    from anim_inv_end_clear [OF this] show ?thesis using False off by (simp add: endTansition_eq Let_def)
  qed
qed (use assms in \<open>simp add: endTansition_def\<close>)

lemma anim_inv_fire:
  assumes "fire_next w = Some (f, w')" "anim_inv c a w"
  shows "anim_inv c a w'"
proof -
  obtain i t where w': "w' = after_fire i t w" using assms(1) by (auto elim: fire_nextE)
  have "clock w \<le> clock w'" using fire_fields [OF assms(1)] by simp
  with assms(2) after_fire_armed_sub [of "SPTransitionStep (channelName c)" i t w] show ?thesis
    by (auto simp: anim_inv_def w')
qed

lemma anim_inv_advance:
  "advance d w = Some w' \<Longrightarrow> anim_inv c a w \<Longrightarrow> anim_inv c a w'"
  using advance_fields [of d w w'] owns_advance [of d w w'] by (auto simp: anim_inv_def armed_def)

lemma anim_inv_done:
  "pigpio_done i w = Some (p, w') \<Longrightarrow> anim_inv c a w \<Longrightarrow> anim_inv c a w'"
  using pigpio_done_keeps [of i w p w'] pigpio_done_fields [of i w p w'] by (simp add: anim_inv_def)

lemma anim_dispatch_inv:
  assumes "wf_world w" "anim_inv c a w"
  shows "wf_world (snd (anim_dispatch c f a w)) \<and>
         anim_inv c (fst (anim_dispatch c f a w)) (snd (anim_dispatch c f a w))"
  using assms anim_inv_transitionStep [of c a w] anim_inv_runTransition [OF assms]
  by (auto simp: anim_dispatch_def transitionStep_def Let_def)

text \<open>Every event of the animator keeps the world well formed and the invariant.\<close>

lemma anim_step_inv:
  assumes "wf_world w" "anim_inv c a w" "anim_step c (a, w) e = Some (a', w')"
  shows "wf_world w' \<and> anim_inv c a' w'"
proof (cases e)
  case AnimStart
  with assms show ?thesis using anim_inv_start [OF assms(1,2)] wf_start [OF assms(1), of c a]
    by auto
next
  case AnimStop
  with assms show ?thesis using anim_inv_stop [OF assms(2)]
    by (auto simp: anim_stop_eq split: if_splits)
next
  case AnimFire
  then obtain f w1 where f: "fire_next w = Some (f, w1)" "anim_dispatch c f a w1 = (a', w')"
    using assms(3) by (auto split: option.splits)
  have "wf_world w1" "anim_inv c a w1" using fire_wf [OF assms(1) f(1)] anim_inv_fire [OF f(1) assms(2)] by simp_all
  from anim_dispatch_inv [OF this, of f] f(2) show ?thesis by simp
next
  case (AnimWait d)
  then have "advance d w = Some w'" "a' = a" using assms(3) by (auto split: option.splits)
  with assms(1,2) show ?thesis using advance_fields [of d w w'] anim_inv_advance [of d w w' c a]
    by (simp add: wf_world_def)
next
  case (AnimAck i err)
  then obtain p w1 where d: "pigpio_done i w = Some (p, w1)"
    and r: "(if fst p = channelName c \<and> snd p then endTansition c err a w1 else (a, w1)) = (a', w')"
    using assms(3) by (auto split: option.splits)
  have "wf_world w1" "anim_inv c a w1"
    using assms(1,2) pigpio_done_keeps(3) [OF d] anim_inv_done [OF d] by simp_all
  with r show ?thesis using anim_inv_endTansition [of w1 c a err] wf_endTansition [of w1 c err a]
    by (auto split: if_splits)
qed

lemma anim_run_reach:
  "anim_reach c s \<Longrightarrow> anim_run c s es = Some s' \<Longrightarrow> anim_reach c s'"
proof (induction es arbitrary: s)
  case Nil
  then show ?case by simp
next
  case (Cons e es)
  then obtain s1 where "anim_step c s e = Some s1" "anim_run c s1 es = Some s'"
    by (auto split: option.splits)
  with Cons.prems(1) show ?case by (intro Cons.IH [of s1]) (auto intro: anim_next)
qed

lemma anim_inv_new [simp]: "anim_inv c SlowFlasherPigpio_new world0"
  by (simp add: anim_inv_def SlowFlasherPigpio_new_def armed_def owns_def)

lemma anim_reach_inv:
  "anim_reach c s \<Longrightarrow> wf_world (snd s) \<and> anim_inv c (fst s) (snd s)"
proof (induction rule: anim_reach.induct)
  case anim_init
  then show ?case by simp
next
  case (anim_next s e s')
  then show ?case using anim_step_inv [of "snd s" c "fst s" e "fst s'" "snd s'"] by simp
qed

lemma runTransition_armed:
  "anim_inv c a w \<Longrightarrow> armed (SPTransitionStep (channelName c)) (snd (runTransition c a w)) = [nextId w]"
  using armed_clear_own_handle [of "SPTransitionStep (channelName c)" w "transitionInterval a"]
  by (simp add: runTransition_eq anim_inv_def)

text \<open>\<open>start\<close> clears the recorded state timeout and nothing else of the state-timer closure:
  \<open>runTransition\<close>'s own \<open>clearTimeout\<close> only touches the step interval, which the
  invariant says the transition handle owns.\<close>

lemma start_cancels_state:
  assumes "anim_inv c a w"
  shows "armed (SPRunTransition (channelName c)) (snd (SlowFlasherPigpio_start c a w)) =
         filter (\<lambda>j. j \<notin> set_option (stateTimeout a)) (armed (SPRunTransition (channelName c)) w)"
proof -
  let ?w2 = "clearTimeout (stateTimeout a) (setFlag (channelName c) False (portOff (channelName c) w))"
  have "owns (transitionInterval a) (SPTransitionStep (channelName c)) ?w2"
    using assms by (auto simp: anim_inv_def)
  then have "armed (SPRunTransition (channelName c)) (clearTimeout (transitionInterval a) ?w2) =
             armed (SPRunTransition (channelName c)) ?w2"
    by (rule armed_clear_owned) simp
  then show ?thesis
    by (cases "stateTimeout a") (simp_all add: anim_start_eq runTransition_eq)
qed

lemma ramp_value_range:
  assumes "transitionStartTime a \<le> clock w" "clock w < transitionStartTime a + timeTransition c"
  shows "0 \<le> (of_int (curtime w - int (transitionStartTime a)) / of_nat (timeTransition c) :: rat) \<and>
         (of_int (curtime w - int (transitionStartTime a)) / of_nat (timeTransition c) :: rat) \<le> 1"
proof -
  have "0 \<le> curtime w - int (transitionStartTime a)" "curtime w - int (transitionStartTime a) \<le> int (timeTransition c)"
    using assms by (simp_all add: curtime_def)
  then show ?thesis by (auto simp: divide_le_eq_1)
qed

lemmas anim_eval_defs = SlowFlasherPigpio_new_def world0_defs anim_start_eq runTransition_eq
  fire_next_def next_timer_def after_fire_def transitionStep_def anim_dispatch_def curtime_def
  pigpio_done_def endTansition_eq timer_defs node_delay_def config_defs portPWM_def
  sendPigpioCommand_def portOn_def portOff_def setFlag_def armed_def replicate_numeral_unfold

subsection \<open>Properties of the animator\<close>

text \<open>C16: In every state the animator reaches, whatever the order of ticks, completions,
  starts and stops, at most one transition interval is live, and it is the one the
  object records: \<open>runTransition\<close> and \<open>endTansition\<close> never leak a step interval.\<close>

theorem anim_single_interval:
  assumes "anim_reach c s"
  shows "length (armed (SPTransitionStep (channelName c)) (snd s)) \<le> 1 \<and>
         set (armed (SPTransitionStep (channelName c)) (snd s)) \<subseteq> set_option (transitionInterval (fst s))"
proof -
  from anim_reach_inv [OF assms] have wf: "wf_world (snd s)" and "anim_inv c (fst s) (snd s)" by simp_all
  then have sub: "set (armed (SPTransitionStep (channelName c)) (snd s)) \<subseteq> set_option (transitionInterval (fst s))"
    by (simp add: anim_inv_def)
  with distinct_sub_option [OF armed_distinct [OF wf] sub] show ?thesis by simp
qed

text \<open>C17: A completion of the final PWM command that arrives later than the next tick
  makes \<open>endTansition\<close> run twice: from start-up, after 40 ticks of the skull animator
  and two completions, the lamp that was ramped up is dark again, \<open>State\<close> says off,
  and two \<open>runTransition\<close> timers are live although the animator was never stopped.\<close>

theorem slow_ack_double_end:
  "\<exists>s. anim_reach skull1_cfg s \<and> \<not> stopFlag (fst s) \<and>
       length (armed (SPRunTransition LightSkull1) (snd s)) = 2 \<and>
       \<not> flag (State (snd s)) LightSkull1 \<and> pins (snd s) LightSkull1 = Level 0"
proof -
  obtain s where s: "anim_run skull1_cfg (SlowFlasherPigpio_new, world0)
      ([AnimStart] @ replicate 40 AnimFire @ [AnimAck 37 False, AnimAck 37 False]) = Some s"
    "\<not> stopFlag (fst s)" "length (armed (SPRunTransition LightSkull1) (snd s)) = 2"
    "\<not> flag (State (snd s)) LightSkull1" "pins (snd s) LightSkull1 = Level 0"
    by (simp add: anim_eval_defs skull1_cfg_def)
  have "anim_reach skull1_cfg s" using anim_run_reach [OF anim_init s(1)] .
  with s(2-5) show ?thesis by blast
qed

text \<open>C18: While a ramp runs, every tick writes a PWM duty between 0 and 250 to the channel
  and puts one command without a completion callback in flight.\<close>

theorem transitionStep_duty_bounds:
  assumes "transitionStartTime a \<le> clock w" "clock w < transitionStartTime a + timeTransition c"
    "port_pin (channelName c) \<noteq> 0"
  shows "\<exists>d. pins (snd (transitionStep c a w)) (channelName c) = Duty d \<and> 0 \<le> d \<and> d \<le> 250 \<and>
             pending (snd (transitionStep c a w)) = pending w @ [(channelName c, False)]"
proof -
  let ?v = "of_int (curtime w - int (transitionStartTime a)) / of_nat (timeTransition c) :: rat"
  have v: "0 \<le> ?v" "?v \<le> 1" using ramp_value_range [OF assms(1,2)] by simp_all
  have lt: "curtime w - int (transitionStartTime a) < int (timeTransition c)"
    using assms(2) by (simp add: curtime_def)
  have up: "0 \<le> \<lfloor>?v * 250\<rfloor> \<and> \<lfloor>?v * 250\<rfloor> \<le> 250"
    using floor_scaled_range [OF v, of 250] by simp
  have down: "0 \<le> \<lfloor>(1 - ?v) * 250\<rfloor> \<and> \<lfloor>(1 - ?v) * 250\<rfloor> \<le> 250"
    using floor_scaled_range [of "1 - ?v" 250] v by simp
  show ?thesis using up down lt assms(3) by (simp add: transitionStep_def Let_def)
qed

text \<open>C19: The ramp is monotone: on a rising ramp a later tick never writes a smaller duty,
  on a falling ramp never a larger one.\<close>

theorem ramp_monotone:
  assumes "flag (State w') (channelName c) = flag (State w) (channelName c)"
    "transitionStartTime a \<le> clock w" "clock w \<le> clock w'"
    "clock w' < transitionStartTime a + timeTransition c" "port_pin (channelName c) \<noteq> 0"
    "pins (snd (transitionStep c a w)) (channelName c) = Duty d"
    "pins (snd (transitionStep c a w')) (channelName c) = Duty d'"
  shows "if flag (State w) (channelName c) then d' \<le> d else d \<le> d'"
proof -
  let ?v = "of_int (curtime w - int (transitionStartTime a)) / of_nat (timeTransition c) :: rat"
  let ?v' = "of_int (curtime w' - int (transitionStartTime a)) / of_nat (timeTransition c) :: rat"
  have "curtime w - int (transitionStartTime a) \<le> curtime w' - int (transitionStartTime a)"
    using assms(3) by (simp add: curtime_def)
  then have le: "?v \<le> ?v'" by (intro divide_right_mono) simp_all
  have lt: "curtime w - int (transitionStartTime a) < int (timeTransition c)"
       "curtime w' - int (transitionStartTime a) < int (timeTransition c)"
    using assms(2-4) by (simp_all add: curtime_def)
  have d: "d = (if flag (State w) (channelName c) then \<lfloor>(1 - ?v) * 250\<rfloor> else \<lfloor>?v * 250\<rfloor>)"
    using assms(5,6) lt(1) by (cases "flag (State w) (channelName c)") (simp_all add: transitionStep_def Let_def)
  have d': "d' = (if flag (State w) (channelName c) then \<lfloor>(1 - ?v') * 250\<rfloor> else \<lfloor>?v' * 250\<rfloor>)"
    using assms(1,5,7) lt(2) by (cases "flag (State w) (channelName c)") (simp_all add: transitionStep_def Let_def)
  have "(1 - ?v') * 250 \<le> (1 - ?v) * 250" using le by (intro mult_right_mono diff_left_mono) simp_all
  then have "\<lfloor>(1 - ?v') * 250\<rfloor> \<le> \<lfloor>(1 - ?v) * 250\<rfloor>" by (rule floor_mono)
  moreover have "?v * 250 \<le> ?v' * 250" using le by (rule mult_right_mono) simp
  then have "\<lfloor>?v * 250\<rfloor> \<le> \<lfloor>?v' * 250\<rfloor>" by (rule floor_mono)
  ultimately show ?thesis using d d' by simp
qed

text \<open>C20: \<open>stop\<close> keeps its comment's promise: in the off state it cancels the pending
  \<open>runTransition\<close> (when that is the only one, no timer of the animator is left), and
  while the lamp is lit it cancels nothing, so the cycle finishes; the step interval is
  never touched and the stop flag is set.\<close>

theorem stop_contract:
  assumes "anim_inv c a w" "set (armed (SPRunTransition (channelName c)) w) \<subseteq> set_option (stateTimeout a)"
  shows "armed (SPRunTransition (channelName c)) (snd (SlowFlasherPigpio_stop c a w)) =
           (if flag (State w) (channelName c) then armed (SPRunTransition (channelName c)) w else []) \<and>
         armed (SPTransitionStep (channelName c)) (snd (SlowFlasherPigpio_stop c a w)) =
           armed (SPTransitionStep (channelName c)) w \<and>
         stopFlag (fst (SlowFlasherPigpio_stop c a w))"
proof -
  have own: "owns (stateTimeout a) (SPRunTransition (channelName c)) w" using assms(1) by (simp add: anim_inv_def)
  have "armed (SPRunTransition (channelName c)) (clearTimeout (stateTimeout a) w) = []"
    using assms(2) by (rule armed_clear_own_handle)
  moreover have "armed (SPTransitionStep (channelName c)) (clearTimeout (stateTimeout a) w) =
                 armed (SPTransitionStep (channelName c)) w"
    using own by (rule armed_clear_owned) simp
  ultimately show ?thesis by (simp add: anim_stop_eq)
qed

text \<open>C21: When a stopped animator completes a ramp, the step interval is gone and the
  lamp's state flips; a ramp down ends the cycle with no new \<open>runTransition\<close>, a ramp up
  still arms one, \<open>timeOn\<close> later, to bring the lamp down again.\<close>

theorem end_when_stopped:
  assumes "anim_inv c a w" "stopFlag a"
  shows "armed (SPRunTransition (channelName c)) (snd (endTansition c False a w)) =
           armed (SPRunTransition (channelName c)) w @
             (if flag (State w) (channelName c) then [] else [nextId w]) \<and>
         armed (SPTransitionStep (channelName c)) (snd (endTansition c False a w)) = [] \<and>
         flag (State (snd (endTansition c False a w))) (channelName c) = (\<not> flag (State w) (channelName c))"
proof -
  let ?p = "channelName c"
  let ?w1 = "if \<not> flag (State w) ?p then setFlag ?p True (portOn ?p w) else setFlag ?p False (portOff ?p w)"
  have i1: "anim_inv c a ?w1" using assms(1) by simp
  then have own: "owns (transitionInterval a) (SPTransitionStep ?p) ?w1" by (simp add: anim_inv_def)
  have "armed (SPTransitionStep ?p) (clearTimeout (transitionInterval a) ?w1) = []"
    using i1 by (intro armed_clear_own_handle) (simp add: anim_inv_def)
  moreover have "armed (SPRunTransition ?p) (clearTimeout (transitionInterval a) ?w1) = armed (SPRunTransition ?p) w"
    using armed_clear_owned [OF own, of "SPRunTransition ?p"] by (simp split: if_splits)
  ultimately show ?thesis using assms(2) by (simp add: endTansition_eq Let_def split: if_splits)
qed

text \<open>C22: A write error on the final command is swallowed: the completion changes nothing
  but the queue, the step interval stays live, and the next tick, the ramp's time being
  over, sends the final command again; the ramp retries every tick until a write
  succeeds.\<close>

theorem ack_error_retries:
  assumes "anim_inv c a w" "pigpio_done i w = Some ((channelName c, True), w')"
    "int (transitionStartTime a) + int (timeTransition c) \<le> curtime w" "port_pin (channelName c) \<noteq> 0"
  shows "anim_step c (a, w) (AnimAck i True) = Some (a, w') \<and>
         armed (SPTransitionStep (channelName c)) w' = armed (SPTransitionStep (channelName c)) w \<and>
         pending (snd (transitionStep c a w')) = pending w' @ [(channelName c, True)]"
proof -
  have f: "clock w' = clock w" "armed (SPTransitionStep (channelName c)) w' = armed (SPTransitionStep (channelName c)) w"
    using pigpio_done_fields [OF assms(2)] pigpio_done_keeps(1) [OF assms(2)] by simp_all
  then have "\<not> curtime w' - int (transitionStartTime a) < int (timeTransition c)"
    using assms(3) by (simp add: curtime_def)
  with f assms(2,4) show ?thesis by (simp add: endTansition_def transitionStep_def Let_def)
qed

text \<open>C23: \<open>start\<close> puts the animator in a known state from any state: the lamp off,
  \<open>State\<close> off, the recorded state timeout forgotten and cancelled (every live timer of
  the state closure survives except exactly the recorded one), the stop flag cleared, and
  exactly one new step interval live, the one recorded, with the ramp starting now.\<close>

theorem start_resets:
  assumes "anim_inv c a w" "port_dir (channelName c) = Out"
  shows "armed (SPTransitionStep (channelName c)) (snd (SlowFlasherPigpio_start c a w)) = [nextId w] \<and>
         transitionInterval (fst (SlowFlasherPigpio_start c a w)) = Some (nextId w) \<and>
         stateTimeout (fst (SlowFlasherPigpio_start c a w)) = None \<and>
         armed (SPRunTransition (channelName c)) (snd (SlowFlasherPigpio_start c a w)) =
           filter (\<lambda>j. j \<notin> set_option (stateTimeout a)) (armed (SPRunTransition (channelName c)) w) \<and>
         \<not> stopFlag (fst (SlowFlasherPigpio_start c a w)) \<and>
         transitionStartTime (fst (SlowFlasherPigpio_start c a w)) = clock w \<and>
         \<not> flag (State (snd (SlowFlasherPigpio_start c a w))) (channelName c) \<and>
         pins (snd (SlowFlasherPigpio_start c a w)) (channelName c) = off_level (channelName c)"
proof -
  let ?w1 = "setFlag (channelName c) False (portOff (channelName c) w)"
  have "anim_inv c (a\<lparr>stateTimeout := None, stopFlag := False\<rparr>) (clearTimeout (stateTimeout a) ?w1)"
    using assms(1) by (intro anim_inv_clear_state) simp
  from runTransition_armed [OF this] start_cancels_state [OF assms(1)] assms(2) show ?thesis
    by (simp add: anim_start_eq runTransition_eq off_level_def)
qed

subsection \<open>Witnesses\<close>

lemma anim_reach_started: "anim_reach skull1_cfg (SlowFlasherPigpio_start skull1_cfg SlowFlasherPigpio_new world0)"
  by (rule anim_next [OF anim_init, of _ AnimStart]) simp

lemma anim_single_interval_witness:
  "length (armed (SPTransitionStep LightSkull1) (snd (SlowFlasherPigpio_start skull1_cfg SlowFlasherPigpio_new world0))) \<le> 1 \<and>
   set (armed (SPTransitionStep LightSkull1) (snd (SlowFlasherPigpio_start skull1_cfg SlowFlasherPigpio_new world0)))
     \<subseteq> set_option (transitionInterval (fst (SlowFlasherPigpio_start skull1_cfg SlowFlasherPigpio_new world0)))"
  using anim_single_interval [OF anim_reach_started] by (simp add: skull1_cfg_def)

lemma transitionStep_duty_bounds_witness:
  "\<exists>d. pins (snd (transitionStep skull1_cfg SlowFlasherPigpio_new (world0\<lparr>clock := 750\<rparr>))) LightSkull1 = Duty d \<and>
       0 \<le> d \<and> d \<le> 250 \<and>
       pending (snd (transitionStep skull1_cfg SlowFlasherPigpio_new (world0\<lparr>clock := 750\<rparr>))) = [(LightSkull1, False)]"
  using transitionStep_duty_bounds [of SlowFlasherPigpio_new "world0\<lparr>clock := 750\<rparr>" skull1_cfg]
  by (simp add: SlowFlasherPigpio_new_def skull1_cfg_def config_defs)

lemma ramp_monotone_witness:
  "\<lfloor>(of_int 300 / 1500 :: rat) * 250\<rfloor> \<le> \<lfloor>(of_int 900 / 1500 :: rat) * 250\<rfloor>"
proof -
  let ?a = "SlowFlasherPigpio_new" and ?w = "world0\<lparr>clock := 300\<rparr>" and ?w' = "world0\<lparr>clock := 900\<rparr>"
  have "if flag (State ?w) (channelName skull1_cfg)
        then \<lfloor>(of_int 900 / 1500 :: rat) * 250\<rfloor> \<le> \<lfloor>(of_int 300 / 1500 :: rat) * 250\<rfloor>
        else \<lfloor>(of_int 300 / 1500 :: rat) * 250\<rfloor> \<le> \<lfloor>(of_int 900 / 1500 :: rat) * 250\<rfloor>"
    by (rule ramp_monotone [where w = ?w and w' = ?w' and c = skull1_cfg and a = ?a])
       (simp_all add: SlowFlasherPigpio_new_def skull1_cfg_def config_defs transitionStep_def curtime_def)
  then show ?thesis by (simp add: skull1_cfg_def)
qed

lemma stop_contract_witness:
  "armed (SPRunTransition LightSkull1)
     (snd (SlowFlasherPigpio_stop skull1_cfg (SlowFlasherPigpio_new\<lparr>stateTimeout := Some 0\<rparr>)
            (snd (setTimeout (SPRunTransition LightSkull1) 1500 world0)))) = [] \<and>
   armed (SPTransitionStep LightSkull1)
     (snd (SlowFlasherPigpio_stop skull1_cfg (SlowFlasherPigpio_new\<lparr>stateTimeout := Some 0\<rparr>)
            (snd (setTimeout (SPRunTransition LightSkull1) 1500 world0)))) = []"
  using stop_contract [of skull1_cfg "SlowFlasherPigpio_new\<lparr>stateTimeout := Some 0\<rparr>"
      "snd (setTimeout (SPRunTransition LightSkull1) 1500 world0)"]
  by (simp add: SlowFlasherPigpio_new_def skull1_cfg_def anim_inv_def owns_def armed_def timer_defs)

lemma end_when_stopped_witness:
  "armed (SPRunTransition LightSkull1) (snd (endTansition skull1_cfg False SlowFlasherPigpio_new
      (setFlag LightSkull1 True world0))) = [] \<and>
   \<not> flag (State (snd (endTansition skull1_cfg False SlowFlasherPigpio_new (setFlag LightSkull1 True world0)))) LightSkull1"
  using end_when_stopped [of skull1_cfg SlowFlasherPigpio_new "setFlag LightSkull1 True world0"]
  by (simp add: SlowFlasherPigpio_new_def skull1_cfg_def anim_inv_def owns_def armed_def)

lemma ack_error_retries_witness:
  "anim_step skull1_cfg (SlowFlasherPigpio_new, world0\<lparr>clock := 2000, pending := [(LightSkull1, True)]\<rparr>) (AnimAck 0 True) =
     Some (SlowFlasherPigpio_new, world0\<lparr>clock := 2000, pending := []\<rparr>) \<and>
   pending (snd (transitionStep skull1_cfg SlowFlasherPigpio_new (world0\<lparr>clock := 2000, pending := []\<rparr>))) = [(LightSkull1, True)]"
  using ack_error_retries [of skull1_cfg SlowFlasherPigpio_new "world0\<lparr>clock := 2000, pending := [(LightSkull1, True)]\<rparr>" 0
      "world0\<lparr>clock := 2000, pending := []\<rparr>"]
  by (simp add: SlowFlasherPigpio_new_def skull1_cfg_def config_defs anim_inv_def armed_def curtime_def pigpio_done_def)

text \<open>An animator whose state timeout (handle 0) is live: \<open>start\<close> cancels it.\<close>

lemma start_resets_witness:
  "armed (SPRunTransition LightSkull1) (snd (setTimeout (SPRunTransition LightSkull1) 500 world0)) = [0] \<and>
   armed (SPRunTransition LightSkull1) (snd (SlowFlasherPigpio_start skull1_cfg (SlowFlasherPigpio_new\<lparr>stateTimeout := Some 0\<rparr>)
      (snd (setTimeout (SPRunTransition LightSkull1) 500 world0)))) = [] \<and>
   armed (SPTransitionStep LightSkull1) (snd (SlowFlasherPigpio_start skull1_cfg (SlowFlasherPigpio_new\<lparr>stateTimeout := Some 0\<rparr>)
      (snd (setTimeout (SPRunTransition LightSkull1) 500 world0)))) = [1] \<and>
   pins (snd (SlowFlasherPigpio_start skull1_cfg (SlowFlasherPigpio_new\<lparr>stateTimeout := Some 0\<rparr>)
      (snd (setTimeout (SPRunTransition LightSkull1) 500 world0)))) LightSkull1 = Level 0"
proof -
  have "anim_inv skull1_cfg (SlowFlasherPigpio_new\<lparr>stateTimeout := Some 0\<rparr>) (snd (setTimeout (SPRunTransition LightSkull1) 500 world0))"
    by (simp add: anim_inv_def SlowFlasherPigpio_new_def armed_def owns_def setTimeout_def skull1_cfg_def)
  from start_resets [OF this] show ?thesis
    by (simp add: skull1_cfg_def setTimeout_def armed_def off_level_def)
qed

end
