(* ===== verification/SlowFlasher.thy ===== *)
theory SlowFlasher
  imports Runtime
begin

text \<open>
  The stepped animator \<open>SlowFlasher\<close> and its table \<open>createTransitionTable\<close>
  (halloween.js, lines 215--299). The program builds its three animators with the pigpio
  version (theory \<open>Animator\<close>); this one is kept in the source, its instances commented
  out. It fades a channel by software PWM: an interval of \<open>PWM_PRECISION\<close> ms steps
  through a precomputed table of on-times, switching the channel on at each tick and
  off again after the table's entry (the reverse on a ramp down); at the end of the
  table it flips \<open>State[channelName]\<close> and arms the next ramp after \<open>timeOn\<close> or
  \<open>timeOff\<close>. JavaScript's floating-point numbers are modelled as rationals, and
  \<open>Math.round\<close> as rounding half up.

  The theory proves that the table loop terminates and equals a closed formula, that
  its entries lie in \<open>[1, 9]\<close> and increase, and that on the Node scheduler the
  animator never has more than one ramp interval and one hold timer live.
\<close>

section \<open>The transition table (lines 291--299)\<close>

definition js_round :: "rat \<Rightarrow> int" where
  "js_round x = \<lfloor>x + 1 / 2\<rfloor>"

definition table_entry :: "rat \<Rightarrow> nat \<Rightarrow> int" where
  "table_entry steps n = js_round ((of_nat n / steps * (8 / 10) + 1 / 10) * of_nat PWM_PRECISION)"

text \<open>\<open>for (var n = 0; n < steps; ++n) table.push(...)\<close>.\<close>

function table_loop :: "rat \<Rightarrow> nat \<Rightarrow> int list \<Rightarrow> int list" where
  "table_loop steps n table =
     (if of_nat n < steps then table_loop steps (Suc n) (table @ [table_entry steps n]) else table)"
  by pat_completeness auto
termination
proof (relation "measure (\<lambda>(steps, n, _). nat (\<lceil>steps\<rceil> - int n))")
  fix steps :: rat and n :: nat and table :: "int list"
  assume "of_nat n < steps"
  then have "int n < \<lceil>steps\<rceil>" by (simp add: less_ceiling_iff)
  then show "((steps, Suc n, table @ [table_entry steps n]), steps, n, table)
               \<in> measure (\<lambda>(steps, n, _). nat (\<lceil>steps\<rceil> - int n))" by simp
qed simp

declare table_loop.simps [simp del]

definition createTransitionTable :: "nat \<Rightarrow> int list" where
  "createTransitionTable duration =
     table_loop (of_nat duration / of_nat PWM_PRECISION) 0 []"

section \<open>The stepped animator (lines 215--285)\<close>

record sf_cfg =
  sf_channel :: port
  sf_timeOn :: nat
  sf_timeOff :: nat
  transitionTable :: "int list"

record slow_flasher =
  transitionCount :: nat
  sf_interval :: "timer_id option"
  sf_stateTimeout :: "timer_id option"
  sf_stopFlag :: bool

definition SlowFlasher_new :: slow_flasher where
  "SlowFlasher_new =
     \<lparr>transitionCount = 0, sf_interval = None, sf_stateTimeout = None, sf_stopFlag = True\<rparr>"

definition channelOn :: "sf_cfg \<Rightarrow> world \<Rightarrow> world" where
  "channelOn c w = portOn (sf_channel c) w"

definition channelOff :: "sf_cfg \<Rightarrow> world \<Rightarrow> world" where
  "channelOff c w = portOff (sf_channel c) w"

text \<open>One tick. A table entry is a delay in milliseconds; \<open>setTimeout\<close> reads a
  negative one as 1 ms, like \<open>nat\<close> followed by Node's coercion of 0.\<close>

definition SF_transitionStep :: "sf_cfg \<Rightarrow> slow_flasher \<Rightarrow> world \<Rightarrow> slow_flasher \<times> world" where
  "SF_transitionStep c s w =
     (let p = sf_channel c;
          w1 = (if \<not> flag (State w) p then channelOn c w else channelOff c w)
      in if transitionCount s < length (transitionTable c)
         then (let d = transitionTable c ! transitionCount s;
                   w2 = snd (setTimeout (if \<not> flag (State w1) p then SFChannelOff p else SFChannelOn p)
                                        (nat d) w1)
               in (s\<lparr>transitionCount := Suc (transitionCount s)\<rparr>, w2))
         else (let w2 = setFlag p (\<not> flag (State w1) p) w1;
                   w3 = clearTimeout (sf_interval s) w2;
                   s3 = s\<lparr>sf_interval := None\<rparr>
               in if \<not> sf_stopFlag s3 \<or> flag (State w3) p
                  then (let (h, w4) = setTimeout (SFRunTransition p)
                                        (if flag (State w3) p then sf_timeOn c else sf_timeOff c) w3
                        in (s3\<lparr>sf_stateTimeout := Some h\<rparr>, w4))
                  else (s3, w3)))"

definition SF_runTransition :: "sf_cfg \<Rightarrow> slow_flasher \<Rightarrow> world \<Rightarrow> slow_flasher \<times> world" where
  "SF_runTransition c s w =
     (let s1 = s\<lparr>transitionCount := 0\<rparr>;
          w1 = (if sf_interval s1 \<noteq> None then clearTimeout (sf_interval s1) w else w);
          (h, w2) = setInterval (SFTransitionStep (sf_channel c)) PWM_PRECISION w1
      in (s1\<lparr>sf_interval := Some h\<rparr>, w2))"

definition SlowFlasher_start :: "sf_cfg \<Rightarrow> slow_flasher \<Rightarrow> world \<Rightarrow> slow_flasher \<times> world" where
  "SlowFlasher_start c s w =
     (let p = sf_channel c;
          w1 = setFlag p False (channelOff c w);
          (s2, w2) = (if sf_stateTimeout s \<noteq> None
                      then (s\<lparr>sf_stateTimeout := None\<rparr>, clearTimeout (sf_stateTimeout s) w1)
                      else (s, w1))
      in SF_runTransition c (s2\<lparr>sf_stopFlag := False\<rparr>) w2)"

definition SlowFlasher_stop :: "sf_cfg \<Rightarrow> slow_flasher \<Rightarrow> world \<Rightarrow> slow_flasher \<times> world" where
  "SlowFlasher_stop c s w =
     (let (s1, w1) = (if sf_stateTimeout s \<noteq> None \<and> \<not> flag (State w) (sf_channel c)
                      then (s\<lparr>sf_stateTimeout := None\<rparr>, clearTimeout (sf_stateTimeout s) w)
                      else (s, w))
      in (s1\<lparr>sf_stopFlag := True\<rparr>, w1))"

text \<open>The commented-out instance of the first skull (lines 511--514).\<close>

definition sf_skull1_cfg :: sf_cfg where
  "sf_skull1_cfg = \<lparr>sf_channel = LightSkull1, sf_timeOn = SKULL1_ON_DURATION,
     sf_timeOff = SKULL1_OFF_DURATION, transitionTable = createTransitionTable SKULL1_TRANSITION\<rparr>"

section \<open>The stepped animator on the scheduler\<close>

definition sf_dispatch :: "sf_cfg \<Rightarrow> cb \<Rightarrow> slow_flasher \<Rightarrow> world \<Rightarrow> slow_flasher \<times> world" where
  "sf_dispatch c f s w =
     (if f = SFTransitionStep (sf_channel c) then SF_transitionStep c s w
      else if f = SFRunTransition (sf_channel c) then SF_runTransition c s w
      else if f = SFChannelOn (sf_channel c) then (s, channelOn c w)
      else if f = SFChannelOff (sf_channel c) then (s, channelOff c w)
      else (s, w))"

datatype sf_event = SFStart | SFStop | SFFire | SFWait nat

fun sf_step :: "sf_cfg \<Rightarrow> slow_flasher \<times> world \<Rightarrow> sf_event \<Rightarrow> (slow_flasher \<times> world) option" where
  "sf_step c (s, w) SFStart = Some (SlowFlasher_start c s w)"
| "sf_step c (s, w) SFStop = Some (SlowFlasher_stop c s w)"
| "sf_step c (s, w) SFFire =
     (case fire_next w of None \<Rightarrow> None | Some (f, w') \<Rightarrow> Some (sf_dispatch c f s w'))"
| "sf_step c (s, w) (SFWait d) =
     (case advance d w of None \<Rightarrow> None | Some w' \<Rightarrow> Some (s, w'))"

inductive sf_reach :: "sf_cfg \<Rightarrow> slow_flasher \<times> world \<Rightarrow> bool" for c where
  sf_init: "sf_reach c (SlowFlasher_new, world0)"
| sf_next: "sf_reach c s \<Longrightarrow> sf_step c s e = Some s' \<Longrightarrow> sf_reach c s'"

text \<open>The stepped animator's invariant: the interval handle names the only live step
  interval, the state-timeout handle the only live \<open>runTransition\<close> timer, which is a
  one-shot; while a ramp runs no \<open>runTransition\<close> timer is live.\<close>

definition sf_inv :: "sf_cfg \<Rightarrow> slow_flasher \<Rightarrow> world \<Rightarrow> bool" where
  "sf_inv c s w \<longleftrightarrow>
     owns (sf_interval s) (SFTransitionStep (sf_channel c)) w \<and>
     set (armed (SFTransitionStep (sf_channel c)) w) \<subseteq> set_option (sf_interval s) \<and>
     owns (sf_stateTimeout s) (SFRunTransition (sf_channel c)) w \<and>
     set (armed (SFRunTransition (sf_channel c)) w) \<subseteq> set_option (sf_stateTimeout s) \<and>
     set (periods (SFRunTransition (sf_channel c)) w) \<subseteq> {None} \<and>
     (sf_interval s \<noteq> None \<longrightarrow> armed (SFRunTransition (sf_channel c)) w = [])"

section \<open>Lemmas on the table\<close>

lemma nat_less_ceiling: "(n < nat \<lceil>x\<rceil>) = (of_nat n < (x :: rat))"
  by (simp add: zless_nat_eq_int_zless less_ceiling_iff)

lemma table_loop_eq:
  "table_loop steps n table = table @ map (table_entry steps) [n..<nat \<lceil>steps\<rceil>]"
proof (induction steps n table rule: table_loop.induct)
  case (1 steps n table)
  show ?case
  proof (cases "of_nat n < steps")
    case True
    then have "[n..<nat \<lceil>steps\<rceil>] = n # [Suc n..<nat \<lceil>steps\<rceil>]"
      by (simp add: upt_conv_Cons nat_less_ceiling)
    with True 1 show ?thesis by (subst table_loop.simps) simp
  next
    case False
    then have "\<not> n < nat \<lceil>steps\<rceil>" by (simp add: nat_less_ceiling)
    then have "[n..<nat \<lceil>steps\<rceil>] = []" by simp
    with False show ?thesis by (subst table_loop.simps) simp
  qed
qed

lemma table_entry_range:
  assumes "0 \<le> x" "x < 1"
  shows "1 \<le> js_round ((x * (8 / 10) + 1 / 10) * 10) \<and> js_round ((x * (8 / 10) + 1 / 10) * 10) \<le> 9"
proof -
  have "(x * (8 / 10) + 1 / 10) * 10 + 1 / 2 = 8 * x + 3 / 2" by (simp add: algebra_simps)
  moreover have "1 \<le> 8 * x + 3 / 2" "8 * x + 3 / 2 < 10" using assms by simp_all
  ultimately show ?thesis by (simp add: js_round_def le_floor_iff floor_le_iff)
qed

lemma ceiling_div_10: "\<lceil>(of_nat d / 10 :: rat)\<rceil> = int ((d + 9) div 10)"
proof (rule ceiling_unique)
  have a: "d \<le> 10 * ((d + 9) div 10)" and b: "10 * ((d + 9) div 10) < d + 10" by presburger+
  from b have "(of_nat (10 * ((d + 9) div 10)) :: rat) < of_nat (d + 10)" by (simp only: of_nat_less_iff)
  then show "of_int (int ((d + 9) div 10)) - 1 < (of_nat d / 10 :: rat)" by (simp add: field_simps)
  from a have "(of_nat d :: rat) \<le> of_nat (10 * ((d + 9) div 10))" by (simp only: of_nat_le_iff)
  then show "(of_nat d / 10 :: rat) \<le> of_int (int ((d + 9) div 10))" by (simp add: field_simps)
qed

lemma table_map:
  "createTransitionTable d = map (table_entry (of_nat d / 10)) [0..<(d + 9) div 10]"
  by (simp add: createTransitionTable_def table_loop_eq ceiling_div_10 PWM_PRECISION_def)

lemma table_entry_mono:
  assumes "0 < steps" "m \<le> n"
  shows "table_entry steps m \<le> table_entry steps n"
proof -
  have "(of_nat m / steps :: rat) \<le> of_nat n / steps" using assms by (intro divide_right_mono) simp_all
  then show ?thesis unfolding table_entry_def js_round_def PWM_PRECISION_def
    by (intro floor_mono add_right_mono mult_right_mono) simp_all
qed

section \<open>Lemmas on the stepped animator\<close>

lemma sf_runTransition_eq:
  "SF_runTransition c s w =
     (s\<lparr>transitionCount := 0, sf_interval := Some (nextId w)\<rparr>,
      snd (setInterval (SFTransitionStep (sf_channel c)) PWM_PRECISION (clearTimeout (sf_interval s) w)))"
  by (cases "sf_interval s") (simp_all add: SF_runTransition_def Let_def prod.case_eq_if clearTimeout_def)

lemma sf_start_eq:
  "SlowFlasher_start c s w =
     SF_runTransition c (s\<lparr>sf_stateTimeout := None, sf_stopFlag := False\<rparr>)
       (clearTimeout (sf_stateTimeout s) (setFlag (sf_channel c) False (channelOff c w)))"
proof (cases "sf_stateTimeout s")
  case None
  then have "s\<lparr>sf_stateTimeout := None\<rparr> = s" by (cases s) simp
  then have "SF_runTransition c (s\<lparr>sf_stateTimeout := None, sf_stopFlag := False\<rparr>) = SF_runTransition c (s\<lparr>sf_stopFlag := False\<rparr>)"
    by (metis (no_types))
  with None show ?thesis by (simp add: SlowFlasher_start_def Let_def clearTimeout_def)
qed (simp add: SlowFlasher_start_def Let_def)

lemma sf_stop_eq:
  "SlowFlasher_stop c s w =
     (if \<not> flag (State w) (sf_channel c)
      then (s\<lparr>sf_stateTimeout := None, sf_stopFlag := True\<rparr>, clearTimeout (sf_stateTimeout s) w)
      else (s\<lparr>sf_stopFlag := True\<rparr>, w))"
proof (cases "sf_stateTimeout s")
  case None
  then have "s\<lparr>sf_stateTimeout := None\<rparr> = s" by (cases s) simp
  then have "s\<lparr>sf_stateTimeout := None, sf_stopFlag := True\<rparr> = s\<lparr>sf_stopFlag := True\<rparr>" by (metis (no_types))
  with None show ?thesis by (simp add: SlowFlasher_stop_def clearTimeout_def)
qed (simp add: SlowFlasher_stop_def)

lemma sf_inv_frame [simp]:
  "sf_inv c s (setFlag p b w) = sf_inv c s w" "sf_inv c s (portOn p w) = sf_inv c s w"
  "sf_inv c s (portOff p w) = sf_inv c s w" "sf_inv c s (channelOn c' w) = sf_inv c s w"
  "sf_inv c s (channelOff c' w) = sf_inv c s w"
  by (simp_all add: sf_inv_def channelOn_def channelOff_def)

lemma wf_channel [intro]: "wf_world w \<Longrightarrow> wf_world (channelOn c w)" "wf_world w \<Longrightarrow> wf_world (channelOff c w)"
  by (auto simp: channelOn_def channelOff_def)

lemma channel_frame [simp]:
  "timers (channelOn c w) = timers w" "nextId (channelOn c w) = nextId w" "State (channelOn c w) = State w"
  "timers (channelOff c w) = timers w" "nextId (channelOff c w) = nextId w" "State (channelOff c w) = State w"
  "armed f (channelOn c w) = armed f w" "armed f (channelOff c w) = armed f w"
  by (simp_all add: channelOn_def channelOff_def)

text \<open>A ramp may start when no \<open>runTransition\<close> timer is live.\<close>

lemma sf_inv_runTransition:
  assumes "wf_world w" "sf_inv c s w" "armed (SFRunTransition (sf_channel c)) w = []"
  shows "wf_world (snd (SF_runTransition c s w)) \<and> sf_inv c (fst (SF_runTransition c s w)) (snd (SF_runTransition c s w))"
proof -
  let ?s = "SFTransitionStep (sf_channel c)"
  let ?w1 = "clearTimeout (sf_interval s) w"
  have "armed ?s ?w1 = []" using assms(2) by (intro armed_clear_own_handle) (simp add: sf_inv_def)
  moreover have "owns (Some (nextId ?w1)) ?s (snd (setInterval ?s PWM_PRECISION ?w1))"
    using assms(1) by (intro owns_fresh) auto
  moreover have "set (periods (SFRunTransition (sf_channel c)) ?w1) \<subseteq> {None}"
    using periods_clearTimeout_sub assms(2) by (fastforce simp: sf_inv_def)
  moreover have "armed (SFRunTransition (sf_channel c)) ?w1 = []" using assms(3) by (cases "sf_interval s") simp_all
  ultimately show ?thesis using assms by (auto simp: sf_runTransition_eq sf_inv_def)
qed

lemma sf_inv_clear_state:
  assumes "sf_inv c s w"
  shows "sf_inv c (s\<lparr>sf_stateTimeout := None, sf_stopFlag := b\<rparr>) (clearTimeout (sf_stateTimeout s) w) \<and>
         armed (SFRunTransition (sf_channel c)) (clearTimeout (sf_stateTimeout s) w) = []"
proof -
  have own: "owns (sf_stateTimeout s) (SFRunTransition (sf_channel c)) w" using assms by (simp add: sf_inv_def)
  have e: "armed (SFRunTransition (sf_channel c)) (clearTimeout (sf_stateTimeout s) w) = []"
    using assms by (intro armed_clear_own_handle) (simp add: sf_inv_def)
  have "armed (SFTransitionStep (sf_channel c)) (clearTimeout (sf_stateTimeout s) w) =
        armed (SFTransitionStep (sf_channel c)) w" using own by (rule armed_clear_owned) simp
  moreover have "set (periods (SFRunTransition (sf_channel c)) (clearTimeout (sf_stateTimeout s) w)) \<subseteq> {None}"
    using periods_clearTimeout_sub assms by (fastforce simp: sf_inv_def)
  ultimately show ?thesis using assms e by (auto simp: sf_inv_def)
qed

lemma sf_inv_start:
  assumes "wf_world w" "sf_inv c s w"
  shows "wf_world (snd (SlowFlasher_start c s w)) \<and> sf_inv c (fst (SlowFlasher_start c s w)) (snd (SlowFlasher_start c s w))"
proof -
  let ?w1 = "setFlag (sf_channel c) False (channelOff c w)"
  have "sf_inv c s ?w1" "wf_world ?w1" using assms by auto
  from sf_inv_clear_state [OF this(1), of False] this(2) show ?thesis
    unfolding sf_start_eq by (intro sf_inv_runTransition) auto
qed

lemma sf_inv_stop:
  assumes "sf_inv c s w"
  shows "sf_inv c (fst (SlowFlasher_stop c s w)) (snd (SlowFlasher_stop c s w))"
  using sf_inv_clear_state [OF assms, of True] assms by (simp add: sf_stop_eq sf_inv_def)


lemma sf_inv_end_clear:
  assumes "wf_world w" "sf_inv c s w" "armed (SFRunTransition (sf_channel c)) w = []"
  shows "sf_inv c (s\<lparr>sf_interval := None\<rparr>) (clearTimeout (sf_interval s) w) \<and>
         sf_inv c (s\<lparr>sf_interval := None, sf_stateTimeout := Some (nextId w)\<rparr>)
           (snd (setTimeout (SFRunTransition (sf_channel c)) d (clearTimeout (sf_interval s) w)))"
proof -
  let ?w3 = "clearTimeout (sf_interval s) w"
  have e: "armed (SFTransitionStep (sf_channel c)) ?w3 = []"
    using assms(2) by (intro armed_clear_own_handle) (simp add: sf_inv_def)
  have r: "armed (SFRunTransition (sf_channel c)) ?w3 = []" using assms(3) by (cases "sf_interval s") simp_all
  have p: "set (periods (SFRunTransition (sf_channel c)) ?w3) \<subseteq> {None}"
    using periods_clearTimeout_sub assms(2) by (fastforce simp: sf_inv_def)
  have "owns (Some (nextId w)) (SFRunTransition (sf_channel c)) (snd (setTimeout (SFRunTransition (sf_channel c)) d ?w3))"
    using owns_fresh(1) [of ?w3] assms(1) by auto
  with e r p assms(2) show ?thesis by (auto simp: sf_inv_def)
qed

lemma sf_inv_tick:
  assumes "wf_world w" "sf_inv c s w" "g \<notin> {SFTransitionStep (sf_channel c), SFRunTransition (sf_channel c)}"
  shows "wf_world (snd (setTimeout g d w)) \<and> sf_inv c s (snd (setTimeout g d w))"
  using assms by (auto simp: sf_inv_def)

lemma sf_inv_transitionStep:
  assumes "wf_world w" "sf_inv c s w" "sf_interval s \<noteq> None"
  shows "wf_world (snd (SF_transitionStep c s w)) \<and>
         sf_inv c (fst (SF_transitionStep c s w)) (snd (SF_transitionStep c s w))"
proof -
  let ?p = "sf_channel c"
  let ?w1 = "if \<not> flag (State w) ?p then channelOn c w else channelOff c w"
  have w1: "wf_world ?w1" "sf_inv c s ?w1" "armed (SFRunTransition ?p) ?w1 = []"
    using assms(1) apply auto[1] using assms(2) apply simp
    using assms(2,3) by (auto simp: sf_inv_def)
  show ?thesis
  proof (cases "transitionCount s < length (transitionTable c)")
    case True
    have "sf_inv c (s\<lparr>transitionCount := n\<rparr>) w' = sf_inv c s w'" for n w' by (simp add: sf_inv_def)
    with True sf_inv_tick [OF w1(1,2)] show ?thesis by (simp add: SF_transitionStep_def Let_def)
  next
    case False
    let ?w2 = "setFlag ?p (\<not> flag (State ?w1) ?p) ?w1"
    have "wf_world ?w2" "sf_inv c s ?w2" "armed (SFRunTransition ?p) ?w2 = []" using w1 by auto
    from sf_inv_end_clear [OF this] this(1) False show ?thesis
      by (auto simp: SF_transitionStep_def Let_def prod.case_eq_if intro!: wf_setTimeout wf_clearTimeout)
  qed
qed

lemma armed_of_timer: "(i, t) \<in> set (timers w) \<Longrightarrow> action t = f \<Longrightarrow> i \<in> set (armed f w)"
  by (force simp: armed_def)

lemma period_of_timer: "(i, t) \<in> set (timers w) \<Longrightarrow> action t = f \<Longrightarrow> period t \<in> set (periods f w)"
  by (force simp: periods_def)

text \<open>Firing keeps the invariant; when the firing timer is the \<open>runTransition\<close> one-shot,
  none is left live.\<close>

lemma sf_inv_after_fire:
  assumes "sf_inv c s w" "(i, t) \<in> set (timers w)"
  shows "sf_inv c s (after_fire i t w) \<and>
         (action t = SFRunTransition (sf_channel c) \<longrightarrow> armed (SFRunTransition (sf_channel c)) (after_fire i t w) = []) \<and>
         (action t = SFTransitionStep (sf_channel c) \<longrightarrow> sf_interval s = Some i)"
proof -
  let ?r = "SFRunTransition (sf_channel c)"
  have sub: "set (armed g (after_fire i t w)) \<subseteq> set (armed g w)" for g by (rule after_fire_armed_sub)
  have r: "armed ?r (after_fire i t w) = []" if "action t = ?r"
  proof -
    have "period t = None" using period_of_timer [OF assms(2) that] assms(1) by (auto simp: sf_inv_def)
    moreover have "set (armed ?r w) \<subseteq> {i}"
      using armed_of_timer [OF assms(2) that] assms(1) by (cases "sf_stateTimeout s") (auto simp: sf_inv_def)
    ultimately show ?thesis by (force simp: after_fire_armed_oneshot filter_empty_conv)
  qed
  have "action t = SFTransitionStep (sf_channel c) \<Longrightarrow> sf_interval s = Some i"
    using armed_of_timer [OF assms(2)] assms(1) by (cases "sf_interval s") (auto simp: sf_inv_def)
  moreover have "sf_inv c s (after_fire i t w)"
    using assms(1) sub [of "SFTransitionStep (sf_channel c)"] sub [of ?r] after_fire_periods_sub [of ?r i t w]
    by (auto simp: sf_inv_def)
  ultimately show ?thesis using r by blast
qed


lemma sf_dispatch_inv:
  assumes "wf_world w" "sf_inv c s w"
    "f = SFTransitionStep (sf_channel c) \<Longrightarrow> sf_interval s \<noteq> None"
    "f = SFRunTransition (sf_channel c) \<Longrightarrow> armed (SFRunTransition (sf_channel c)) w = []"
  shows "wf_world (snd (sf_dispatch c f s w)) \<and> sf_inv c (fst (sf_dispatch c f s w)) (snd (sf_dispatch c f s w))"
  using assms sf_inv_transitionStep [OF assms(1,2)] sf_inv_runTransition [OF assms(1,2)]
  by (auto simp: sf_dispatch_def)

text \<open>Every event of the stepped animator keeps the world well formed and the invariant.\<close>

lemma sf_step_inv:
  assumes "wf_world w" "sf_inv c s w" "sf_step c (s, w) e = Some (s', w')"
  shows "wf_world w' \<and> sf_inv c s' w'"
proof (cases e)
  case SFStart
  with assms sf_inv_start [OF assms(1,2)] show ?thesis by auto
next
  case SFStop
  with assms sf_inv_stop [OF assms(2)] show ?thesis by (auto simp: sf_stop_eq split: if_splits)
next
  case SFFire
  then obtain f w1 where f: "fire_next w = Some (f, w1)" "sf_dispatch c f s w1 = (s', w')"
    using assms(3) by (auto split: option.splits)
  obtain i t where it: "(i, t) \<in> set (timers w)" "action t = f" "w1 = after_fire i t w"
    using f(1) by (auto elim: fire_nextE)
  have "wf_world w1" using fire_wf [OF assms(1) f(1)] .
  moreover note a = sf_inv_after_fire [OF assms(2) it(1)]
  ultimately have "wf_world (snd (sf_dispatch c f s w1)) \<and> sf_inv c (fst (sf_dispatch c f s w1)) (snd (sf_dispatch c f s w1))"
    using it by (intro sf_dispatch_inv) auto
  with f(2) show ?thesis by simp
next
  case (SFWait d)
  then have w': "advance d w = Some w'" "s' = s" using assms(3) by (auto split: option.splits)
  have "armed g w' = armed g w" "periods g w' = periods g w" for g
    using advance_fields [OF w'(1)] by (simp_all add: armed_def periods_def)
  with w' assms(1,2) show ?thesis using advance_fields [OF w'(1)] owns_advance [OF w'(1)]
    by (simp add: wf_world_def sf_inv_def)
qed

lemma sf_inv_new [simp]: "sf_inv c SlowFlasher_new world0"
  by (simp add: sf_inv_def SlowFlasher_new_def armed_def owns_def periods_def)

lemma sf_reach_inv:
  "sf_reach c s \<Longrightarrow> wf_world (snd s) \<and> sf_inv c (fst s) (snd s)"
proof (induction rule: sf_reach.induct)
  case sf_init
  then show ?case by simp
next
  case (sf_next s e s')
  then show ?case using sf_step_inv [of "snd s" c "fst s" e "fst s'" "snd s'"] by simp
qed

subsection \<open>Properties of the stepped animator\<close>

text \<open>C24: The stepped animator keeps the design's hard invariant: in every state it
  reaches on the Node scheduler, at most one ramp interval and at most one hold timer
  (\<open>runTransition\<close>) are live for its channel, each the one the object records, and
  never both at once.\<close>

theorem sf_single_timers:
  assumes "sf_reach c s"
  shows "length (armed (SFTransitionStep (sf_channel c)) (snd s)) \<le> 1 \<and>
         length (armed (SFRunTransition (sf_channel c)) (snd s)) \<le> 1 \<and>
         (armed (SFTransitionStep (sf_channel c)) (snd s) = [] \<or> armed (SFRunTransition (sf_channel c)) (snd s) = [])"
proof -
  from sf_reach_inv [OF assms] have wf: "wf_world (snd s)" and inv: "sf_inv c (fst s) (snd s)" by simp_all
  from inv have "set (armed (SFTransitionStep (sf_channel c)) (snd s)) \<subseteq> set_option (sf_interval (fst s))"
    "set (armed (SFRunTransition (sf_channel c)) (snd s)) \<subseteq> set_option (sf_stateTimeout (fst s))"
    by (simp_all add: sf_inv_def)
  with distinct_sub_option armed_distinct [OF wf] have
    "length (armed (SFTransitionStep (sf_channel c)) (snd s)) \<le> 1"
    "length (armed (SFRunTransition (sf_channel c)) (snd s)) \<le> 1" by blast+
  moreover have "armed (SFTransitionStep (sf_channel c)) (snd s) = [] \<or> armed (SFRunTransition (sf_channel c)) (snd s) = []"
    using inv \<open>set (armed (SFTransitionStep _) _) \<subseteq> _\<close> by (cases "sf_interval (fst s)") (auto simp: sf_inv_def)
  ultimately show ?thesis by simp
qed


subsection \<open>Properties of the table\<close>

text \<open>C25: The table loop terminates and builds exactly the closed formula: entry \<open>n\<close>
  is \<open>round((n / steps * 0.8 + 0.1) * PWM_PRECISION)\<close> for \<open>n\<close> from 0 while
  \<open>n < duration / PWM_PRECISION\<close>, so a table has \<open>\<lceil>duration / 10\<rceil>\<close> entries.\<close>

theorem createTransitionTable_eq:
  "createTransitionTable d = map (table_entry (of_nat d / 10)) [0..<(d + 9) div 10]"
  by (rule table_map)

text \<open>C26: Every on-time in a transition table is between 1 and 9 ms, inside the 10 ms
  PWM window: the channel is never fully on or fully off during a stepped ramp.\<close>

theorem table_entries_range:
  assumes "x \<in> set (createTransitionTable d)"
  shows "1 \<le> x \<and> x \<le> 9"
proof -
  let ?steps = "of_nat d / of_nat PWM_PRECISION :: rat"
  from assms obtain n where n: "n < nat \<lceil>?steps\<rceil>" "x = table_entry ?steps n"
    by (auto simp: createTransitionTable_def table_loop_eq)
  then have lt: "of_nat n < ?steps" by (simp add: nat_less_ceiling)
  then have pos: "0 < ?steps" by (rule le_less_trans [rotated]) simp
  have "0 \<le> of_nat n / ?steps" using pos by simp
  moreover have "of_nat n / ?steps < 1" by (simp only: divide_less_eq_1_pos [OF pos] lt)
  ultimately
  show ?thesis using table_entry_range [of "of_nat n / ?steps"] n(2) by (simp add: table_entry_def PWM_PRECISION_def)
qed

text \<open>C27: The on-times of a table never decrease, so a stepped ramp up gets brighter
  tick by tick (and a ramp down, which uses them as off-times, darker).\<close>

theorem table_sorted: "sorted (createTransitionTable d)"
proof (cases "d = 0")
  case False
  then have pos: "0 < (of_nat d / 10 :: rat)" by simp
  have "mono_on (set [0..<(d + 9) div 10]) (table_entry (of_nat d / 10))"
  proof (rule mono_onI)
    fix r n :: nat
    assume "r \<le> n"
    then show "table_entry (of_nat d / 10) r \<le> table_entry (of_nat d / 10) n" by (rule table_entry_mono [OF pos])
  qed
  then show ?thesis unfolding table_map by (rule sorted_map_mono [OF sorted_upt])
qed (simp add: table_map)

subsection \<open>Witnesses\<close>

lemma sf_reach_started: "sf_reach sf_skull1_cfg (SlowFlasher_start sf_skull1_cfg SlowFlasher_new world0)"
  by (rule sf_next [OF sf_init, of _ SFStart]) simp

lemma sf_single_timers_witness:
  "length (armed (SFTransitionStep LightSkull1) (snd (SlowFlasher_start sf_skull1_cfg SlowFlasher_new world0))) \<le> 1 \<and>
   length (armed (SFRunTransition LightSkull1) (snd (SlowFlasher_start sf_skull1_cfg SlowFlasher_new world0))) \<le> 1"
  using sf_single_timers [OF sf_reach_started] by (simp add: sf_skull1_cfg_def)

lemma table_entries_range_witness:
  "1 \<le> hd (createTransitionTable 10) \<and> hd (createTransitionTable 10) \<le> 9"
proof -
  have "createTransitionTable 10 \<noteq> []"
    by (simp add: createTransitionTable_def PWM_PRECISION_def table_loop.simps)
  then have "hd (createTransitionTable 10) \<in> set (createTransitionTable 10)" by simp
  from table_entries_range [OF this] show ?thesis .
qed

end
