(* ===== verification/Controller.thy ===== *)
theory Controller
  imports Sensors Flasher Animator
begin

text \<open>
  The performance controller and the web API (halloween.js, lines 396--585): the
  closure variables of the main function as a record, \<open>startPerformance\<close>,
  \<open>stopPerformance\<close>, \<open>controlDogSound\<close>, the anonymous timer callbacks (delay end,
  skull start, cool-down end, sensor set-up), the player's \<open>close\<close> handler and the four
  HTTP handlers. The whole program is then one step function \<open>sys_step\<close> over the
  events of its environment (a timer firing, time passing, a pigpio completion, a sensor
  edge, the player exiting, an HTTP request) and its reachable states \<open>sys_reach\<close>.
  \<open>Math.random()\<close> is an argument of the events that may call it; the player process is
  an identifier, spawned by \<open>startPerformance\<close> and closed by an event.
\<close>

section \<open>The controller's variables\<close>

text \<open>The variables of the main function: the three animators, the strobe, the sensor
  array (\<open>null\<close> until the set-up delay), the skull start timeouts, the player process;
  \<open>players\<close> and \<open>nextPid\<close> are the player processes still running (the environment).\<close>

record ctrl =
  sensorsObj :: "watches option"
  flasherObj :: flasher
  dogFlasher :: anim
  skull1Flasher :: anim
  skull2Flasher :: anim
  startFlasher1Timeout :: "timer_id option"
  startFlasher2Timeout :: "timer_id option"
  playerProcess :: "nat option"
  players :: "nat list"
  nextPid :: nat

definition setMode :: "mode \<Rightarrow> world \<Rightarrow> world" where
  "setMode m w = w\<lparr>State := (State w)\<lparr>mode := m\<rparr>\<rparr>"

text \<open>\<open>spawn(SOUND_PLAYER_CMD, ...)\<close>: a new player process. Whether it is muted
  (\<open>IOEnabled.music\<close>) is not modelled.\<close>

definition spawn_player :: "ctrl \<Rightarrow> ctrl" where
  "spawn_player c =
     c\<lparr>playerProcess := Some (nextPid c), players := players c @ [nextPid c], nextPid := Suc (nextPid c)\<rparr>"

text \<open>Method calls on the three animator variables.\<close>

definition on_dog :: "(anim \<Rightarrow> world \<Rightarrow> anim \<times> world) \<Rightarrow> ctrl \<Rightarrow> world \<Rightarrow> ctrl \<times> world" where
  "on_dog g c w = (let (a, w') = g (dogFlasher c) w in (c\<lparr>dogFlasher := a\<rparr>, w'))"

definition on_skull1 :: "(anim \<Rightarrow> world \<Rightarrow> anim \<times> world) \<Rightarrow> ctrl \<Rightarrow> world \<Rightarrow> ctrl \<times> world" where
  "on_skull1 g c w = (let (a, w') = g (skull1Flasher c) w in (c\<lparr>skull1Flasher := a\<rparr>, w'))"

definition on_skull2 :: "(anim \<Rightarrow> world \<Rightarrow> anim \<times> world) \<Rightarrow> ctrl \<Rightarrow> world \<Rightarrow> ctrl \<times> world" where
  "on_skull2 g c w = (let (a, w') = g (skull2Flasher c) w in (c\<lparr>skull2Flasher := a\<rparr>, w'))"

text \<open>The variables' initial values (lines 401--402, 502, 507--546): no sensor array, no
  timeouts, no player; the strobe and the animators freshly constructed.\<close>

definition ctrl0 :: ctrl where
  "ctrl0 = \<lparr>sensorsObj = None, flasherObj = Flasher_new, dogFlasher = SlowFlasherPigpio_new,
            skull1Flasher = SlowFlasherPigpio_new, skull2Flasher = SlowFlasherPigpio_new,
            startFlasher1Timeout = None, startFlasher2Timeout = None, playerProcess = None,
            players = [], nextPid = 0\<rparr>"

section \<open>Starting and stopping a performance (lines 405--499)\<close>

text \<open>\<open>startPerformance(force)\<close>; \<open>r1\<close> and \<open>r2\<close> are the two values of
  \<open>Math.floor(Math.random() * 3000)\<close>.\<close>

definition startPerformance :: "bool \<Rightarrow> nat \<Rightarrow> nat \<Rightarrow> ctrl \<Rightarrow> world \<Rightarrow> ctrl \<times> world" where
  "startPerformance force r1 r2 c w =
     (if force then
        (let w1 = setMode Run w;
             (fl, w2) = Flasher_stop (flasherObj c) w1;
             w3 = setFlag LightNet True (portOn LightNet w2);
             (dog, w4) = SlowFlasherPigpio_start dog_cfg (dogFlasher c) w3;
             (h1, w5) = setTimeout StartSkull1 r1 w4;
             (h2, w6) = setTimeout StartSkull2 r2 w5
         in (spawn_player (c\<lparr>flasherObj := fl, dogFlasher := dog,
                             startFlasher1Timeout := Some h1, startFlasher2Timeout := Some h2\<rparr>), w6))
      else if mode (State w) = Idle then
        (let w1 = setFlag LightNet True (portOn LightNet (setMode Delay w))
         in (c, snd (setTimeout DelayEnd START_DELAY w1)))
      else (c, w))"

definition stopPerformance :: "ctrl \<Rightarrow> world \<Rightarrow> ctrl \<times> world" where
  "stopPerformance c w =
     (let c1 = (if playerProcess c \<noteq> None then c\<lparr>playerProcess := None\<rparr> else c);
          w1 = setFlag LightNet False (portOff LightNet w);
          (fl, w2) = Flasher_start (flasherObj c1) w1;
          (dog, w3) = SlowFlasherPigpio_stop dog_cfg (dogFlasher c1) w2;
          c2 = c1\<lparr>flasherObj := fl, dogFlasher := dog\<rparr>;
          (c3, w4) = (if startFlasher1Timeout c2 \<noteq> None
                      then (c2\<lparr>startFlasher1Timeout := None\<rparr>, clearTimeout (startFlasher1Timeout c2) w3)
                      else on_skull1 (SlowFlasherPigpio_stop skull1_cfg) c2 w3)
      in if startFlasher2Timeout c3 \<noteq> None
         then (c3\<lparr>startFlasher2Timeout := None\<rparr>, clearTimeout (startFlasher2Timeout c3) w4)
         else on_skull2 (SlowFlasherPigpio_stop skull2_cfg) c3 w4)"

definition controlDogSound :: "world \<Rightarrow> world" where
  "controlDogSound w =
     (if flag (State w) LightDog then setFlag SoundDog True (portOn SoundDog w)
      else setFlag SoundDog False (portOff SoundDog w))"

section \<open>Callbacks (lines 417--505)\<close>

text \<open>The player's \<open>close\<close> handler.\<close>

definition player_close :: "nat \<Rightarrow> ctrl \<Rightarrow> world \<Rightarrow> ctrl \<times> world" where
  "player_close pid c w =
     (let (c1, w1) = stopPerformance (c\<lparr>players := remove1 pid (players c), playerProcess := None\<rparr>) w;
          w2 = setMode CoolDown w1
      in (c1, snd (setTimeout CoolDownEnd COOL_DOWN_DURATION w2)))"

text \<open>The delay timer of a sensor-triggered start; \<open>sensors.getState()\<close> on a
  \<open>null\<close> array would throw.\<close>

definition delay_end :: "nat \<Rightarrow> nat \<Rightarrow> ctrl \<Rightarrow> world \<Rightarrow> error + ctrl \<times> world" where
  "delay_end r1 r2 c w =
     (case sensorsObj c of
        None \<Rightarrow> Inl TypeError
      | Some h \<Rightarrow>
          if SensorArray_getState w then Inr (startPerformance True r1 r2 c w)
          else Inr (stopPerformance c (setMode Idle w)))"

definition start_skull1 :: "ctrl \<Rightarrow> world \<Rightarrow> ctrl \<times> world" where
  "start_skull1 c w =
     (let (c1, w1) = on_skull1 (SlowFlasherPigpio_start skull1_cfg) c w
      in (c1\<lparr>startFlasher1Timeout := None\<rparr>, w1))"

definition start_skull2 :: "ctrl \<Rightarrow> world \<Rightarrow> ctrl \<times> world" where
  "start_skull2 c w =
     (let (c1, w1) = on_skull2 (SlowFlasherPigpio_start skull2_cfg) c w
      in (c1\<lparr>startFlasher2Timeout := None\<rparr>, w1))"

definition cool_down_end :: "world \<Rightarrow> world" where
  "cool_down_end w = setMode Idle w"

definition sensor_setup :: "ctrl \<Rightarrow> ctrl" where
  "sensor_setup c = c\<lparr>sensorsObj := Some SensorArray_new\<rparr>"

text \<open>\<open>SensorArray\<close>'s \<open>callback\<close>, run by a watch's timeout: \<open>cb\<close> is
  \<open>startPerformance\<close>, called without \<open>force\<close>.\<close>

definition sensor_callback :: "ctrl \<Rightarrow> world \<Rightarrow> ctrl \<times> world" where
  "sensor_callback c w =
     (if SensorArray_getState w then startPerformance False 0 0 c w else (c, w))"

text \<open>A sensor's edge notification, delivered to its watch once the array exists.\<close>

definition sensor_edge :: "port \<Rightarrow> nat option \<Rightarrow> ctrl \<Rightarrow> world \<Rightarrow> ctrl \<times> world" where
  "sensor_edge s d c w =
     (case sensorsObj c of
        None \<Rightarrow> (c, w)
      | Some h \<Rightarrow> (let (h', w') = SensorWatch_watch s d h w in (c\<lparr>sensorsObj := Some h'\<rparr>, w')))"

section \<open>The web API (lines 557--585)\<close>

text \<open>A request body value, as \<open>bodyParser\<close> produces it.\<close>

datatype json = JString string | JBool bool | JNumber int | JNull

datatype response = RespState state_obj nat | RespOK | NoResponse

text \<open>The property name of each \<open>IOEnabled\<close> key (lines 80--85).\<close>

definition io_name :: "io_key \<Rightarrow> string" where
  "io_name k = (case k of IO_sensor1 \<Rightarrow> ''sensor1'' | IO_sensor2 \<Rightarrow> ''sensor2''
                 | IO_sensor3 \<Rightarrow> ''sensor3'' | IO_music \<Rightarrow> ''music'')"

definition getStatus :: "world \<Rightarrow> response" where
  "getStatus w = RespState (State w) (clock w div 1000)"

definition postStart :: "nat \<Rightarrow> nat \<Rightarrow> ctrl \<Rightarrow> world \<Rightarrow> (ctrl \<times> world) \<times> response" where
  "postStart r1 r2 c w =
     ((if mode (State w) \<noteq> Run then startPerformance True r1 r2 c w else (c, w)), RespOK)"

definition postStop :: "ctrl \<Rightarrow> world \<Rightarrow> (ctrl \<times> world) \<times> response" where
  "postStop c w =
     ((if mode (State w) = Run then (let (c1, w1) = stopPerformance c w in (c1, setMode Idle w1)) else (c, w)),
      RespOK)"

definition postEnabled :: "(string \<times> json) list \<Rightarrow> world \<Rightarrow> world \<times> response" where
  "postEnabled body w =
     (w\<lparr>IOEnabled := fold (\<lambda>(name, k) en. case map_of body name of
                               None \<Rightarrow> en
                             | Some v \<Rightarrow> en(k := (v = JString ''true''))) io_keys (IOEnabled w)\<rparr>,
      NoResponse)"

section \<open>Lemmas\<close>

lemma setMode_fields [simp]:
  "mode (State (setMode m w)) = m" "flag (State (setMode m w)) = flag (State w)"
  "timers (setMode m w) = timers w" "nextId (setMode m w) = nextId w" "clock (setMode m w) = clock w"
  "pins (setMode m w) = pins w" "pending (setMode m w) = pending w" "IOEnabled (setMode m w) = IOEnabled w"
  by (simp_all add: setMode_def)

lemma armed_setMode [simp]: "armed f (setMode m w) = armed f w"
  and dues_setMode [simp]: "dues f (setMode m w) = dues f w"
  by (simp_all add: armed_def dues_def)

text \<open>Starting or stopping the strobe or an animator never changes the mode.\<close>

lemma mode_components [simp]:
  "mode (State (snd (Flasher_start fl w))) = mode (State w)"
  "mode (State (snd (Flasher_stop fl w))) = mode (State w)"
  "mode (State (snd (SlowFlasherPigpio_start cfg a w))) = mode (State w)"
  "mode (State (snd (SlowFlasherPigpio_stop cfg a w))) = mode (State w)"
  by (simp_all add: start_eq stop_eq anim_start_eq anim_stop_eq runTransition_eq)

lemma stopPerformance_mode [simp]: "mode (State (snd (stopPerformance c w))) = mode (State w)"
  by (simp add: stopPerformance_def on_skull1_def on_skull2_def Let_def prod.case_eq_if)

lemma stopPerformance_timers_fields [simp]:
  "clock (snd (stopPerformance c w)) = clock w" "players (fst (stopPerformance c w)) = players c"
  "playerProcess (fst (stopPerformance c w)) = None"
  by (simp_all add: stopPerformance_def on_skull1_def on_skull2_def Let_def prod.case_eq_if
        start_eq stop_eq anim_stop_eq)

lemma stopPerformance_pins_net [simp]:
  "pins (snd (stopPerformance c w)) LightNet = off_level LightNet"
  "flag (State (snd (stopPerformance c w))) LightNet = False"
  by (simp_all add: stopPerformance_def on_skull1_def on_skull2_def Let_def prod.case_eq_if
        start_eq stop_eq anim_stop_eq off_level_def)

lemma startPerformance_force_fields:
  "mode (State (snd (startPerformance True r1 r2 c w))) = Run"
  "players (fst (startPerformance True r1 r2 c w)) = players c @ [nextPid c]"
  "playerProcess (fst (startPerformance True r1 r2 c w)) = Some (nextPid c)"
  by (simp_all add: startPerformance_def spawn_player_def Let_def prod.case_eq_if stop_eq anim_start_eq runTransition_eq)

lemma exit_cleanup_pins:
  "pins (fold (\<lambda>p w. if port_dir p = Out then w\<lparr>pins := (pins w)(p := off_level p)\<rparr> else w) ps w) q =
     (if q \<in> set ps \<and> port_dir q = Out then off_level q else pins w q)"
  by (induction ps arbitrary: w) auto

section \<open>Properties of the controller\<close>

text \<open>C31: \<open>postEnabled\<close> sets each feature present in the body to whether its value is
  the string \<open>'true'\<close> and leaves the others; a value that is not that string, a JSON
  \<open>true\<close> included, disables the feature, and no response is ever sent.\<close>

theorem postEnabled_spec:
  "IOEnabled (fst (postEnabled body w)) k =
     (case map_of body (io_name k) of None \<Rightarrow> IOEnabled w k | Some v \<Rightarrow> v = JString ''true'') \<and>
   snd (postEnabled body w) = NoResponse"
  by (cases k) (simp_all add: postEnabled_def io_keys_def io_name_def split: option.splits)

text \<open>C32: \<open>stop\<close> does not bypass the cool-down: \<open>postStop\<close> during a performance sets
  the mode to idle, but the player it asks to quit then exits, and its \<open>close\<close> handler
  sets the mode to cool-down and arms a new 90 s cool-down timer.\<close>

theorem postStop_then_close:
  assumes "mode (State w) = Run" "fst (postStop c w) = (c1, w1)"
  shows "mode (State w1) = Idle \<and> mode (State (snd (player_close pid c1 w1))) = CoolDown \<and>
         clock w + COOL_DOWN_DURATION \<in> set (dues CoolDownEnd (snd (player_close pid c1 w1)))"
proof -
  obtain c0 w0 where s: "stopPerformance c w = (c0, w0)" by (cases "stopPerformance c w")
  then have "w1 = setMode Idle w0" "clock w0 = clock w" using assms stopPerformance_timers_fields(1) [of c w]
    by (simp_all add: postStop_def)
  then show ?thesis using assms s stopPerformance_timers_fields(1) [of _ w1]
    by (auto simp: postStop_def player_close_def Let_def prod.case_eq_if COOL_DOWN_DURATION_def node_delay_def)
qed

text \<open>C33: A pre-roll delay that ends with presence lost aborts: the mode returns to idle,
  the area light is switched off and \<open>State.lightNet\<close> cleared, and no player is
  spawned.\<close>

theorem delay_end_abort:
  assumes "sensorsObj c \<noteq> None" "\<not> SensorArray_getState w"
  shows "\<exists>c' w'. delay_end r1 r2 c w = Inr (c', w') \<and> mode (State w') = Idle \<and>
           pins w' LightNet = off_level LightNet \<and> \<not> flag (State w') LightNet \<and> players c' = players c"
proof -
  let ?r = "stopPerformance c (setMode Idle w)"
  have "delay_end r1 r2 c w = Inr (fst ?r, snd ?r)" using assms by (auto simp: delay_end_def)
  then show ?thesis by (intro exI [of _ "fst ?r"] exI [of _ "snd ?r"]) simp
qed

text \<open>The pre-roll timer is never cancelled: if it ends while a performance forced
  in the meantime is running, with presence, \<open>startPerformance(true)\<close> runs again and
  spawns a second player while the first one is still playing.\<close>

theorem delay_end_restart:
  assumes "sensorsObj c \<noteq> None" "SensorArray_getState w" "playerProcess c = Some p" "p \<in> set (players c)"
  shows "\<exists>c' w'. delay_end r1 r2 c w = Inr (c', w') \<and> mode (State w') = Run \<and>
           players c' = players c @ [nextPid c] \<and> p \<in> set (players c') \<and> playerProcess c' = Some (nextPid c)"
proof -
  let ?r = "startPerformance True r1 r2 c w"
  have "delay_end r1 r2 c w = Inr (fst ?r, snd ?r)" using assms by (auto simp: delay_end_def)
  with assms(4) show ?thesis using startPerformance_force_fields [of r1 r2 c w]
    by (intro exI [of _ "fst ?r"] exI [of _ "snd ?r"]) simp
qed

text \<open>C34: On exit every output port is driven to its off level (the inverted area light
  to 1, every other output to 0); inputs are left alone.\<close>

theorem exit_cleanup_safe:
  "pins (exit_cleanup w) p = (if port_dir p = Out then off_level p else pins w p)"
proof -
  have "p \<in> set all_ports" by (cases p) (simp_all add: all_ports_def Ports_def)
  then show ?thesis by (simp add: exit_cleanup_def exit_cleanup_pins)
qed


subsection \<open>Witnesses\<close>

lemma postStop_then_close_witness:
  "mode (State (snd (fst (postStop ctrl0 (setMode Run world0))))) = Idle \<and>
   mode (State (snd (player_close 0 (fst (fst (postStop ctrl0 (setMode Run world0))))
                                    (snd (fst (postStop ctrl0 (setMode Run world0))))))) = CoolDown"
  using postStop_then_close [of "setMode Run world0" ctrl0 "fst (fst (postStop ctrl0 (setMode Run world0)))"
      "snd (fst (postStop ctrl0 (setMode Run world0)))" 0]
  by simp

lemma delay_end_abort_witness:
  "\<exists>c' w'. delay_end 0 0 (sensor_setup ctrl0) world0 = Inr (c', w') \<and> mode (State w') = Idle \<and>
     pins w' LightNet = off_level LightNet \<and> \<not> flag (State w') LightNet \<and> players c' = []"
  using delay_end_abort [of "sensor_setup ctrl0" world0 0 0]
  by (simp add: sensor_setup_def ctrl0_def SensorArray_getState_def SensorWatch_getState_def)

lemma delay_end_restart_witness:
  "\<exists>c' w'. delay_end 0 0 ((sensor_setup ctrl0)\<lparr>playerProcess := Some 0, players := [0], nextPid := 1\<rparr>)
       (setFlag Sensor1 True world0) = Inr (c', w') \<and> mode (State w') = Run \<and>
     players c' = [0, 1] \<and> 0 \<in> set (players c') \<and> playerProcess c' = Some 1"
  using delay_end_restart [of "(sensor_setup ctrl0)\<lparr>playerProcess := Some 0, players := [0], nextPid := 1\<rparr>"
      "setFlag Sensor1 True world0" 0 0 0]
  by (simp add: sensor_setup_def ctrl0_def SensorArray_getState_def SensorWatch_getState_def IOEnabled0_def)

end
