(* ===== verification/System.thy ===== *)
theory System
  imports Controller
begin

text \<open>
  The whole program on the Node event loop: the start-up of the main function
  (lines 396--548), the dispatch of every timer closure to the component that armed it,
  the pigpio completions, sensor edges, the player's exit and the HTTP requests as the
  events of one step function \<open>sys_step\<close>, and the reachable states \<open>sys_reach\<close>.
\<close>

section \<open>Start-up (lines 396--548)\<close>

text \<open>\<open>init()\<close> (in \<open>world0\<close>), \<open>State.mode = 'idle'\<close>, the sensor set-up timeout, and
  \<open>flasher.start()\<close>; the animators' constructors arm nothing.\<close>

definition sys0 :: "ctrl \<times> world" where
  "sys0 =
     (let w1 = setMode Idle world0;
          w2 = snd (setTimeout SensorSetup SENSOR_SETUP_TIME w1);
          (fl, w3) = Flasher_start (flasherObj ctrl0) w2
      in (ctrl0\<lparr>flasherObj := fl\<rparr>, w3))"

section \<open>Dispatch\<close>

text \<open>A pigpio animator's closures and completion run on the animator of their port.\<close>

definition on_anim :: "port \<Rightarrow> (anim_cfg \<Rightarrow> anim \<Rightarrow> world \<Rightarrow> anim \<times> world) \<Rightarrow> ctrl \<Rightarrow> world \<Rightarrow> ctrl \<times> world" where
  "on_anim p g c w =
     (if p = LightDog then on_dog (g dog_cfg) c w
      else if p = LightSkull1 then on_skull1 (g skull1_cfg) c w
      else if p = LightSkull2 then on_skull2 (g skull2_cfg) c w
      else (c, w))"

definition on_flasher :: "(flasher \<Rightarrow> world \<Rightarrow> error + flasher \<times> world) \<Rightarrow> ctrl \<Rightarrow> world \<Rightarrow> error + ctrl \<times> world" where
  "on_flasher g c w =
     (case g (flasherObj c) w of Inl e \<Rightarrow> Inl e | Inr (fl, w') \<Rightarrow> Inr (c\<lparr>flasherObj := fl\<rparr>, w'))"

definition sys_dispatch :: "cb \<Rightarrow> nat \<Rightarrow> nat \<Rightarrow> ctrl \<Rightarrow> world \<Rightarrow> error + ctrl \<times> world" where
  "sys_dispatch f r1 r2 c w =
     (case f of
        SensorTimeout s \<Rightarrow> Inr (sensor_callback c w)
      | FlashOn \<Rightarrow> on_flasher (strobe_dispatch FlashOn) c w
      | FlashOff \<Rightarrow> on_flasher (strobe_dispatch FlashOff) c w
      | SPTransitionStep p \<Rightarrow> Inr (on_anim p (\<lambda>cfg. anim_dispatch cfg f) c w)
      | SPRunTransition p \<Rightarrow> Inr (on_anim p (\<lambda>cfg. anim_dispatch cfg f) c w)
      | StartSkull1 \<Rightarrow> Inr (start_skull1 c w)
      | StartSkull2 \<Rightarrow> Inr (start_skull2 c w)
      | DelayEnd \<Rightarrow> delay_end r1 r2 c w
      | CoolDownEnd \<Rightarrow> Inr (c, cool_down_end w)
      | SensorSetup \<Rightarrow> Inr (sensor_setup c, w)
      | _ \<Rightarrow> Inr (c, w))"

section \<open>The program's environment\<close>

text \<open>The events: the next timer fires (with the values \<open>Math.random()\<close> would give,
  below 3000 after scaling), time passes, the \<open>i\<close>-th pigpio command completes or fails
  to open the daemon's pipe, a sensor reports an edge, a player process exits, an HTTP
  request arrives.\<close>

datatype sys_event =
    SysFire nat nat | SysWait nat | SysAck nat bool | SysPipeFail nat | SysEdge port "nat option"
  | SysPlayerClose nat | SysGetStatus | SysPostStart nat nat | SysPostStop
  | SysPostEnabled "(string \<times> json) list"

fun sys_step :: "ctrl \<times> world \<Rightarrow> sys_event \<Rightarrow> (error + ctrl \<times> world) option" where
  "sys_step (c, w) (SysFire r1 r2) =
     (if r1 < 3000 \<and> r2 < 3000 then
        (case fire_next w of None \<Rightarrow> None | Some (f, w') \<Rightarrow> Some (sys_dispatch f r1 r2 c w'))
      else None)"
| "sys_step (c, w) (SysWait d) =
     (case advance d w of None \<Rightarrow> None | Some w' \<Rightarrow> Some (Inr (c, w')))"
| "sys_step (c, w) (SysAck i err) =
     (case pigpio_done i w of
        None \<Rightarrow> None
      | Some ((p, cb), w') \<Rightarrow>
          Some (Inr (if cb then on_anim p (\<lambda>cfg. endTansition cfg err) c w' else (c, w'))))"
| "sys_step (c, w) (SysPipeFail i) = map_option Inl (pigpio_open_failed i w)"
| "sys_step (c, w) (SysEdge s d) =
     (if s \<in> set sensors then Some (Inr (sensor_edge s d c w)) else None)"
| "sys_step (c, w) (SysPlayerClose pid) =
     (if pid \<in> set (players c) then Some (Inr (player_close pid c w)) else None)"
| "sys_step (c, w) SysGetStatus = Some (Inr (c, w))"
| "sys_step (c, w) (SysPostStart r1 r2) =
     (if r1 < 3000 \<and> r2 < 3000 then Some (Inr (fst (postStart r1 r2 c w))) else None)"
| "sys_step (c, w) SysPostStop = Some (Inr (fst (postStop c w)))"
| "sys_step (c, w) (SysPostEnabled body) = Some (Inr (c, fst (postEnabled body w)))"

inductive sys_reach :: "ctrl \<times> world \<Rightarrow> bool" where
  sys_init: "sys_reach sys0"
| sys_next: "sys_reach s \<Longrightarrow> sys_step s e = Some (Inr s') \<Longrightarrow> sys_reach s'"

text \<open>A run: events applied in order, \<open>None\<close> when one cannot happen or throws.\<close>

fun sys_run :: "ctrl \<times> world \<Rightarrow> sys_event list \<Rightarrow> (ctrl \<times> world) option" where
  "sys_run s [] = Some s"
| "sys_run s (e # es) = (case sys_step s e of Some (Inr s') \<Rightarrow> sys_run s' es | _ \<Rightarrow> None)"

section \<open>Lemmas\<close>

lemma sys_run_reach: "sys_reach s \<Longrightarrow> sys_run s es = Some s' \<Longrightarrow> sys_reach s'"
proof (induction es arbitrary: s)
  case Nil
  then show ?case by simp
next
  case (Cons e es)
  then obtain s1 where "sys_step s e = Some (Inr s1)" "sys_run s1 es = Some s'"
    by (auto split: option.splits sum.splits)
  with Cons.prems(1) show ?case by (intro Cons.IH [of s1]) (auto intro: sys_next)
qed

lemma sys_run_append:
  "sys_run s (es1 @ es2) = (case sys_run s es1 of None \<Rightarrow> None | Some s1 \<Rightarrow> sys_run s1 es2)"
  by (induction es1 arbitrary: s) (auto split: option.splits sum.splits)

lemmas sys_eval_defs = sys0_def ctrl0_def setMode_def world0_defs Flasher_new_def start_eq stop_eq
  timer_defs node_delay_def config_defs fire_next_def next_timer_def after_fire_def
  strobe_dispatch_def flashOn_def flashOff_def flash_port_def js_string_of_int_def digit_chars_def
  portOn_def portOff_def setFlag_def sensor_setup_def SensorArray_new_def sensor_edge_def watch_cases
  sensor_callback_def SensorArray_getState_def SensorWatch_getState_def startPerformance_def
  delay_end_def spawn_player_def armed_def replicate_numeral_unfold on_flasher_def sys_dispatch_def
  edge_active_def sensors_def postStart_def player_close_def stopPerformance_def on_skull1_def
  on_skull2_def on_dog_def anim_start_eq anim_stop_eq runTransition_eq SlowFlasherPigpio_new_def
  dog_cfg_def skull1_cfg_def skull2_cfg_def curtime_def cool_down_end_def

section \<open>Properties of the whole program\<close>

text \<open>The end-to-end sensor scenario, a trace of the program backing the finding on the
  sensor-to-run delay. The sensor array exists from 30 s; a rising edge
  of sensor 1 at 30.5 s does not trigger at once: the mode stays idle until the watch's
  5 s timeout, becomes \<open>delay\<close> at 35.5 s with the area light on and the strobe still
  armed, and \<open>run\<close> at 39.5 s with one player: 9 s after the edge, not the 4 s of the
  pre-roll delay.\<close>

theorem sensor_start_trace:
  "\<exists>s1 s2. sys_run sys0 (replicate 31 (SysFire 0 0) @ [SysEdge Sensor1 (Some 1)] @ replicate 5 (SysFire 0 0)) = Some s1 \<and>
     clock (snd s1) = 35500 \<and> mode (State (snd s1)) = Delay \<and> pins (snd s1) LightNet = Level 0 \<and>
     armed FlashOn (snd s1) \<noteq> [] \<and>
     sys_run s1 (replicate 5 (SysFire 0 0)) = Some s2 \<and> sys_reach s2 \<and>
     clock (snd s2) = 39500 \<and> mode (State (snd s2)) = Run \<and> players (fst s2) = [0]"
proof -
  let ?es1 = "replicate 31 (SysFire 0 0) @ [SysEdge Sensor1 (Some 1)] @ replicate 5 (SysFire 0 0)"
  let ?es2 = "replicate 5 (SysFire 0 0) :: sys_event list"
  obtain s1 where s1: "sys_run sys0 ?es1 = Some s1"
    "clock (snd s1) = 35500" "mode (State (snd s1)) = Delay" "pins (snd s1) LightNet = Level 0"
    "armed FlashOn (snd s1) \<noteq> []"
    by (simp add: sys_eval_defs)
  moreover obtain s2 where s2: "sys_run sys0 (?es1 @ ?es2) = Some s2"
    "clock (snd s2) = 39500" "mode (State (snd s2)) = Run" "players (fst s2) = [0]"
    by (simp add: sys_eval_defs)
  moreover have r: "sys_run s1 ?es2 = Some s2"
  proof -
    have "sys_run sys0 (?es1 @ ?es2) = sys_run s1 ?es2" by (subst sys_run_append) (simp only: s1(1) option.simps)
    with s2(1) show ?thesis by simp
  qed
  moreover have "sys_reach s2" using sys_run_reach [OF sys_init s2(1)] .
  ultimately show ?thesis by blast
qed

text \<open>C28: A forced start during the pre-roll delay does not cancel the delay timer: a state
  is reachable in which a performance runs with its player and presence holds while the
  \<open>DelayEnd\<close> timer is still live; when it fires, \<open>delay_end\<close> starts the performance
  again and spawns a second player while the first is still playing.\<close>

theorem force_start_keeps_delay:
  "\<exists>s c' w'. sys_reach s \<and> mode (State (snd s)) = Run \<and> armed DelayEnd (snd s) \<noteq> [] \<and>
     playerProcess (fst s) = Some 0 \<and> SensorArray_getState (snd s) \<and>
     delay_end 0 0 (fst s) (snd s) = Inr (c', w') \<and> players c' = [0, 1]"
proof -
  obtain s where s: "sys_run sys0 (replicate 31 (SysFire 0 0) @ [SysEdge Sensor1 (Some 1)] @
                      replicate 5 (SysFire 0 0) @ [SysPostStart 2999 2999]) = Some s"
    "mode (State (snd s)) = Run" "armed DelayEnd (snd s) \<noteq> []" "playerProcess (fst s) = Some 0"
    "SensorArray_getState (snd s)" "players (fst s) = [0]" "nextPid (fst s) = 1" "sensorsObj (fst s) \<noteq> None"
    by (simp add: sys_eval_defs)
  have "sys_reach s" using sys_run_reach [OF sys_init s(1)] .
  moreover obtain c' w' where d: "delay_end 0 0 (fst s) (snd s) = Inr (c', w')"
    "players c' = players (fst s) @ [nextPid (fst s)]"
  proof -
    let ?r = "startPerformance True 0 0 (fst s) (snd s)"
    have "delay_end 0 0 (fst s) (snd s) = Inr (fst ?r, snd ?r)" using s(5,8) by (auto simp: delay_end_def)
    with startPerformance_force_fields(2) [of 0 0 "fst s" "snd s"] that show ?thesis by blast
  qed
  moreover have "players c' = [0, 1]" using d(2) s(6,7) by simp
  ultimately show ?thesis using s(2-5) by blast
qed

text \<open>C30: A cool-down timer is never cancelled either: after a player exits, a forced
  start from cool-down runs a performance while the old \<open>CoolDownEnd\<close> timer is live,
  and that timer sets the mode to idle in the middle of the performance.\<close>

theorem stale_cooldown:
  "\<exists>s. sys_reach s \<and> mode (State (snd s)) = Run \<and> armed CoolDownEnd (snd s) \<noteq> [] \<and>
     playerProcess (fst s) \<noteq> None \<and> mode (State (cool_down_end (snd s))) = Idle"
proof -
  obtain s where s: "sys_run sys0 [SysPostStart 0 0, SysPlayerClose 0, SysPostStart 0 0] = Some s"
    "mode (State (snd s)) = Run" "armed CoolDownEnd (snd s) \<noteq> []" "playerProcess (fst s) \<noteq> None"
    by (simp add: sys_eval_defs)
  have "sys_reach s" using sys_run_reach [OF sys_init s(1)] .
  with s(2-4) show ?thesis by (intro exI [of _ s]) (simp add: cool_down_end_def)
qed

text \<open>C29: The stale pre-roll timer also aborts a forced performance: if presence is lost
  after a forced start during the pre-roll delay, the still-live \<open>DelayEnd\<close> timer runs
  \<open>delay_end\<close>, which sets the mode to idle and stops the performance although it is
  running; its player has been told to quit, and its exit will later set cool-down.\<close>

theorem stale_delay_aborts_run:
  "\<exists>s c' w'. sys_reach s \<and> mode (State (snd s)) = Run \<and> armed DelayEnd (snd s) \<noteq> [] \<and>
     \<not> SensorArray_getState (snd s) \<and> players (fst s) = [0] \<and>
     delay_end 0 0 (fst s) (snd s) = Inr (c', w') \<and> mode (State w') = Idle \<and>
     playerProcess c' = None \<and> players c' = [0]"
proof -
  obtain s where s: "sys_run sys0 (replicate 31 (SysFire 0 0) @ [SysEdge Sensor1 (Some 1)] @
                      replicate 5 (SysFire 0 0) @ [SysPostStart 2999 2999, SysEdge Sensor1 (Some 0)]) = Some s"
    "mode (State (snd s)) = Run" "armed DelayEnd (snd s) \<noteq> []" "\<not> SensorArray_getState (snd s)"
    "players (fst s) = [0]" "sensorsObj (fst s) \<noteq> None"
    by (simp add: sys_eval_defs)
  have "sys_reach s" using sys_run_reach [OF sys_init s(1)] .
  moreover have "delay_end 0 0 (fst s) (snd s) =
                   Inr (fst (stopPerformance (fst s) (setMode Idle (snd s))), snd (stopPerformance (fst s) (setMode Idle (snd s))))"
    using s(4,6) by (auto simp: delay_end_def)
  ultimately show ?thesis using s(2-5)
    by (intro exI [of _ s] exI [of _ "fst (stopPerformance (fst s) (setMode Idle (snd s)))"]
        exI [of _ "snd (stopPerformance (fst s) (setMode Idle (snd s)))"]) simp
qed

text \<open>A trace backing the finding on pipe failures: a state is reachable in which a
  performance runs, the area light is on and a PWM command is in flight, and the failure
  of that command's pipe open ends the process there with \<open>process.exit(1)\<close>; the SIGINT
  handler \<open>exit\<close>, which drives the outputs to their off levels, is not on this path.\<close>

theorem pipe_failure_no_cleanup:
  "\<exists>s. sys_reach s \<and> mode (State (snd s)) = Run \<and> pins (snd s) LightNet \<noteq> off_level LightNet \<and>
       pending (snd s) \<noteq> [] \<and> sys_step s (SysPipeFail 0) = Some (Inl PipeExit)"
proof -
  obtain s where s: "sys_run sys0 [SysPostStart 0 0, SysFire 0 0, SysFire 0 0, SysFire 0 0] = Some s"
    "mode (State (snd s)) = Run" "pins (snd s) LightNet \<noteq> off_level LightNet" "pending (snd s) \<noteq> []"
    by (simp add: sys_eval_defs anim_eval_defs on_anim_def off_level_def start_skull1_def start_skull2_def)
  have "sys_reach s" using sys_run_reach [OF sys_init s(1)] .
  moreover have "sys_step s (SysPipeFail 0) = Some (Inl PipeExit)"
    using s(4) by (cases s) (simp add: pigpio_open_failed_def)
  ultimately show ?thesis using s(2-4) by blast
qed

end
