(* ===== verification/Frames.thy ===== *)
theory Frames
  imports Runtime
begin

text \<open>
  The interface through which the components' invariants are composed. A component's
  invariant reads only the timers of its own closures, a few ports, and the handles it
  keeps; \<open>frame_for F P w w'\<close> says that a step from \<open>w\<close> to \<open>w'\<close> leaves the timers of
  the closures in \<open>F\<close> and the pins and \<open>State\<close> flags of the ports in \<open>P\<close> alone, and only
  extends the timer store (\<open>store_ext\<close>: the clock and the next handle do not go back, and
  a live timer is either new or was live with the same closure). Every operation of the
  program is shown to be a frame for everything it does not own; an invariant stable
  under the frames of the others is then kept by the whole program.
\<close>

definition own_timers :: "cb \<Rightarrow> world \<Rightarrow> (timer_id \<times> timer) list" where
  "own_timers f w = filter (\<lambda>(_, t). action t = f) (timers w)"

definition store_ext :: "world \<Rightarrow> world \<Rightarrow> bool" where
  "store_ext w w' \<longleftrightarrow> nextId w \<le> nextId w' \<and> clock w \<le> clock w' \<and>
     (\<forall>x \<in> set (timers w'). nextId w \<le> fst x \<or>
        (\<exists>y \<in> set (timers w). fst y = fst x \<and> action (snd y) = action (snd x)))"

definition frame_for :: "cb set \<Rightarrow> port set \<Rightarrow> world \<Rightarrow> world \<Rightarrow> bool" where
  "frame_for F P w w' \<longleftrightarrow> store_ext w w' \<and> (\<forall>f \<in> F. own_timers f w' = own_timers f w) \<and>
     (\<forall>p \<in> P. pins w' p = pins w p \<and> flag (State w') p = flag (State w) p)"

section \<open>Lemmas\<close>

lemma own_timers_views:
  assumes "own_timers f w' = own_timers f w"
  shows "armed f w' = armed f w" "dues f w' = dues f w" "periods f w' = periods f w"
  using assms by (simp_all add: own_timers_def armed_def dues_def periods_def)

lemma store_ext_refl [simp]: "store_ext w w"
  by (auto simp: store_ext_def)

lemma store_ext_trans: "store_ext w1 w2 \<Longrightarrow> store_ext w2 w3 \<Longrightarrow> store_ext w1 w3"
  unfolding store_ext_def by (fastforce dest: bspec)

lemma owns_store_ext:
  assumes "owns h f w" "store_ext w w'"
  shows "owns h f w'"
proof -
  have "i < nextId w' \<and> (\<forall>g. i \<in> set (armed g w') \<longrightarrow> g = f)" if h: "h = Some i" for i
  proof -
    have i: "i < nextId w" "\<forall>g. i \<in> set (armed g w) \<longrightarrow> g = f" using assms(1) h by (auto simp: owns_def)
    have "g = f" if "i \<in> set (armed g w')" for g
    proof -
      have "\<exists>t. (i, t) \<in> set (timers w') \<and> action t = g" using that by (auto simp: armed_def)
      then obtain t where t: "(i, t) \<in> set (timers w')" "action t = g" by blast
      with assms(2) i(1) obtain y where "y \<in> set (timers w)" "fst y = i" "action (snd y) = g"
        by (fastforce simp: store_ext_def)
      then have "i \<in> set (armed g w)" by (force simp: armed_def)
      with i(2) show "g = f" by blast
    qed
    with i(1) assms(2) show ?thesis by (auto simp: store_ext_def)
  qed
  then show ?thesis by (simp add: owns_def)
qed

lemma frame_refl [simp]: "frame_for F P w w"
  by (simp add: frame_for_def)

lemma frame_trans: "frame_for F P w1 w2 \<Longrightarrow> frame_for F P w2 w3 \<Longrightarrow> frame_for F P w1 w3"
  by (auto simp: frame_for_def intro: store_ext_trans)

lemma frame_mono: "frame_for F P w w' \<Longrightarrow> F' \<subseteq> F \<Longrightarrow> P' \<subseteq> P \<Longrightarrow> frame_for F' P' w w'"
  unfolding frame_for_def by (meson subsetD)

lemma frame_store_ext: "frame_for F P w w' \<Longrightarrow> store_ext w w'"
  by (simp add: frame_for_def)

lemma frame_owns: "frame_for F P w w' \<Longrightarrow> owns h f w \<Longrightarrow> owns h f w'"
  by (auto simp: frame_for_def intro: owns_store_ext)

lemma frame_views:
  assumes "frame_for F P w w'" "f \<in> F"
  shows "armed f w' = armed f w" "dues f w' = dues f w" "periods f w' = periods f w"
proof -
  have "own_timers f w' = own_timers f w" using assms by (simp add: frame_for_def)
  from own_timers_views [OF this] show "armed f w' = armed f w" "dues f w' = dues f w" "periods f w' = periods f w"
    by simp_all
qed

lemma frame_pins:
  "frame_for F P w w' \<Longrightarrow> p \<in> P \<Longrightarrow> pins w' p = pins w p \<and> flag (State w') p = flag (State w) p"
  by (simp add: frame_for_def)

subsection \<open>The frames of the basic operations\<close>

lemma store_ext_same_timers:
  "timers w' = timers w \<Longrightarrow> nextId w \<le> nextId w' \<Longrightarrow> clock w \<le> clock w' \<Longrightarrow> store_ext w w'"
  by (force simp: store_ext_def)

lemma frame_outputs:
  "frame_for UNIV (- {p}) w (setFlag p b w)" "frame_for UNIV (- {p}) w (portOn p w)"
  "frame_for UNIV (- {p}) w (portOff p w)" "frame_for UNIV (- {p}) w (portPWM p v h w)"
  by (auto simp: frame_for_def own_timers_def intro: store_ext_same_timers)

lemma frame_setTimeout: "frame_for (- {g}) UNIV w (snd (setTimeout g d w))"
  and frame_setInterval: "frame_for (- {g}) UNIV w (snd (setInterval g d w))"
  by (auto simp: frame_for_def own_timers_def store_ext_def timer_defs)

lemma frame_clearTimeout:
  assumes "owns h g w"
  shows "frame_for (- {g}) UNIV w (clearTimeout h w)"
proof -
  have "store_ext w (clearTimeout h w)" by (cases h) (force simp: store_ext_def clearTimeout_def)+
  moreover have "own_timers f (clearTimeout h w) = own_timers f w" if "f \<noteq> g" for f
  proof (cases h)
    case (Some i)
    with assms that have "i \<notin> set (armed f w)" by (auto simp: owns_def)
    then show ?thesis
      using Some by (simp add: own_timers_def armed_def clearTimeout_def filter_action_absent del: filter_filter)
  qed (simp add: clearTimeout_def)
  ultimately show ?thesis by (simp add: frame_for_def)
qed

lemma frame_advance: "advance d w = Some w' \<Longrightarrow> frame_for UNIV UNIV w w'"
  using advance_fields [of d w w'] by (auto simp: frame_for_def own_timers_def intro: store_ext_same_timers)

lemma frame_after_fire:
  assumes "wf_world w" "(i, t) \<in> set (timers w)"
  shows "frame_for (- {action t}) UNIV w (after_fire i t w)"
proof -
  have d: "distinct (map fst (timers w))" using assms(1) by (simp add: wf_world_def)
  have "own_timers f (after_fire i t w) = own_timers f w" if "f \<noteq> action t" for f
    using filter_other_remove [OF d assms(2) not_sym [OF that]] filter_other_retime [OF d assms(2) not_sym [OF that]]
    by (cases "period t") (simp_all add: own_timers_def after_fire_def Let_def del: filter_filter)
  moreover have "\<exists>y \<in> set (timers w). fst y = fst x \<and> action (snd y) = action (snd x)"
    if "x \<in> set (timers (after_fire i t w))" for x
  proof (cases "period t")
    case None
    with that show ?thesis by (auto simp: after_fire_def Let_def)
  next
    case (Some p)
    with that obtain j u where "(j, u) \<in> set (timers w)"
      "x = (if j = i then (j, u\<lparr>due := max (clock w) (due t) + p\<rparr>) else (j, u))"
      by (auto simp: after_fire_def Let_def)
    then show ?thesis by (intro bexI [of _ "(j, u)"]) auto
  qed
  then have "store_ext w (after_fire i t w)" unfolding store_ext_def by simp
  ultimately show ?thesis by (simp add: frame_for_def)
qed

end
