(* ===== verification/Invariant.thy ===== *)
theory Invariant
  imports System Frames
begin

text \<open>
  The components' invariants composed into one invariant of the whole program,
  \<open>sys_inv\<close>: the world is well formed, the strobe keeps \<open>flash_inv\<close>, each of the three
  pigpio animators keeps \<open>anim_inv\<close>, the skull start handles own their closures, and the
  sensor array's handles own the sensor timeouts (before the array exists, no sensor
  timeout and no pre-roll timer is live). Each component's invariant is stable under a
  frame for its own closures and ports (section \<open>Stability\<close>); each operation is a frame
  for everything it does not own (section \<open>Footprints\<close>); so every event of
  \<open>sys_step\<close> keeps \<open>sys_inv\<close>, and from it the program never throws, the two flash
  lights are never on together, and each animator has at most one ramp interval.
\<close>

definition anim_closures :: "port \<Rightarrow> cb set" where
  "anim_closures p = {SPTransitionStep p, SPRunTransition p}"

definition comp_closures :: "cb set" where
  "comp_closures = {FlashOn, FlashOff} \<union> range SPTransitionStep \<union> range SPRunTransition \<union>
                   insert DelayEnd (range SensorTimeout)"

definition flash_ports :: "port set" where
  "flash_ports = {FlashLight1, FlashLight2}"

definition sens_inv :: "watches option \<Rightarrow> world \<Rightarrow> bool" where
  "sens_inv so w =
     (case so of
        None \<Rightarrow> armed DelayEnd w = [] \<and> (\<forall>s. armed (SensorTimeout s) w = [])
      | Some h \<Rightarrow> \<forall>s. owns (h s) (SensorTimeout s) w)"

definition sys_inv :: "ctrl \<Rightarrow> world \<Rightarrow> bool" where
  "sys_inv c w \<longleftrightarrow>
     wf_world w \<and> flash_inv (flasherObj c) w \<and>
     anim_inv dog_cfg (dogFlasher c) w \<and> anim_inv skull1_cfg (skull1Flasher c) w \<and>
     anim_inv skull2_cfg (skull2Flasher c) w \<and>
     owns (startFlasher1Timeout c) StartSkull1 w \<and> owns (startFlasher2Timeout c) StartSkull2 w \<and>
     sens_inv (sensorsObj c) w"

definition anim_ok :: "anim_cfg \<Rightarrow> world \<Rightarrow> anim \<times> world \<Rightarrow> bool" where
  "anim_ok c w r \<longleftrightarrow> wf_world (snd r) \<and> anim_inv c (fst r) (snd r) \<and>
     frame_for (- anim_closures (channelName c)) (- {channelName c}) w (snd r)"

section \<open>Stability of the components' invariants\<close>

lemma flash_inv_stable:
  assumes "flash_inv fl w" "frame_for F P w w'" "{FlashOn, FlashOff} \<subseteq> F" "flash_ports \<subseteq> P"
  shows "flash_inv fl w'"
proof -
  have fr: "frame_for {FlashOn, FlashOff} flash_ports w w'" using frame_mono [OF assms(2-4)] .
  have p: "pins w' FlashLight1 = pins w FlashLight1" "pins w' FlashLight2 = pins w FlashLight2"
    using frame_pins [OF fr] by (simp_all add: flash_ports_def)
  have l: "pins w' (flash_lamp x) = pins w (flash_lamp x)" for x
    using p by (simp add: flash_lamp_def)
  have v: "armed FlashOn w' = armed FlashOn w" "dues FlashOn w' = dues FlashOn w" "periods FlashOn w' = periods FlashOn w"
    "dues FlashOff w' = dues FlashOff w" "periods FlashOff w' = periods FlashOff w"
    using frame_views [OF fr] by simp_all
  have c: "clock w \<le> clock w'" using frame_store_ext [OF fr] by (simp add: store_ext_def)
  have o: "owns (f_interval fl) FlashOn w'"
    using assms(1) by (intro frame_owns [OF fr]) (simp add: flash_inv_def)
  show ?thesis
    using assms(1) c o unfolding flash_inv_def v p l by (auto split: list.splits)
qed

lemma anim_inv_stable:
  assumes "anim_inv c a w" "frame_for F P w w'" "anim_closures (channelName c) \<subseteq> F"
  shows "anim_inv c a w'"
proof -
  have "armed (SPTransitionStep (channelName c)) w' = armed (SPTransitionStep (channelName c)) w"
    using frame_views(1) [OF assms(2)] assms(3) by (simp add: anim_closures_def)
  moreover have "clock w \<le> clock w'" using frame_store_ext [OF assms(2)] by (simp add: store_ext_def)
  moreover have "owns h f w \<Longrightarrow> owns h f w'" for h f using frame_owns [OF assms(2)] .
  ultimately show ?thesis using assms(1) by (auto simp: anim_inv_def)
qed

lemma sens_inv_stable:
  assumes "sens_inv so w" "frame_for F P w w'" "so = None \<Longrightarrow> insert DelayEnd (range SensorTimeout) \<subseteq> F"
  shows "sens_inv so w'"
proof (cases so)
  case None
  have "armed DelayEnd w' = armed DelayEnd w" "armed (SensorTimeout s) w' = armed (SensorTimeout s) w" for s
    using frame_views(1) [OF assms(2)] assms(3) None by auto
  with None assms(1) show ?thesis by (simp add: sens_inv_def)
next
  case (Some h)
  have "owns (h s) (SensorTimeout s) w'" for s
    using assms(1) Some by (intro frame_owns [OF assms(2)]) (simp add: sens_inv_def)
  with Some show ?thesis by (simp add: sens_inv_def)
qed

section \<open>Footprints of the operations\<close>

lemma frame_seq:
  "frame_for F P w1 w2 \<Longrightarrow> frame_for F' P' w2 w3 \<Longrightarrow> F'' \<subseteq> F \<inter> F' \<Longrightarrow> P'' \<subseteq> P \<inter> P' \<Longrightarrow>
   frame_for F'' P'' w1 w3"
  by (rule frame_trans [OF frame_mono frame_mono]) auto

lemma frame_Flasher:
  assumes "owns (f_interval fl) FlashOn w"
  shows "frame_for (- {FlashOn}) UNIV w (snd (Flasher_start fl w))"
    "frame_for (- {FlashOn}) UNIV w (snd (Flasher_stop fl w))"
  using frame_seq [OF frame_clearTimeout [OF assms] frame_setInterval] frame_clearTimeout [OF assms]
  by (simp_all add: start_eq stop_eq)

lemma frame_flashOn:
  assumes "flashOn fl w = Inr (fl', w')"
  shows "frame_for (- {FlashOff}) (- flash_ports) w w'"
proof -
  obtain p where p: "flash_port (curChannel fl) = Some p" "w' = snd (setTimeout FlashOff FLASH_DURATION (portOn p w))"
    using assms by (auto simp: flashOn_def split: option.splits)
  have "p \<in> flash_ports" using flash_port_lamp flash_port_Some [OF p(1)] p(1) by (auto simp: flash_lamp_def flash_ports_def)
  have a: "frame_for UNIV (- {p}) w (portOn p w)" by (rule frame_outputs)
  have b: "frame_for (- {FlashOff}) UNIV (portOn p w) w'" unfolding p(2) by (rule frame_setTimeout)
  show ?thesis by (rule frame_seq [OF a b]) (use \<open>p \<in> flash_ports\<close> in auto)
qed

lemma frame_flashOff:
  assumes "flashOff fl w = Inr (fl', w')"
  shows "frame_for UNIV (- flash_ports) w w'"
proof -
  obtain p where p: "flash_port (curChannel fl) = Some p" "w' = portOff p w"
    using assms by (auto simp: flashOff_def split: option.splits)
  have "p \<in> flash_ports" using flash_port_lamp flash_port_Some [OF p(1)] p(1) by (auto simp: flash_lamp_def flash_ports_def)
  have "frame_for UNIV (- {p}) w w'" unfolding p(2) by (rule frame_outputs)
  then show ?thesis by (rule frame_mono) (use \<open>p \<in> flash_ports\<close> in auto)
qed

lemma frame_port_flag:
  "frame_for UNIV (- {p}) w (setFlag p b (portOn p w))" "frame_for UNIV (- {p}) w (setFlag p b (portOff p w))"
  by (rule frame_trans [OF frame_outputs(2) frame_outputs(1)], rule frame_trans [OF frame_outputs(3) frame_outputs(1)])

lemma frame_runTransition:
  assumes "owns (transitionInterval a) (SPTransitionStep (channelName c)) w"
  shows "frame_for (- {SPTransitionStep (channelName c)}) UNIV w (snd (runTransition c a w))"
  unfolding runTransition_eq snd_conv by (rule frame_trans [OF frame_clearTimeout [OF assms] frame_setInterval])

lemma frame_anim_start:
  assumes "anim_inv c a w"
  shows "frame_for (- anim_closures (channelName c)) (- {channelName c}) w (snd (SlowFlasherPigpio_start c a w))"
proof -
  let ?p = "channelName c"
  let ?w1 = "setFlag ?p False (portOff ?p w)"
  let ?w2 = "clearTimeout (stateTimeout a) ?w1"
  have o: "owns (stateTimeout a) (SPRunTransition ?p) w" "owns (transitionInterval a) (SPTransitionStep ?p) w"
    using assms by (simp_all add: anim_inv_def)
  have a: "frame_for UNIV (- {?p}) w ?w1" by (rule frame_port_flag)
  have b: "frame_for (- {SPRunTransition ?p}) UNIV ?w1 ?w2" by (rule frame_clearTimeout) (simp add: o)
  have "frame_for (- {SPTransitionStep ?p}) UNIV ?w2
          (snd (runTransition c (a\<lparr>stateTimeout := None, stopFlag := False\<rparr>) ?w2))"
    by (rule frame_runTransition) (use o in auto)
  then show ?thesis unfolding anim_start_eq
    by (rule frame_seq [OF frame_seq [OF a b order_refl order_refl]]) (auto simp: anim_closures_def)
qed

lemma frame_anim_stop:
  assumes "anim_inv c a w"
  shows "frame_for (- anim_closures (channelName c)) (- {channelName c}) w (snd (SlowFlasherPigpio_stop c a w))"
proof -
  have "owns (stateTimeout a) (SPRunTransition (channelName c)) w" using assms by (simp add: anim_inv_def)
  from frame_clearTimeout [OF this] show ?thesis
    unfolding anim_stop_eq by (simp add: frame_mono anim_closures_def)
qed

lemma frame_transitionStep:
  "frame_for UNIV (- {channelName c}) w (snd (transitionStep c a w))"
  unfolding transitionStep_def Let_def snd_conv by (simp add: frame_outputs)

lemma frame_endTansition:
  assumes "anim_inv c a w"
  shows "frame_for (- anim_closures (channelName c)) (- {channelName c}) w (snd (endTansition c err a w))"
proof (cases err)
  case False
  let ?p = "channelName c"
  let ?w1 = "if \<not> flag (State w) ?p then setFlag ?p True (portOn ?p w) else setFlag ?p False (portOff ?p w)"
  let ?w2 = "clearTimeout (transitionInterval a) ?w1"
  have a: "frame_for UNIV (- {?p}) w ?w1" by (simp add: frame_port_flag)
  have "owns (transitionInterval a) (SPTransitionStep ?p) ?w1" using assms by (simp add: anim_inv_def)
  then have b: "frame_for (- {SPTransitionStep ?p}) UNIV ?w1 ?w2" by (rule frame_clearTimeout)
  have w2: "frame_for (- anim_closures ?p) (- {?p}) w ?w2"
    by (rule frame_seq [OF a b]) (auto simp: anim_closures_def)
  have "frame_for (- anim_closures ?p) (- {?p}) w (snd (setTimeout (SPRunTransition ?p) d ?w2))" for d
    by (rule frame_seq [OF w2 frame_setTimeout]) (auto simp: anim_closures_def)
  with w2 False show ?thesis by (simp add: endTansition_def Let_def prod.case_eq_if)
qed (simp add: endTansition_def)

lemma frame_anim_dispatch:
  assumes "anim_inv c a w"
  shows "frame_for (- anim_closures (channelName c)) (- {channelName c}) w (snd (anim_dispatch c f a w))"
proof -
  have "owns (transitionInterval a) (SPTransitionStep (channelName c)) w" using assms by (simp add: anim_inv_def)
  from frame_runTransition [OF this] frame_transitionStep [of c w a] show ?thesis
    by (auto simp: anim_dispatch_def anim_closures_def intro: frame_mono)
qed

lemma frame_watch:
  assumes "owns (h s) (SensorTimeout s) w"
  shows "frame_for (- {SensorTimeout s}) (- {s}) w (snd (SensorWatch_watch s d h w))"
proof -
  have "frame_for (- {SensorTimeout s}) (- {s}) w (clearTimeout (h s) (setFlag s b w))" for b
    by (rule frame_seq [OF frame_outputs(1) frame_clearTimeout]) (use assms in auto)
  then show ?thesis unfolding watch_cases
    by (auto intro: frame_seq [OF _ frame_setTimeout])
qed

lemma frame_setMode: "frame_for UNIV UNIV w (setMode m w)"
  by (auto simp: frame_for_def own_timers_def intro: store_ext_same_timers)

section \<open>The whole program's invariant under each component's operations\<close>

lemma cfg_channels [simp]:
  "channelName dog_cfg = LightDog" "channelName skull1_cfg = LightSkull1" "channelName skull2_cfg = LightSkull2"
  by (simp_all add: dog_cfg_def skull1_cfg_def skull2_cfg_def)

lemma sys_inv_parts:
  assumes "sys_inv c w" "frame_for F P w w'"
  shows "{FlashOn, FlashOff} \<subseteq> F \<Longrightarrow> flash_ports \<subseteq> P \<Longrightarrow> flash_inv (flasherObj c) w'"
    "anim_closures LightDog \<subseteq> F \<Longrightarrow> anim_inv dog_cfg (dogFlasher c) w'"
    "anim_closures LightSkull1 \<subseteq> F \<Longrightarrow> anim_inv skull1_cfg (skull1Flasher c) w'"
    "anim_closures LightSkull2 \<subseteq> F \<Longrightarrow> anim_inv skull2_cfg (skull2Flasher c) w'"
    "owns (startFlasher1Timeout c) StartSkull1 w'" "owns (startFlasher2Timeout c) StartSkull2 w'"
    "(sensorsObj c = None \<Longrightarrow> insert DelayEnd (range SensorTimeout) \<subseteq> F) \<Longrightarrow> sens_inv (sensorsObj c) w'"
proof -
  note i = assms(1) [unfolded sys_inv_def]
  show "{FlashOn, FlashOff} \<subseteq> F \<Longrightarrow> flash_ports \<subseteq> P \<Longrightarrow> flash_inv (flasherObj c) w'"
    using i by (blast intro: flash_inv_stable [OF _ assms(2)])
  show "anim_closures LightDog \<subseteq> F \<Longrightarrow> anim_inv dog_cfg (dogFlasher c) w'"
    using i anim_inv_stable [OF _ assms(2), of dog_cfg] by simp
  show "anim_closures LightSkull1 \<subseteq> F \<Longrightarrow> anim_inv skull1_cfg (skull1Flasher c) w'"
    using i anim_inv_stable [OF _ assms(2), of skull1_cfg] by simp
  show "anim_closures LightSkull2 \<subseteq> F \<Longrightarrow> anim_inv skull2_cfg (skull2Flasher c) w'"
    using i anim_inv_stable [OF _ assms(2), of skull2_cfg] by simp
  show "owns (startFlasher1Timeout c) StartSkull1 w'" "owns (startFlasher2Timeout c) StartSkull2 w'"
    using i frame_owns [OF assms(2)] by blast+
  show "(sensorsObj c = None \<Longrightarrow> insert DelayEnd (range SensorTimeout) \<subseteq> F) \<Longrightarrow> sens_inv (sensorsObj c) w'"
  proof -
    assume a: "sensorsObj c = None \<Longrightarrow> insert DelayEnd (range SensorTimeout) \<subseteq> F"
    from i have "sens_inv (sensorsObj c) w" by simp
    from sens_inv_stable [OF this assms(2) a] show ?thesis .
  qed
qed

lemma sys_inv_frame:
  assumes "sys_inv c w" "wf_world w'" "frame_for F P w w'" "comp_closures \<subseteq> F" "flash_ports \<subseteq> P"
  shows "sys_inv c w'"
  using sys_inv_parts [OF assms(1,3)] assms(2,4,5)
  by (simp add: sys_inv_def comp_closures_def anim_closures_def image_subset_iff)

text \<open>Updating one component's variable after an operation of that component.\<close>

lemma sys_inv_flasher:
  assumes "sys_inv c w" "wf_world w'" "flash_inv fl w'" "frame_for F P w w'" "comp_closures - {FlashOn, FlashOff} \<subseteq> F"
  shows "sys_inv (c\<lparr>flasherObj := fl\<rparr>) w'"
  using sys_inv_parts [OF assms(1,4)] assms(2,3,5)
  by (auto simp: sys_inv_def comp_closures_def anim_closures_def)

lemma sys_inv_dog:
  assumes "sys_inv c w" "wf_world w'" "anim_inv dog_cfg a w'" "frame_for F P w w'"
    "comp_closures - anim_closures LightDog \<subseteq> F" "flash_ports \<subseteq> P"
  shows "sys_inv (c\<lparr>dogFlasher := a\<rparr>) w'"
  using sys_inv_parts [OF assms(1,4)] assms(2,3,5,6)
  by (auto simp: sys_inv_def comp_closures_def anim_closures_def)

lemma sys_inv_skull1:
  assumes "sys_inv c w" "wf_world w'" "anim_inv skull1_cfg a w'" "frame_for F P w w'"
    "comp_closures - anim_closures LightSkull1 \<subseteq> F" "flash_ports \<subseteq> P"
  shows "sys_inv (c\<lparr>skull1Flasher := a\<rparr>) w'"
  using sys_inv_parts [OF assms(1,4)] assms(2,3,5,6)
  by (auto simp: sys_inv_def comp_closures_def anim_closures_def)

lemma sys_inv_skull2:
  assumes "sys_inv c w" "wf_world w'" "anim_inv skull2_cfg a w'" "frame_for F P w w'"
    "comp_closures - anim_closures LightSkull2 \<subseteq> F" "flash_ports \<subseteq> P"
  shows "sys_inv (c\<lparr>skull2Flasher := a\<rparr>) w'"
  using sys_inv_parts [OF assms(1,4)] assms(2,3,5,6)
  by (auto simp: sys_inv_def comp_closures_def anim_closures_def)

lemma sys_inv_handles:
  assumes "sys_inv c w" "wf_world w'" "frame_for F P w w'" "comp_closures \<subseteq> F" "flash_ports \<subseteq> P"
  shows "owns h StartSkull1 w' \<Longrightarrow> sys_inv (c\<lparr>startFlasher1Timeout := h\<rparr>) w'"
    "owns h StartSkull2 w' \<Longrightarrow> sys_inv (c\<lparr>startFlasher2Timeout := h\<rparr>) w'"
  using sys_inv_frame [OF assms] by (simp_all add: sys_inv_def)

lemma sys_inv_sensors:
  assumes "sys_inv c w" "wf_world w'" "sens_inv so w'" "frame_for F P w w'"
    "comp_closures - insert DelayEnd (range SensorTimeout) \<subseteq> F" "flash_ports \<subseteq> P"
  shows "sys_inv (c\<lparr>sensorsObj := so\<rparr>) w'"
  using sys_inv_parts [OF assms(1,4)] assms(2,3,5,6)
  by (auto simp: sys_inv_def comp_closures_def anim_closures_def)

lemma sys_inv_ctrl [simp]:
  "sys_inv (c\<lparr>players := ps\<rparr>) w = sys_inv c w" "sys_inv (c\<lparr>playerProcess := pp\<rparr>) w = sys_inv c w"
  "sys_inv (spawn_player c) w = sys_inv c w"
  by (simp_all add: sys_inv_def spawn_player_def)

lemma anim_ok_ops:
  assumes "wf_world w" "anim_inv c a w"
  shows "anim_ok c w (SlowFlasherPigpio_start c a w)" "anim_ok c w (SlowFlasherPigpio_stop c a w)"
    "anim_ok c w (anim_dispatch c f a w)" "anim_ok c w (endTansition c err a w)"
  using assms anim_inv_start anim_inv_stop anim_dispatch_inv anim_inv_endTansition
    frame_anim_start frame_anim_stop frame_anim_dispatch frame_endTansition
  by (auto simp: anim_ok_def anim_stop_eq intro: wf_start wf_endTansition)

lemma sys_inv_anim_updates:
  assumes "sys_inv c w"
  shows "anim_ok dog_cfg w r \<Longrightarrow> sys_inv (c\<lparr>dogFlasher := fst r\<rparr>) (snd r)"
    "anim_ok skull1_cfg w r \<Longrightarrow> sys_inv (c\<lparr>skull1Flasher := fst r\<rparr>) (snd r)"
    "anim_ok skull2_cfg w r \<Longrightarrow> sys_inv (c\<lparr>skull2Flasher := fst r\<rparr>) (snd r)"
  unfolding anim_ok_def
  by (auto intro: sys_inv_dog [OF assms] sys_inv_skull1 [OF assms] sys_inv_skull2 [OF assms]
      simp: flash_ports_def)

lemma sys_inv_on_anim:
  assumes g: "\<And>cfg a w. wf_world w \<Longrightarrow> anim_inv cfg a w \<Longrightarrow> anim_ok cfg w (g cfg a w)"
    and inv: "sys_inv c w"
  shows "sys_inv (fst (on_dog (g dog_cfg) c w)) (snd (on_dog (g dog_cfg) c w))"
    "sys_inv (fst (on_skull1 (g skull1_cfg) c w)) (snd (on_skull1 (g skull1_cfg) c w))"
    "sys_inv (fst (on_skull2 (g skull2_cfg) c w)) (snd (on_skull2 (g skull2_cfg) c w))"
    "sys_inv (fst (on_anim p g c w)) (snd (on_anim p g c w))"
proof -
  have i: "wf_world w" "anim_inv dog_cfg (dogFlasher c) w" "anim_inv skull1_cfg (skull1Flasher c) w"
    "anim_inv skull2_cfg (skull2Flasher c) w" using inv by (simp_all add: sys_inv_def)
  show d: "sys_inv (fst (on_dog (g dog_cfg) c w)) (snd (on_dog (g dog_cfg) c w))"
    using sys_inv_anim_updates(1) [OF inv, of "g dog_cfg (dogFlasher c) w"] g [OF i(1,2)] by (simp add: on_dog_def prod.case_eq_if)
  show s1: "sys_inv (fst (on_skull1 (g skull1_cfg) c w)) (snd (on_skull1 (g skull1_cfg) c w))"
    using sys_inv_anim_updates(2) [OF inv, of "g skull1_cfg (skull1Flasher c) w"] g [OF i(1,3)] by (simp add: on_skull1_def prod.case_eq_if)
  show s2: "sys_inv (fst (on_skull2 (g skull2_cfg) c w)) (snd (on_skull2 (g skull2_cfg) c w))"
    using sys_inv_anim_updates(3) [OF inv, of "g skull2_cfg (skull2Flasher c) w"] g [OF i(1,4)] by (simp add: on_skull2_def prod.case_eq_if)
  show "sys_inv (fst (on_anim p g c w)) (snd (on_anim p g c w))"
    using d s1 s2 inv by (simp add: on_anim_def)
qed

lemma sys_inv_Flasher:
  assumes "sys_inv c w"
  shows "sys_inv (c\<lparr>flasherObj := fst (Flasher_start (flasherObj c) w)\<rparr>) (snd (Flasher_start (flasherObj c) w))"
    "sys_inv (c\<lparr>flasherObj := fst (Flasher_stop (flasherObj c) w)\<rparr>) (snd (Flasher_stop (flasherObj c) w))"
proof -
  have i: "wf_world w" "flash_inv (flasherObj c) w" using assms by (simp_all add: sys_inv_def)
  then have o: "owns (f_interval (flasherObj c)) FlashOn w" by (simp add: flash_inv_def)
  have F: "comp_closures - {FlashOn, FlashOff} \<subseteq> - {FlashOn}" by auto
  show "sys_inv (c\<lparr>flasherObj := fst (Flasher_start (flasherObj c) w)\<rparr>) (snd (Flasher_start (flasherObj c) w))"
    by (rule sys_inv_flasher [OF assms _ flash_inv_start [OF i] frame_Flasher(1) [OF o] F])
       (use i in \<open>auto simp: start_eq\<close>)
  show "sys_inv (c\<lparr>flasherObj := fst (Flasher_stop (flasherObj c) w)\<rparr>) (snd (Flasher_stop (flasherObj c) w))"
    by (rule sys_inv_flasher [OF assms _ conjunct1 [OF flash_inv_stop [OF i(2)]] frame_Flasher(2) [OF o] F])
       (use i in \<open>auto simp: stop_eq\<close>)
qed

lemma sys_inv_world_ops:
  assumes "sys_inv c w"
  shows "sys_inv c (setMode m w)" "sys_inv c (setFlag p b w)"
    "p \<notin> flash_ports \<Longrightarrow> sys_inv c (portOn p w)" "p \<notin> flash_ports \<Longrightarrow> sys_inv c (portOff p w)"
    "f \<notin> comp_closures \<Longrightarrow> sys_inv c (snd (setTimeout f d w))"
proof -
  have wf: "wf_world w" using assms by (simp add: sys_inv_def)
  show "sys_inv c (setMode m w)"
    by (rule sys_inv_frame [OF assms _ frame_setMode]) (use wf in \<open>simp_all add: wf_world_def\<close>)
  show "sys_inv c (setFlag p b w)"
    using assms by (simp add: sys_inv_def flash_inv_def sens_inv_def wf_world_def cong: list.case_cong option.case_cong)
  show "p \<notin> flash_ports \<Longrightarrow> sys_inv c (portOn p w)" "p \<notin> flash_ports \<Longrightarrow> sys_inv c (portOff p w)"
    using sys_inv_frame [OF assms _ frame_outputs(2)] sys_inv_frame [OF assms _ frame_outputs(3)] wf
    by (auto simp: wf_world_def)
  show "f \<notin> comp_closures \<Longrightarrow> sys_inv c (snd (setTimeout f d w))"
    using wf frame_setTimeout by (auto intro: sys_inv_frame [OF assms])
qed

lemma sys_inv_delay_timer:
  assumes "sys_inv c w" "sensorsObj c \<noteq> None"
  shows "sys_inv c (snd (setTimeout DelayEnd d w))"
proof -
  have wf: "wf_world w" using assms by (simp add: sys_inv_def)
  from sys_inv_parts [OF assms(1) frame_setTimeout [where g = DelayEnd and d = d and w = w]] assms(2) wf show ?thesis
    by (auto simp: sys_inv_def anim_closures_def flash_ports_def)
qed

lemma sys_inv_skull_handles:
  assumes "sys_inv c w"
  shows "sys_inv (c\<lparr>startFlasher1Timeout := Some (nextId w)\<rparr>) (snd (setTimeout StartSkull1 d w))"
    "sys_inv (c\<lparr>startFlasher2Timeout := Some (nextId w)\<rparr>) (snd (setTimeout StartSkull2 d w))"
    "sys_inv (c\<lparr>startFlasher1Timeout := None\<rparr>) (clearTimeout (startFlasher1Timeout c) w)"
    "sys_inv (c\<lparr>startFlasher2Timeout := None\<rparr>) (clearTimeout (startFlasher2Timeout c) w)"
proof -
  have i: "wf_world w" "owns (startFlasher1Timeout c) StartSkull1 w" "owns (startFlasher2Timeout c) StartSkull2 w"
    using assms by (simp_all add: sys_inv_def)
  have F: "comp_closures \<subseteq> - {StartSkull1}" "comp_closures \<subseteq> - {StartSkull2}" by (auto simp: comp_closures_def)
  show "sys_inv (c\<lparr>startFlasher1Timeout := Some (nextId w)\<rparr>) (snd (setTimeout StartSkull1 d w))"
    using sys_inv_handles(1) [OF assms _ frame_setTimeout F(1)] owns_fresh(1) [OF i(1)] i(1) by auto
  show "sys_inv (c\<lparr>startFlasher2Timeout := Some (nextId w)\<rparr>) (snd (setTimeout StartSkull2 d w))"
    using sys_inv_handles(2) [OF assms _ frame_setTimeout F(2)] owns_fresh(1) [OF i(1)] i(1) by auto
  show "sys_inv (c\<lparr>startFlasher1Timeout := None\<rparr>) (clearTimeout (startFlasher1Timeout c) w)"
    using sys_inv_handles(1) [where h = None, OF assms _ frame_clearTimeout [OF i(2)] F(1)] i(1) by auto
  show "sys_inv (c\<lparr>startFlasher2Timeout := None\<rparr>) (clearTimeout (startFlasher2Timeout c) w)"
    using sys_inv_handles(2) [where h = None, OF assms _ frame_clearTimeout [OF i(3)] F(2)] i(1) by auto
qed

end
