(* ===== verification/SysInvariant.thy ===== *)
theory SysInvariant
  imports Invariant
begin

text \<open>
  The whole program keeps \<open>sys_inv\<close>: each handler of the controller (halloween.js,
  lines 405--585) is a sequence of the components' operations, each of which keeps the
  invariant by the lemmas of \<open>Invariant\<close>; so does every event of \<open>sys_step\<close>. From the
  invariant: the program never throws, the two flash lights are never on together, and
  each pigpio animator has at most one ramp interval, in every reachable state.
\<close>

section \<open>The controller's handlers keep the invariant\<close>

lemma pair_exI: "P (fst r) (snd r) \<Longrightarrow> \<exists>a b. r = (a, b) \<and> P a b"
  by (cases r) simp

lemma sys_inv_anim_calls:
  assumes "sys_inv c w"
  shows "sys_inv (fst (on_skull1 (SlowFlasherPigpio_stop skull1_cfg) c w)) (snd (on_skull1 (SlowFlasherPigpio_stop skull1_cfg) c w))"
    "sys_inv (fst (on_skull2 (SlowFlasherPigpio_stop skull2_cfg) c w)) (snd (on_skull2 (SlowFlasherPigpio_stop skull2_cfg) c w))"
    "sys_inv (fst (on_skull1 (SlowFlasherPigpio_start skull1_cfg) c w)) (snd (on_skull1 (SlowFlasherPigpio_start skull1_cfg) c w))"
    "sys_inv (fst (on_skull2 (SlowFlasherPigpio_start skull2_cfg) c w)) (snd (on_skull2 (SlowFlasherPigpio_start skull2_cfg) c w))"
    "sys_inv (fst (on_anim p (\<lambda>cfg. anim_dispatch cfg f) c w)) (snd (on_anim p (\<lambda>cfg. anim_dispatch cfg f) c w))"
    "sys_inv (fst (on_anim p (\<lambda>cfg. endTansition cfg err) c w)) (snd (on_anim p (\<lambda>cfg. endTansition cfg err) c w))"
  using sys_inv_on_anim(2,3) [where g = "\<lambda>cfg. SlowFlasherPigpio_stop cfg", OF anim_ok_ops(2) assms]
    sys_inv_on_anim(2,3) [where g = "\<lambda>cfg. SlowFlasherPigpio_start cfg", OF anim_ok_ops(1) assms]
    sys_inv_on_anim(4) [where g = "\<lambda>cfg. anim_dispatch cfg f", OF anim_ok_ops(3) assms]
    sys_inv_on_anim(4) [where g = "\<lambda>cfg. endTansition cfg err", OF anim_ok_ops(4) assms]
  by simp_all

lemma sys_inv_drop_handles:
  "sys_inv c w \<Longrightarrow> sys_inv (c\<lparr>startFlasher1Timeout := None\<rparr>) w"
  "sys_inv c w \<Longrightarrow> sys_inv (c\<lparr>startFlasher2Timeout := None\<rparr>) w"
  by (simp_all add: sys_inv_def)

text \<open>\<open>stopPerformance\<close> cancels a skull's start timeout if it is pending and stops the
  skull's animator otherwise.\<close>

lemma sys_inv_cancel_skulls:
  assumes "sys_inv c w"
  shows "sys_inv (fst (if startFlasher1Timeout c \<noteq> None
                       then (c\<lparr>startFlasher1Timeout := None\<rparr>, clearTimeout (startFlasher1Timeout c) w)
                       else on_skull1 (SlowFlasherPigpio_stop skull1_cfg) c w))
                 (snd (if startFlasher1Timeout c \<noteq> None
                       then (c\<lparr>startFlasher1Timeout := None\<rparr>, clearTimeout (startFlasher1Timeout c) w)
                       else on_skull1 (SlowFlasherPigpio_stop skull1_cfg) c w))"
    "sys_inv (fst (if startFlasher2Timeout c \<noteq> None
                       then (c\<lparr>startFlasher2Timeout := None\<rparr>, clearTimeout (startFlasher2Timeout c) w)
                       else on_skull2 (SlowFlasherPigpio_stop skull2_cfg) c w))
                 (snd (if startFlasher2Timeout c \<noteq> None
                       then (c\<lparr>startFlasher2Timeout := None\<rparr>, clearTimeout (startFlasher2Timeout c) w)
                       else on_skull2 (SlowFlasherPigpio_stop skull2_cfg) c w))"
  using sys_inv_skull_handles(3,4) [OF assms] sys_inv_anim_calls(1,2) [OF assms] by simp_all

lemma sys_inv_stopPerformance:
  assumes "sys_inv c w"
  shows "sys_inv (fst (stopPerformance c w)) (snd (stopPerformance c w))"
proof -
  define c1 where "c1 = (if playerProcess c \<noteq> None then c\<lparr>playerProcess := None\<rparr> else c)"
  define w1 where "w1 = setFlag LightNet False (portOff LightNet w)"
  have i1: "sys_inv c1 w1"
    using sys_inv_world_ops(2,4) assms unfolding c1_def w1_def by (simp add: flash_ports_def)
  obtain fl w2 where F: "Flasher_start (flasherObj c1) w1 = (fl, w2)" by fastforce
  have i2: "sys_inv (c1\<lparr>flasherObj := fl\<rparr>) w2" using sys_inv_Flasher(1) [OF i1] F by simp
  obtain dog w3 where D: "SlowFlasherPigpio_stop dog_cfg (dogFlasher c1) w2 = (dog, w3)" by fastforce
  have "sys_inv ((c1\<lparr>flasherObj := fl\<rparr>)\<lparr>dogFlasher := fst (dog, w3)\<rparr>) (snd (dog, w3))"
    using i2 by (intro sys_inv_anim_updates(1)) (use D anim_ok_ops(2) [of w2 dog_cfg "dogFlasher c1"] in \<open>auto simp: sys_inv_def\<close>)
  then have i3: "sys_inv (c1\<lparr>flasherObj := fl, dogFlasher := dog\<rparr>) w3" by simp
  let ?c2 = "c1\<lparr>flasherObj := fl, dogFlasher := dog\<rparr>"
  obtain c4 w4 where S: "(if startFlasher1Timeout ?c2 \<noteq> None
                       then (?c2\<lparr>startFlasher1Timeout := None\<rparr>, clearTimeout (startFlasher1Timeout ?c2) w3)
                       else on_skull1 (SlowFlasherPigpio_stop skull1_cfg) ?c2 w3) = (c4, w4)" by fastforce
  have i4: "sys_inv c4 w4" using sys_inv_cancel_skulls(1) [OF i3] S by simp
  have "stopPerformance c w =
        (if startFlasher2Timeout c4 \<noteq> None
         then (c4\<lparr>startFlasher2Timeout := None\<rparr>, clearTimeout (startFlasher2Timeout c4) w4)
         else on_skull2 (SlowFlasherPigpio_stop skull2_cfg) c4 w4)"
    using F D S unfolding stopPerformance_def Let_def c1_def [symmetric] w1_def [symmetric] by simp
  then show ?thesis using sys_inv_cancel_skulls(2) [OF i4] by simp
qed

lemma sys_inv_startPerformance:
  assumes "sys_inv c w" "\<not> force \<Longrightarrow> sensorsObj c \<noteq> None"
  shows "sys_inv (fst (startPerformance force r1 r2 c w)) (snd (startPerformance force r1 r2 c w))"
proof (cases force)
  case True
  define w1 where "w1 = setMode Run w"
  have i1: "sys_inv c w1" using sys_inv_world_ops(1) [OF assms(1)] by (simp add: w1_def)
  obtain fl w2 where F: "Flasher_stop (flasherObj c) w1 = (fl, w2)" by fastforce
  have "sys_inv (c\<lparr>flasherObj := fl\<rparr>) w2" using sys_inv_Flasher(2) [OF i1] F by simp
  then have i2: "sys_inv (c\<lparr>flasherObj := fl\<rparr>) (setFlag LightNet True (portOn LightNet w2))"
    by (intro sys_inv_world_ops(2) sys_inv_world_ops(3)) (simp_all add: flash_ports_def)
  let ?w3 = "setFlag LightNet True (portOn LightNet w2)"
  obtain dog w4 where D: "SlowFlasherPigpio_start dog_cfg (dogFlasher c) ?w3 = (dog, w4)" by fastforce
  have "sys_inv ((c\<lparr>flasherObj := fl\<rparr>)\<lparr>dogFlasher := fst (dog, w4)\<rparr>) (snd (dog, w4))"
    using i2 by (intro sys_inv_anim_updates(1)) (use D anim_ok_ops(1) [of ?w3 dog_cfg "dogFlasher c"] in \<open>auto simp: sys_inv_def\<close>)
  then have i4: "sys_inv (c\<lparr>flasherObj := fl, dogFlasher := dog\<rparr>) w4" by simp
  let ?w5 = "snd (setTimeout StartSkull1 r1 w4)"
  have i5: "sys_inv (c\<lparr>flasherObj := fl, dogFlasher := dog, startFlasher1Timeout := Some (nextId w4)\<rparr>) ?w5"
    using sys_inv_skull_handles(1) [OF i4] by simp
  have i6: "sys_inv (c\<lparr>flasherObj := fl, dogFlasher := dog, startFlasher1Timeout := Some (nextId w4),
                       startFlasher2Timeout := Some (nextId ?w5)\<rparr>) (snd (setTimeout StartSkull2 r2 ?w5))"
    using sys_inv_skull_handles(2) [OF i5] by simp
  have "startPerformance force r1 r2 c w =
        (spawn_player (c\<lparr>flasherObj := fl, dogFlasher := dog, startFlasher1Timeout := Some (nextId w4),
                         startFlasher2Timeout := Some (nextId ?w5)\<rparr>), snd (setTimeout StartSkull2 r2 ?w5))"
    using True F D unfolding startPerformance_def Let_def w1_def [symmetric] by (simp add: prod.case_eq_if)
  then show ?thesis using i6 by simp
next
  case False
  then have s: "sensorsObj c \<noteq> None" using assms(2) by simp
  have "sys_inv c (setFlag LightNet True (portOn LightNet (setMode Delay w)))"
    by (intro sys_inv_world_ops(1,2,3) assms(1)) (simp_all add: flash_ports_def)
  from sys_inv_delay_timer [OF this s] assms(1) False show ?thesis
    by (simp add: startPerformance_def Let_def)
qed

lemma sys_inv_player_close:
  assumes "sys_inv c w"
  shows "sys_inv (fst (player_close pid c w)) (snd (player_close pid c w))"
proof -
  let ?c = "c\<lparr>players := remove1 pid (players c), playerProcess := None\<rparr>"
  have "sys_inv ?c w" using assms by simp
  from sys_inv_stopPerformance [OF this] have "sys_inv (fst (stopPerformance ?c w)) (snd (stopPerformance ?c w))" .
  then have "sys_inv (fst (stopPerformance ?c w)) (snd (setTimeout CoolDownEnd COOL_DOWN_DURATION (setMode CoolDown (snd (stopPerformance ?c w)))))"
    by (intro sys_inv_world_ops(1,5)) (auto simp: comp_closures_def)
  then show ?thesis by (simp add: player_close_def prod.case_eq_if)
qed

lemma sys_inv_delay_end:
  assumes "sys_inv c w" "sensorsObj c \<noteq> None"
  shows "\<exists>c' w'. delay_end r1 r2 c w = Inr (c', w') \<and> sys_inv c' w'"
proof -
  obtain h where h: "sensorsObj c = Some h" using assms(2) by blast
  have "sys_inv (fst (startPerformance True r1 r2 c w)) (snd (startPerformance True r1 r2 c w))"
    by (rule sys_inv_startPerformance [OF assms(1)]) simp
  moreover have "sys_inv (fst (stopPerformance c (setMode Idle w))) (snd (stopPerformance c (setMode Idle w)))"
    using sys_inv_stopPerformance [OF sys_inv_world_ops(1) [OF assms(1)]] .
  ultimately show ?thesis using h by (simp add: delay_end_def pair_exI)
qed

lemma sys_inv_start_skulls:
  assumes "sys_inv c w"
  shows "sys_inv (fst (start_skull1 c w)) (snd (start_skull1 c w))"
    "sys_inv (fst (start_skull2 c w)) (snd (start_skull2 c w))"
  using sys_inv_drop_handles [OF sys_inv_anim_calls(3) [OF assms]] sys_inv_drop_handles [OF sys_inv_anim_calls(4) [OF assms]]
  by (simp_all add: start_skull1_def start_skull2_def prod.case_eq_if)

lemma sys_inv_sensor_handlers:
  assumes "sys_inv c w"
  shows "sys_inv (sensor_setup c) w"
    "sensorsObj c \<noteq> None \<Longrightarrow> sys_inv (fst (sensor_callback c w)) (snd (sensor_callback c w))"
proof -
  show "sys_inv (sensor_setup c) w"
    using assms by (simp add: sys_inv_def sensor_setup_def sens_inv_def SensorArray_new_def)
  show "sensorsObj c \<noteq> None \<Longrightarrow> sys_inv (fst (sensor_callback c w)) (snd (sensor_callback c w))"
    using sys_inv_startPerformance [OF assms, of False] assms by (simp add: sensor_callback_def)
qed

lemma owns_watch_handle:
  assumes "wf_world w" "owns (h s) (SensorTimeout s) w"
  shows "owns (fst (SensorWatch_watch s d h w) s) (SensorTimeout s) (snd (SensorWatch_watch s d h w))"
  using assms owns_fresh(1) [of "clearTimeout (h s) (setFlag s True w)" "SensorTimeout s" SENSOR_TIMEOUT]
  by (auto simp: watch_cases intro: wf_clearTimeout wf_frame)

lemma sys_inv_sensor_edge:
  assumes "sys_inv c w" "s \<in> set sensors"
  shows "sys_inv (fst (sensor_edge s d c w)) (snd (sensor_edge s d c w))"
proof (cases "sensorsObj c")
  case (Some h)
  let ?r = "SensorWatch_watch s d h w"
  have wf: "wf_world w" and o: "\<forall>q. owns (h q) (SensorTimeout q) w" using assms(1) Some by (simp_all add: sys_inv_def sens_inv_def)
  have fr: "frame_for (- {SensorTimeout s}) (- {s}) w (snd ?r)" using o by (intro frame_watch) simp
  have "owns (fst ?r q) (SensorTimeout q) (snd ?r)" for q
  proof (cases "q = s")
    case True
    then show ?thesis using owns_watch_handle [OF wf] o by simp
  next
    case False
    then show ?thesis using frame_owns [OF fr] o by (simp add: watch_other_handle)
  qed
  then have "sens_inv (Some (fst ?r)) (snd ?r)" by (simp add: sens_inv_def)
  from sys_inv_sensors [OF assms(1) watch_wf [OF wf] this fr] assms(2) Some show ?thesis
    by (auto simp: sensor_edge_def prod.case_eq_if comp_closures_def flash_ports_def sensors_def)
qed (use assms in \<open>simp add: sensor_edge_def\<close>)

lemma sys_inv_http:
  assumes "sys_inv c w"
  shows "sys_inv (fst (fst (postStart r1 r2 c w))) (snd (fst (postStart r1 r2 c w)))"
    "sys_inv (fst (fst (postStop c w))) (snd (fst (postStop c w)))"
    "sys_inv c (fst (postEnabled body w))"
proof -
  show "sys_inv (fst (fst (postStart r1 r2 c w))) (snd (fst (postStart r1 r2 c w)))"
    using sys_inv_startPerformance [OF assms, of True] assms by (simp add: postStart_def)
  show "sys_inv (fst (fst (postStop c w))) (snd (fst (postStop c w)))"
    using sys_inv_world_ops(1) [OF sys_inv_stopPerformance [OF assms]] assms
    by (simp add: postStop_def prod.case_eq_if)
  have "frame_for UNIV UNIV w (fst (postEnabled body w))"
    by (auto simp: frame_for_def own_timers_def postEnabled_def intro: store_ext_same_timers)
  moreover have "wf_world (fst (postEnabled body w))" using assms by (simp add: sys_inv_def wf_world_def postEnabled_def)
  ultimately show "sys_inv c (fst (postEnabled body w))" by (intro sys_inv_frame [OF assms]) auto
qed

lemma sys_inv_env:
  assumes "sys_inv c w"
  shows "advance d w = Some w' \<Longrightarrow> sys_inv c w'" "pigpio_done i w = Some (p, w') \<Longrightarrow> sys_inv c w'"
proof -
  have wf: "wf_world w" using assms by (simp add: sys_inv_def)
  show "advance d w = Some w' \<Longrightarrow> sys_inv c w'"
    using frame_advance [of d w w'] advance_fields [of d w w'] wf
    by (intro sys_inv_frame [OF assms]) (auto simp: wf_world_def)
  show "pigpio_done i w = Some (p, w') \<Longrightarrow> sys_inv c w'"
    using pigpio_done_fields [of i w p w'] pigpio_done_keeps(3) [of i w p w'] wf
    by (intro sys_inv_frame [OF assms, of _ UNIV UNIV])
       (auto simp: frame_for_def own_timers_def intro: store_ext_same_timers)
qed

section \<open>Timers firing\<close>

text \<open>A closure other than the strobe's fires: the rest of the program is untouched,
  and a sensor or delay closure can only fire once the sensor array exists.\<close>

lemma sys_inv_after_fire:
  assumes "sys_inv c w" "fire_next w = Some (f, w')" "f \<notin> {FlashOn, FlashOff}"
  shows "sys_inv c w'" "f \<in> insert DelayEnd (range SensorTimeout) \<Longrightarrow> sensorsObj c \<noteq> None"
proof -
  obtain i t where it: "(i, t) \<in> set (timers w)" "action t = f" "w' = after_fire i t w"
    using assms(2) by (auto elim: fire_nextE)
  have i: "wf_world w" "flash_inv (flasherObj c) w" "anim_inv dog_cfg (dogFlasher c) w"
    "anim_inv skull1_cfg (skull1Flasher c) w" "anim_inv skull2_cfg (skull2Flasher c) w"
    "owns (startFlasher1Timeout c) StartSkull1 w" "owns (startFlasher2Timeout c) StartSkull2 w"
    "sens_inv (sensorsObj c) w" using assms(1) by (simp_all add: sys_inv_def)
  have fr: "frame_for (- {f}) UNIV w w'" using frame_after_fire [OF i(1) it(1)] it by simp
  have "i \<in> set (armed f w)" using it by (force simp: armed_def)
  then show none: "f \<in> insert DelayEnd (range SensorTimeout) \<Longrightarrow> sensorsObj c \<noteq> None"
    using i(8) by (auto simp: sens_inv_def split: option.splits)
  have "sens_inv (sensorsObj c) w'"
    by (rule sens_inv_stable [OF i(8) fr]) (use none in auto)
  then show "sys_inv c w'" unfolding sys_inv_def
    using fire_wf [OF i(1) assms(2)] flash_inv_fire_other [OF i(1,2) assms(2)] assms(3)
      anim_inv_fire [OF assms(2) i(3)] anim_inv_fire [OF assms(2) i(4)] anim_inv_fire [OF assms(2) i(5)]
      frame_owns [OF fr i(6)] frame_owns [OF fr i(7)] by simp
qed

text \<open>The strobe's closures: the strobe's handlers never throw on the invariant, and their
  footprint is the strobe's.\<close>

lemma sys_inv_fire_flash:
  assumes "sys_inv c w" "fire_next w = Some (f, w')" "f \<in> {FlashOn, FlashOff}"
  shows "\<exists>c'' w''. on_flasher (strobe_dispatch f) c w' = Inr (c'', w'') \<and> sys_inv c'' w''"
proof -
  obtain i t where it: "(i, t) \<in> set (timers w)" "action t = f" "w' = after_fire i t w"
    using assms(2) by (auto elim: fire_nextE)
  have wf: "wf_world w" and fi: "flash_inv (flasherObj c) w" using assms(1) by (simp_all add: sys_inv_def)
  have f1: "frame_for (- {f}) UNIV w w'" using frame_after_fire [OF wf it(1)] it by simp
  have wf': "wf_world w'" using fire_wf [OF wf assms(2)] .
  have F: "comp_closures - {FlashOn, FlashOff} \<subseteq> - {f} \<inter> - {FlashOff}" using assms(3) by auto
  show ?thesis
  proof (cases "f = FlashOn")
    case True
    from flash_fire_on [OF wf fi assms(2) [unfolded True]] obtain w'' where
      w'': "flashOn (flasherObj c) w' = Inr (flasherObj c, w'')" "flash_inv (flasherObj c) w''" by blast
    have "frame_for (- {f} \<inter> - {FlashOff}) (UNIV \<inter> - flash_ports) w w''"
      by (rule frame_seq [OF f1 frame_flashOn [OF w''(1)]]) auto
    from sys_inv_flasher [OF assms(1) flash_handlers_wf(1) [OF wf' w''(1)] w''(2) this F] w''(1) True show ?thesis
      by (simp add: on_flasher_def strobe_dispatch_def)
  next
    case False
    then have off: "f = FlashOff" using assms(3) by simp
    from flash_fire_off [OF wf fi assms(2) [unfolded off]] obtain w'' where
      w'': "flashOff (flasherObj c) w' = Inr ((flasherObj c)\<lparr>curChannel := 3 - curChannel (flasherObj c)\<rparr>, w'')"
        "flash_inv ((flasherObj c)\<lparr>curChannel := 3 - curChannel (flasherObj c)\<rparr>) w''" by blast
    have "frame_for (- {f} \<inter> - {FlashOff}) (UNIV \<inter> - flash_ports) w w''"
      by (rule frame_seq [OF f1 frame_flashOff [OF w''(1)]]) (use off in auto)
    from sys_inv_flasher [OF assms(1) flash_handlers_wf(2) [OF wf' w''(1)] w''(2) this F] w''(1) off show ?thesis
      by (simp add: on_flasher_def strobe_dispatch_def)
  qed
qed

lemma sys_inv_dispatch:
  assumes "sys_inv c w" "fire_next w = Some (f, w')"
  shows "\<exists>c'' w''. sys_dispatch f r1 r2 c w' = Inr (c'', w'') \<and> sys_inv c'' w''"
proof (cases "f \<in> {FlashOn, FlashOff}")
  case True
  then show ?thesis using sys_inv_fire_flash [OF assms True] by (auto simp: sys_dispatch_def)
next
  case False
  note i = sys_inv_after_fire [OF assms False]
  show ?thesis
  proof (cases f)
    case (SensorTimeout s)
    then show ?thesis using sys_inv_sensor_handlers(2) [OF i(1)] i(2) by (simp add: sys_dispatch_def pair_exI)
  next
    case (SPTransitionStep p)
    then show ?thesis using sys_inv_anim_calls(5) [OF i(1), of p f] by (simp add: sys_dispatch_def pair_exI)
  next
    case (SPRunTransition p)
    then show ?thesis using sys_inv_anim_calls(5) [OF i(1), of p f] by (simp add: sys_dispatch_def pair_exI)
  next
    case StartSkull1
    then show ?thesis using sys_inv_start_skulls(1) [OF i(1)] by (simp add: sys_dispatch_def pair_exI)
  next
    case StartSkull2
    then show ?thesis using sys_inv_start_skulls(2) [OF i(1)] by (simp add: sys_dispatch_def pair_exI)
  next
    case DelayEnd
    then show ?thesis using sys_inv_delay_end [OF i(1) i(2)] by (simp add: sys_dispatch_def)
  next
    case CoolDownEnd
    then show ?thesis using sys_inv_world_ops(1) [OF i(1)] by (simp add: sys_dispatch_def cool_down_end_def)
  next
    case SensorSetup
    then show ?thesis using sys_inv_sensor_handlers(1) [OF i(1)] by (simp add: sys_dispatch_def)
  qed (use False i(1) in \<open>simp_all add: sys_dispatch_def\<close>)
qed

section \<open>Every step of the program keeps the invariant\<close>

lemma sys_step_inv:
  assumes "sys_inv c w" "sys_step (c, w) e = Some r"
  shows "(r = Inl PipeExit \<and> (\<exists>i. e = SysPipeFail i)) \<or> (\<exists>c' w'. r = Inr (c', w') \<and> sys_inv c' w')"
proof (cases e)
  case (SysFire r1 r2)
  with assms obtain f w' where "fire_next w = Some (f, w')" "r = sys_dispatch f r1 r2 c w'"
    by (auto split: if_splits option.splits)
  with sys_inv_dispatch [OF assms(1) this(1)] show ?thesis by auto
next
  case (SysPipeFail i)
  with assms(2) show ?thesis by (auto simp: pigpio_open_failed_def split: if_splits)
next
  case (SysWait d)
  with assms sys_inv_env(1) [OF assms(1)] show ?thesis by (auto split: option.splits)
next
  case (SysAck i err)
  with assms obtain p cb w' where d: "pigpio_done i w = Some ((p, cb), w')"
    and r: "r = Inr (if cb then on_anim p (\<lambda>cfg. endTansition cfg err) c w' else (c, w'))"
    by (auto split: option.splits)
  have i: "sys_inv c w'" by (rule sys_inv_env(2) [OF assms(1) d])
  with sys_inv_anim_calls(6) [OF i, of p err] r show ?thesis by (auto intro: pair_exI)
next
  case (SysEdge s d)
  with assms sys_inv_sensor_edge [OF assms(1), of s d] show ?thesis by (auto split: if_splits intro: pair_exI)
next
  case (SysPlayerClose pid)
  with assms sys_inv_player_close [OF assms(1), of pid] show ?thesis by (auto split: if_splits intro: pair_exI)
next
  case (SysPostStart r1 r2)
  with assms sys_inv_http(1) [OF assms(1), of r1 r2] show ?thesis by (auto split: if_splits intro: pair_exI)
next
  case SysPostStop
  with assms sys_inv_http(2) [OF assms(1)] show ?thesis by (auto intro: pair_exI)
next
  case (SysPostEnabled body)
  with assms sys_inv_http(3) [OF assms(1), of body] show ?thesis by auto
qed (use assms in auto)

lemma sys_inv_ctrl0: "sys_inv ctrl0 world0"
  by (simp add: sys_inv_def ctrl0_def flash_inv_new sens_inv_def armed_def)

lemma sys_inv_sys0: "sys_inv (fst sys0) (snd sys0)"
proof -
  let ?w2 = "snd (setTimeout SensorSetup SENSOR_SETUP_TIME (setMode Idle world0))"
  have "sys_inv ctrl0 ?w2"
    by (intro sys_inv_world_ops(1,5) sys_inv_ctrl0) (auto simp: comp_closures_def)
  from sys_inv_Flasher(1) [OF this] show ?thesis by (simp add: sys0_def Let_def prod.case_eq_if)
qed

lemma sys_reach_sys_inv: "sys_reach s \<Longrightarrow> sys_inv (fst s) (snd s)"
proof (induction rule: sys_reach.induct)
  case sys_init
  show ?case by (rule sys_inv_sys0)
next
  case (sys_next s e s')
  from sys_step_inv [of "fst s" "snd s" e] sys_next show ?case by fastforce
qed



section \<open>Properties of the whole program\<close>

text \<open>C1: The program never throws: in every reachable state, every event of its
  environment either cannot happen, or is a failure to open the pigpio pipe (which ends
  the process by \<open>process.exit(1)\<close>), or is handled without an exception and leads to a
  reachable state. In particular the delay timer never fires before the sensor array
  exists, and the strobe's channel is always one of the two flash lights.\<close>

theorem sys_never_throws:
  assumes "sys_reach s"
  shows "sys_step s e = None \<or> (\<exists>i. e = SysPipeFail i \<and> sys_step s e = Some (Inl PipeExit)) \<or>
         (\<exists>s'. sys_step s e = Some (Inr s') \<and> sys_reach s')"
proof (cases "sys_step s e")
  case (Some r)
  from sys_step_inv [of "fst s" "snd s" e r] sys_reach_sys_inv [OF assms] Some
  have "(r = Inl PipeExit \<and> (\<exists>i. e = SysPipeFail i)) \<or> (\<exists>s'. r = Inr s')" by fastforce
  with Some assms show ?thesis by (auto intro: sys_next)
qed simp

text \<open>C2: In every reachable state of the whole program, at most one of the two flash
  lights is on, whatever the performance, the sensors and the web API do.\<close>

theorem sys_flash_exclusive:
  assumes "sys_reach s"
  shows "pins (snd s) FlashLight1 = Level 0 \<or> pins (snd s) FlashLight2 = Level 0"
proof -
  have inv: "flash_inv (flasherObj (fst s)) (snd s)" using sys_reach_sys_inv [OF assms] by (simp add: sys_inv_def)
  then have c: "curChannel (flasherObj (fst s)) = 1 \<or> curChannel (flasherObj (fst s)) = 2" by (simp add: flash_inv_def)
  show ?thesis using inv c by (auto simp: flash_inv_def flash_lamp_def split: list.splits)
qed

text \<open>C3: In every reachable state, each of the three pigpio animators (dog, skull 1,
  skull 2) has at most one live ramp interval, and it is the one its variable names.\<close>

theorem sys_single_ramp:
  assumes "sys_reach s"
  shows "length (armed (SPTransitionStep LightDog) (snd s)) \<le> 1 \<and>
         length (armed (SPTransitionStep LightSkull1) (snd s)) \<le> 1 \<and>
         length (armed (SPTransitionStep LightSkull2) (snd s)) \<le> 1 \<and>
         set (armed (SPTransitionStep LightDog) (snd s)) \<subseteq> set_option (transitionInterval (dogFlasher (fst s))) \<and>
         set (armed (SPTransitionStep LightSkull1) (snd s)) \<subseteq> set_option (transitionInterval (skull1Flasher (fst s))) \<and>
         set (armed (SPTransitionStep LightSkull2) (snd s)) \<subseteq> set_option (transitionInterval (skull2Flasher (fst s)))"
proof -
  have i: "wf_world (snd s)" "anim_inv dog_cfg (dogFlasher (fst s)) (snd s)"
    "anim_inv skull1_cfg (skull1Flasher (fst s)) (snd s)" "anim_inv skull2_cfg (skull2Flasher (fst s)) (snd s)"
    using sys_reach_sys_inv [OF assms] by (simp_all add: sys_inv_def)
  have d: "distinct (armed f (snd s))" for f using armed_distinct i(1) by blast
  have sub: "set (armed (SPTransitionStep LightDog) (snd s)) \<subseteq> set_option (transitionInterval (dogFlasher (fst s)))"
    "set (armed (SPTransitionStep LightSkull1) (snd s)) \<subseteq> set_option (transitionInterval (skull1Flasher (fst s)))"
    "set (armed (SPTransitionStep LightSkull2) (snd s)) \<subseteq> set_option (transitionInterval (skull2Flasher (fst s)))"
    using i(2-4) by (simp_all add: anim_inv_def)
  show ?thesis using distinct_sub_option [OF d sub(1)] distinct_sub_option [OF d sub(2)]
    distinct_sub_option [OF d sub(3)] sub by simp
qed

text \<open>C4: In every reachable state the strobe has at most one live \<open>flashOn\<close> interval
  and at most one pending \<open>flashOff\<close> timeout, even though the performance stops and
  restarts it.\<close>

theorem sys_strobe_single:
  assumes "sys_reach s"
  shows "length (armed FlashOn (snd s)) \<le> 1 \<and> length (armed FlashOff (snd s)) \<le> 1"
proof -
  have i: "wf_world (snd s)" "flash_inv (flasherObj (fst s)) (snd s)"
    using sys_reach_sys_inv [OF assms] by (simp_all add: sys_inv_def)
  have d: "distinct (armed f (snd s))" for f using armed_distinct i(1) by blast
  have "length (dues FlashOff (snd s)) \<le> 1" using i(2) by (auto simp: flash_inv_def split: list.splits)
  moreover have "set (armed FlashOn (snd s)) \<subseteq> set_option (f_interval (flasherObj (fst s)))"
    using i(2) by (simp add: flash_inv_def)
  ultimately show ?thesis using distinct_sub_option [OF d] by (simp add: length_dues)
qed



lemma sys_never_throws_witness:
  "sys_step sys0 SysGetStatus = None \<or> (\<exists>i. SysGetStatus = SysPipeFail i \<and> sys_step sys0 SysGetStatus = Some (Inl PipeExit)) \<or>
   (\<exists>s'. sys_step sys0 SysGetStatus = Some (Inr s') \<and> sys_reach s')"
  using sys_never_throws [OF sys_init, of SysGetStatus] .

lemma sys_flash_exclusive_witness:
  "pins (snd sys0) FlashLight1 = Level 0 \<or> pins (snd sys0) FlashLight2 = Level 0"
  using sys_flash_exclusive [OF sys_init] .

lemma sys_single_ramp_witness:
  "length (armed (SPTransitionStep LightDog) (snd sys0)) \<le> 1 \<and>
   length (armed (SPTransitionStep LightSkull1) (snd sys0)) \<le> 1 \<and>
   length (armed (SPTransitionStep LightSkull2) (snd sys0)) \<le> 1 \<and>
   set (armed (SPTransitionStep LightDog) (snd sys0)) \<subseteq> set_option (transitionInterval (dogFlasher (fst sys0))) \<and>
   set (armed (SPTransitionStep LightSkull1) (snd sys0)) \<subseteq> set_option (transitionInterval (skull1Flasher (fst sys0))) \<and>
   set (armed (SPTransitionStep LightSkull2) (snd sys0)) \<subseteq> set_option (transitionInterval (skull2Flasher (fst sys0)))"
  using sys_single_ramp [OF sys_init] .

lemma sys_strobe_single_witness:
  "length (armed FlashOn (snd sys0)) \<le> 1 \<and> length (armed FlashOff (snd sys0)) \<le> 1"
  using sys_strobe_single [OF sys_init] .

end
