(* ===== verification/Spec2Isabelle.thy ===== *)
theory Spec2Isabelle
  imports Sensors Flasher Animator SlowFlasher Controller System SysInvariant
begin

text \<open>
  Verification development of the Halloween installation controller,
  \<^verbatim>\<open>src/halloween.js\<close>: a Node.js program that watches three motion sensors,
  runs an ambient two-lamp strobe while idle, and on a trigger runs a performance (area
  light, a sound player, three lamps ramped by the pigpio daemon) followed by a
  cool-down; an Express web API reports and changes the state.

  \<^bold>\<open>The program's parts and how they interact.\<close> Every part is a set of callbacks
  on the Node event loop that share the global \<open>State\<close> object, the output pins and the
  timer queue. The sensor watches set presence flags and call the controller; the
  controller starts and stops the strobe and the animators and arms its own timeouts;
  the animators' last PWM command completes asynchronously and runs their completion
  callback; the player process's exit ends the performance.

  \<^bold>\<open>Theories, in import order.\<close>
  \<^item> \<open>Prelude\<close>: shared types, the \<open>handler_defs\<close>/\<open>frame_simps\<close> collections,
    list and option lemmas, JavaScript's number-to-string conversion.
  \<^item> \<open>Runtime\<close>: the world record (lines 1--134 and 372--393): the configuration
    constants, the \<open>Ports\<close> table, \<open>State\<close>, \<open>IOEnabled\<close>, the pins, the pigpio commands in
    flight, and the Node timer queue (\<open>setTimeout\<close>, \<open>setInterval\<close>, \<open>clearTimeout\<close>,
    \<open>fire_next\<close>: the earliest due timer fires, an interval is re-armed;
    \<open>advance\<close>: time passes up to the next due timer). \<open>portOn\<close>/\<open>portOff\<close>/\<open>portPWM\<close>
    and \<open>sendPigpioCommand\<close> translate the output shortcuts (every pigpio command stays
    in flight until it completes or its pipe open fails, \<open>pigpio_open_failed\<close>, which
    ends the process by \<open>process.exit(1)\<close>, the error \<open>PipeExit\<close>); \<open>init\<close> and
    \<open>exit_cleanup\<close> the start-up and the SIGINT handler. Delays are clamped as Node does
    (\<open>node_delay\<close>: below 1 or above 2147483647 ms becomes 1).
  \<^item> \<open>Sensors\<close>: \<open>SensorWatch\<close> (lines 136--162) as \<open>SensorWatch_watch\<close> on a map of
    timeout handles, \<open>SensorArray\<close> (164--183); the watch invariant \<open>watch_inv\<close>.
  \<^item> \<open>Flasher\<close>: the strobe (185--213) as a record and \<open>flashOn\<close>/\<open>flashOff\<close>/
    \<open>Flasher_start\<close>/\<open>Flasher_stop\<close>; the strobe alone on the scheduler
    (\<open>strobe_step\<close>, \<open>strobe_reach\<close>); its invariant \<open>flash_inv\<close>; the specification's
    alternation \<open>strobe_spec_fire\<close> and the abstraction \<open>strobe_abs\<close>.
  \<^item> \<open>Animator\<close>: \<open>SlowFlasherPigpio\<close> (302--370) and its three instances (527--542);
    the completion of a pigpio command is the event \<open>pigpio_done\<close>; \<open>anim_step\<close>,
    \<open>anim_reach\<close>, the invariant \<open>anim_inv\<close>.
  \<^item> \<open>SlowFlasher\<close>: the stepped animator \<open>SlowFlasher\<close> (215--300) and
    \<open>createTransitionTable\<close> as a terminating \<open>function\<close> over rationals; \<open>sf_step\<close>,
    \<open>sf_reach\<close>, \<open>sf_inv\<close>. The program constructs no \<open>SlowFlasher\<close> (its instance is
    commented out); the model is of the class.
  \<^item> \<open>Controller\<close>: the main function's variables as the record \<open>ctrl\<close>,
    \<open>startPerformance\<close>, \<open>stopPerformance\<close>, \<open>controlDogSound\<close>, the anonymous timer
    callbacks (\<open>delay_end\<close>, \<open>start_skull1\<close>/\<open>2\<close>, \<open>cool_down_end\<close>, \<open>sensor_setup\<close>),
    the sensor callback, the player's close handler, and the four HTTP handlers
    (\<open>getStatus\<close>, \<open>postStart\<close>, \<open>postStop\<close>, \<open>postEnabled\<close>, lines 557--585).
  \<^item> \<open>System\<close>: the whole program as one step function \<open>sys_step\<close> over the events of
    its environment (a timer fires, time passes, a pigpio command completes or fails to
    open the pipe, a sensor edge, the player exits, an HTTP request), its start-up \<open>sys0\<close> and reachable states
    \<open>sys_reach\<close>; \<open>Math.random()\<close> is an argument of the events that call it.
  \<^item> \<open>Frames\<close>: \<open>frame_for F P\<close>, the footprint of a step (the timers of closures in
    \<open>F\<close> and the pins and flags of ports in \<open>P\<close> unchanged, the timer store only extended).
  \<^item> \<open>Invariant\<close>: the whole-program invariant \<open>sys_inv\<close> (each component's invariant
    and the ownership of every handle the controller keeps), the stability of each
    component's invariant under frames, the footprint of every operation, and the
    update lemmas for each component.
  \<^item> \<open>SysInvariant\<close>: every handler and every event keeps \<open>sys_inv\<close>; the program-wide
    properties.

  \<^bold>\<open>What the lemmas show.\<close> Per component: the functional behaviour of each operation
  on every branch, the component's invariant kept by each of its steps, its error
  behaviour (the strobe's port lookup, the pigpio write error), bounds (PWM duty in
  0..250, the transition table in 0..10), equivalence of the table loop with a map over
  a range. For the whole program: the invariant composed by frames, from which the
  program never throws (it only ends on a pigpio pipe failure), the flash lamps are
  never both on, each animator has at most one ramp interval and it is the one its
  \<open>transitionInterval\<close> names, the strobe has at most one interval and one pending
  flash-off, and two web requests always reset it to idle (a bounded liveness
  property). \<open>start\<close> of an animator cancels exactly the state timeout it recorded. The
  strobe refines the specification's two-channel alternation (\<open>strobe_abs\<close> maps each
  firing to one step of \<open>strobe_spec_fire\<close>). Concrete traces, evaluated by \<open>simp\<close>,
  show the behaviours the code has and the specification does not: two live ramp-end
  timers after slow pigpio acknowledgements, a force start that leaves the pre-roll
  timer live (a second player, or an abort of the running performance when presence is
  gone), a stale cool-down timer, the sensor-to-run delay, and a pipe failure that ends
  the process by \<open>process.exit(1)\<close> with the outputs on.

  \<^bold>\<open>Bounds and fuel.\<close> No fuel is used: every loop of the program is a timer, and a
  run is a finite list of events (\<open>sys_run\<close>, \<open>anim_run\<close>); \<open>createTransitionTable\<close>'s
  loop terminates by the measure \<open>ceiling steps - n\<close>. The random start offsets are
  bounded below 3000 ms as \<open>Math.floor(Math.random() * 3000)\<close> gives.

  \<^bold>\<open>Not modelled.\<close> The Express routing and static files (library wiring); the
  stand-alone hardware test \<^verbatim>\<open>src/test.js\<close>; the log messages; whether the
  player is muted (\<open>IOEnabled.music\<close> only selects the player's arguments); the SIGINT
  signal itself (its handler \<open>exit_cleanup\<close> is modelled, not the process ending);
  \<open>State.uptime\<close> is computed by \<open>getStatus\<close> and returned with the state instead of
  being stored; JavaScript floats are idealised as rationals
  (\<open>Math.round\<close> as \<open>floor (x + 1/2)\<close>).
\<close>

end
